theory Spec2Isabelle
  imports Main "HOL-Library.Word"
begin

unbundle bit_operations_syntax

section \<open>Python values used by the translator\<close>

text \<open>
  The repository holds two variants of one VM-to-Hack translator: \<open>src/VMTranslator.py\<close>
  (arithmetic, push and pop only) and \<open>src/main.py\<close> (the same, with a bootstrap prologue
  and a call emitter).  Both are modelled; names of the first carry the prefix \<open>vmt_\<close>,
  names of the second the prefix \<open>main_\<close>.

  Exceptions are values: every \<open>raise\<close> of the source, and every exception a Python
  built-in raises on the paths modelled, is a constructor of \<open>error\<close>.
\<close>

datatype error = ValueError | IndexError | KeyError | UnboundLocalError | TypeError

subsection \<open>\<open>str(int)\<close>, as used by the f-strings\<close>

definition digit_char :: "nat \<Rightarrow> char" where
  "digit_char d = ''0123456789'' ! d"

function str_nat :: "nat \<Rightarrow> string" where
  "str_nat n = (if n < 10 then [digit_char n] else str_nat (n div 10) @ [digit_char (n mod 10)])"
  by pat_completeness auto
termination
  by (relation "measure id") auto

declare str_nat.simps [simp del]

definition str_int :: "int \<Rightarrow> string" where
  "str_int i = (if i < 0 then ''-'' @ str_nat (nat (- i)) else str_nat (nat i))"

subsection \<open>\<open>int(str)\<close>, as used by \<open>Parser.arg2\<close>\<close>

text \<open>
  Python's \<open>int\<close> on a token (a string without whitespace, since tokens come from
  \<open>str.split()\<close>): an optional sign, then decimal digits, where single underscores may
  stand between digits.  Anything else raises \<open>ValueError\<close> (here \<open>None\<close>).  Only ASCII
  digits are modelled, and not the interpreter's limit on the number of digits of a
  converted string.
\<close>

definition digit_val :: "char \<Rightarrow> nat option" where
  "digit_val c = map_of [(CHR ''0'', 0), (CHR ''1'', 1), (CHR ''2'', 2), (CHR ''3'', 3),
     (CHR ''4'', 4), (CHR ''5'', 5), (CHR ''6'', 6), (CHR ''7'', 7), (CHR ''8'', 8),
     (CHR ''9'', 9)] c"

fun py_digits :: "string \<Rightarrow> nat \<Rightarrow> nat option" where
  "py_digits [] acc = Some acc"
| "py_digits (c # cs) acc =
     (case digit_val c of
        Some d \<Rightarrow> py_digits cs (10 * acc + d)
      | None \<Rightarrow>
          (if c = CHR ''_'' then
             (case cs of
                [] \<Rightarrow> None
              | c' # _ \<Rightarrow> (if digit_val c' = None then None else py_digits cs acc))
           else None))"

definition py_nat :: "string \<Rightarrow> nat option" where
  "py_nat s =
     (case s of
        [] \<Rightarrow> None
      | c # _ \<Rightarrow> (if digit_val c = None then None else py_digits s 0))"

definition py_int :: "string \<Rightarrow> int option" where
  "py_int s =
     (case s of
        [] \<Rightarrow> None
      | c # cs \<Rightarrow>
          (if c = CHR ''-'' then map_option (\<lambda>n. - int n) (py_nat cs)
           else if c = CHR ''+'' then map_option int (py_nat cs)
           else map_option int (py_nat s)))"

section \<open>The code writers\<close>

text \<open>
  \<open>CodeWriter\<close> of \<open>src/VMTranslator.py\<close> has two attributes: the output file and the
  label counter.  The file is opened for writing (so it starts empty) and only ever
  appended to; it is modelled by the text written so far, the field \<open>file_text\<close>.  \<open>CodeWriter\<close> of
  \<open>src/main.py\<close> has a third attribute, \<open>filename\<close>.
\<close>

record CodeWriter =
  file_text :: string
  label_count :: int

record CodeWriter_main = CodeWriter +
  filename :: string

definition file_write :: "string \<Rightarrow> 'a CodeWriter_scheme \<Rightarrow> 'a CodeWriter_scheme" where
  "file_write asm_code w = w\<lparr>file_text := file_text w @ asm_code\<rparr>"

subsection \<open>\<open>writeArithmetic\<close>\<close>

definition vmt_writeArithmetic :: "string \<Rightarrow> CodeWriter \<Rightarrow> error + CodeWriter" where
  "vmt_writeArithmetic command w =
     (if command \<in> {''add'', ''sub'', ''and'', ''or''} then
        (case map_of [(''add'', ''+''), (''sub'', ''-''), (''and'', ''&''), (''or'', ''|'')] command of
           None \<Rightarrow> Inl KeyError
         | Some op \<Rightarrow>
             Inr (file_write
               (''@SP\<newline>AM=M-1\<newline>D=M\<newline>A=A-1\<newline>M=M'' @ op @ ''D\<newline>'') w))
      else if command \<in> {''neg'', ''not''} then
        (case map_of [(''neg'', ''-''), (''not'', ''!'')] command of
           None \<Rightarrow> Inl KeyError
         | Some op \<Rightarrow>
             Inr (file_write (''@SP\<newline>A=M-1\<newline>M='' @ op @ ''M\<newline>'') w))
      else if command \<in> {''eq'', ''gt'', ''lt''} then
        (case map_of [(''eq'', ''JEQ''), (''gt'', ''JGT''), (''lt'', ''JLT'')] command of
           None \<Rightarrow> Inl KeyError
         | Some jump \<Rightarrow>
             (let label_true = ''TRUE_'' @ str_int (label_count w);
                  label_end = ''END_'' @ str_int (label_count w);
                  asm_code =
                    ''@SP\<newline>AM=M-1\<newline>D=M\<newline>A=A-1\<newline>D=M-D\<newline>''
                    @ ''@'' @ label_true @ ''\<newline>D;'' @ jump @ ''\<newline>''
                    @ ''@SP\<newline>A=M-1\<newline>M=0\<newline>''
                    @ ''@'' @ label_end @ ''\<newline>0;JMP\<newline>''
                    @ ''('' @ label_true @ '')\<newline>@SP\<newline>A=M-1\<newline>M=-1\<newline>''
                    @ ''('' @ label_end @ '')\<newline>''
              in Inr (file_write asm_code (w\<lparr>label_count := label_count w + 1\<rparr>))))
      else Inl ValueError)"

definition main_writeArithmetic :: "string \<Rightarrow> CodeWriter_main \<Rightarrow> error + CodeWriter_main" where
  "main_writeArithmetic command w =
     (if command \<in> {''add'', ''sub'', ''and'', ''or''} then
        (case map_of [(''add'', ''+''), (''sub'', ''-''), (''and'', ''&''), (''or'', ''|'')] command of
           None \<Rightarrow> Inl KeyError
         | Some op \<Rightarrow>
             Inr (file_write
               (''@SP\<newline>AM=M-1\<newline>D=M\<newline>A=A-1\<newline>M=M'' @ op @ ''D\<newline>'') w))
      else if command \<in> {''neg'', ''not''} then
        (case map_of [(''neg'', ''-''), (''not'', ''!'')] command of
           None \<Rightarrow> Inl KeyError
         | Some op \<Rightarrow>
             Inr (file_write (''@SP\<newline>A=M-1\<newline>M='' @ op @ ''M\<newline>'') w))
      else if command \<in> {''eq'', ''gt'', ''lt''} then
        (case map_of [(''eq'', ''JEQ''), (''gt'', ''JGT''), (''lt'', ''JLT'')] command of
           None \<Rightarrow> Inl KeyError
         | Some jump \<Rightarrow>
             (let label_true = ''TRUE_'' @ str_int (label_count w);
                  label_end = ''END_'' @ str_int (label_count w);
                  asm_code =
                    ''@SP\<newline>AM=M-1\<newline>D=M\<newline>A=A-1\<newline>D=M-D\<newline>''
                    @ ''@'' @ label_true @ ''\<newline>D;'' @ jump @ ''\<newline>''
                    @ ''@SP\<newline>A=M-1\<newline>M=0\<newline>''
                    @ ''@'' @ label_end @ ''\<newline>0;JMP\<newline>''
                    @ ''('' @ label_true @ '')\<newline>@SP\<newline>A=M-1\<newline>M=-1\<newline>''
                    @ ''('' @ label_end @ '')\<newline>''
              in Inr (file_write asm_code (w\<lparr>label_count := label_count w + 1\<rparr>))))
      else Inl ValueError)"

subsection \<open>\<open>writePush\<close> and \<open>writePop\<close> of \<open>src/VMTranslator.py\<close>\<close>

text \<open>
  The dictionary \<open>segment_map\<close> is built before the segment is looked at; building it
  formats the index and cannot raise.
\<close>

definition vmt_writePush :: "string \<Rightarrow> int \<Rightarrow> CodeWriter \<Rightarrow> error + CodeWriter" where
  "vmt_writePush segment index w =
     (let segment_map =
        [(''constant'', ''@'' @ str_int index @ ''\<newline>D=A\<newline>''),
         (''local'', ''@LCL\<newline>D=M\<newline>@'' @ str_int index @ ''\<newline>A=D+A\<newline>D=M\<newline>''),
         (''argument'', ''@ARG\<newline>D=M\<newline>@'' @ str_int index @ ''\<newline>A=D+A\<newline>D=M\<newline>''),
         (''this'', ''@THIS\<newline>D=M\<newline>@'' @ str_int index @ ''\<newline>A=D+A\<newline>D=M\<newline>''),
         (''that'', ''@THAT\<newline>D=M\<newline>@'' @ str_int index @ ''\<newline>A=D+A\<newline>D=M\<newline>''),
         (''temp'', ''@'' @ str_int (5 + index) @ ''\<newline>D=M\<newline>''),
         (''pointer'', ''@'' @ (if index = 0 then ''THIS'' else ''THAT'') @ ''\<newline>D=M\<newline>''),
         (''static'', ''@Static.'' @ str_int index @ ''\<newline>D=M\<newline>'')]
      in case map_of segment_map segment of
           None \<Rightarrow> Inl ValueError
         | Some code \<Rightarrow>
             Inr (file_write (code @ ''@SP\<newline>A=M\<newline>M=D\<newline>@SP\<newline>M=M+1\<newline>'') w))"

definition vmt_writePop :: "string \<Rightarrow> int \<Rightarrow> CodeWriter \<Rightarrow> error + CodeWriter" where
  "vmt_writePop segment index w =
     (if segment = ''constant'' then Inl ValueError
      else
        (let segment_map =
           [(''local'', ''@LCL''),
            (''argument'', ''@ARG''),
            (''this'', ''@THIS''),
            (''that'', ''@THAT''),
            (''temp'', ''@'' @ str_int (5 + index)),
            (''pointer'', (if index = 0 then ''@THIS'' else ''@THAT'')),
            (''static'', ''@Static.'' @ str_int index)]
         in case map_of segment_map segment of
              None \<Rightarrow> Inl ValueError
            | Some target \<Rightarrow>
                (if segment \<in> {''temp'', ''pointer'', ''static''} then
                   Inr (file_write
                     (''@SP\<newline>AM=M-1\<newline>D=M\<newline>'' @ target @ ''\<newline>M=D\<newline>'') w)
                 else
                   Inr (file_write
                     (''@'' @ str_int index @ ''\<newline>D=A\<newline>''
                      @ target
                      @ ''\<newline>D=M+D\<newline>@R13\<newline>M=D\<newline>''
                      @ ''@SP\<newline>AM=M-1\<newline>D=M\<newline>@R13\<newline>A=M\<newline>M=D\<newline>'') w))))"

subsection \<open>\<open>writePush\<close>, \<open>writePop\<close>, \<open>writeCall\<close> and \<open>writeInit\<close> of \<open>src/main.py\<close>\<close>

definition SEGMENTS :: "(string \<times> string) list" where
  "SEGMENTS =
     [(''local'', ''LCL''), (''argument'', ''ARG''), (''this'', ''THIS''), (''that'', ''THAT''),
      (''temp'', ''5''), (''pointer'', ''3''), (''static'', ''16'')]"

text \<open>
  In \<open>writePush\<close> and \<open>writePop\<close> the local \<open>asm_code\<close> is assigned only inside the
  branches; for a segment that no branch takes, its first use raises
  \<open>UnboundLocalError\<close>, before anything is written.
\<close>

definition main_writePush :: "string \<Rightarrow> int \<Rightarrow> CodeWriter_main \<Rightarrow> error + CodeWriter_main" where
  "main_writePush segment index w =
     (if segment = ''constant'' then
        Inr (file_write
          (''@'' @ str_int index @ ''\<newline>D=A\<newline>''
           @ ''@SP\<newline>A=M\<newline>M=D\<newline>@SP\<newline>M=M+1\<newline>'') w)
      else
        (case map_of SEGMENTS segment of
           None \<Rightarrow> Inl UnboundLocalError
         | Some base \<Rightarrow>
             (if segment \<in> {''temp'', ''pointer'', ''static''} then
                (case py_int base of
                   None \<Rightarrow> Inl ValueError
                 | Some b \<Rightarrow>
                     Inr (file_write
                       (''@'' @ str_int (b + index) @ ''\<newline>D=M\<newline>''
                        @ ''@SP\<newline>A=M\<newline>M=D\<newline>@SP\<newline>M=M+1\<newline>'') w))
              else
                Inr (file_write
                  (''@'' @ base @ ''\<newline>D=M\<newline>@'' @ str_int index @ ''\<newline>A=D+A\<newline>D=M\<newline>''
                   @ ''@SP\<newline>A=M\<newline>M=D\<newline>@SP\<newline>M=M+1\<newline>'') w))))"

definition main_writePop :: "string \<Rightarrow> int \<Rightarrow> CodeWriter_main \<Rightarrow> error + CodeWriter_main" where
  "main_writePop segment index w =
     (case map_of SEGMENTS segment of
        None \<Rightarrow> Inl UnboundLocalError
      | Some base \<Rightarrow>
          (if segment \<in> {''temp'', ''pointer'', ''static''} then
             (case py_int base of
                None \<Rightarrow> Inl ValueError
              | Some b \<Rightarrow>
                  Inr (file_write
                    (''@SP\<newline>AM=M-1\<newline>D=M\<newline>@'' @ str_int (b + index) @ ''\<newline>M=D\<newline>'') w))
           else
             Inr (file_write
               (''@'' @ base @ ''\<newline>D=M\<newline>@'' @ str_int index
                @ ''\<newline>D=D+A\<newline>@R13\<newline>M=D\<newline>@SP\<newline>AM=M-1\<newline>D=M\<newline>@R13\<newline>A=M\<newline>M=D\<newline>'') w)))"

definition main_writeCall :: "string \<Rightarrow> int \<Rightarrow> CodeWriter_main \<Rightarrow> CodeWriter_main" where
  "main_writeCall function_name num_args w =
     (let return_label = ''RETURN_'' @ str_int (label_count w);
          w1 = w\<lparr>label_count := label_count w + 1\<rparr>;
          asm_code =
            ''// call '' @ function_name @ '' '' @ str_int num_args @ ''\<newline>''
            @ ''@'' @ return_label @ ''\<newline>D=A\<newline>@SP\<newline>A=M\<newline>M=D\<newline>@SP\<newline>M=M+1\<newline>''
            @ ''@LCL\<newline>D=M\<newline>@SP\<newline>A=M\<newline>M=D\<newline>@SP\<newline>M=M+1\<newline>''
            @ ''@ARG\<newline>D=M\<newline>@SP\<newline>A=M\<newline>M=D\<newline>@SP\<newline>M=M+1\<newline>''
            @ ''@THIS\<newline>D=M\<newline>@SP\<newline>A=M\<newline>M=D\<newline>@SP\<newline>M=M+1\<newline>''
            @ ''@THAT\<newline>D=M\<newline>@SP\<newline>A=M\<newline>M=D\<newline>@SP\<newline>M=M+1\<newline>''
            @ ''@'' @ str_int num_args @ ''\<newline>D=A\<newline>@5\<newline>D=D+A\<newline>@SP\<newline>D=M-D\<newline>@ARG\<newline>M=D\<newline>''
            @ ''@SP\<newline>D=M\<newline>@LCL\<newline>M=D\<newline>''
            @ ''@'' @ function_name @ ''\<newline>0;JMP\<newline>''
            @ ''('' @ return_label @ '')\<newline>''
      in file_write asm_code w1)"

definition main_writeInit :: "CodeWriter_main \<Rightarrow> CodeWriter_main" where
  "main_writeInit w =
     main_writeCall ''Sys.init'' 0
       (file_write (''// Bootstrap code\<newline>'' @ ''@256\<newline>D=A\<newline>@SP\<newline>M=D\<newline>'') w)"

subsection \<open>Construction\<close>

text \<open>
  \<open>filename.split("/")[-1].split(".")[0]\<close>: the text after the last slash, up to its
  first dot.
\<close>

definition path_stem :: "string \<Rightarrow> string" where
  "path_stem path =
     takeWhile (\<lambda>c. c \<noteq> CHR ''.'') (rev (takeWhile (\<lambda>c. c \<noteq> CHR ''/'') (rev path)))"

definition vmt_CodeWriter_init :: "CodeWriter" where
  "vmt_CodeWriter_init = \<lparr>file_text = [], label_count = 0\<rparr>"

definition main_CodeWriter_init :: "string \<Rightarrow> CodeWriter_main" where
  "main_CodeWriter_init path =
     main_writeInit \<lparr>file_text = [], label_count = 0, filename = path_stem path\<rparr>"

section \<open>The parser's view of one command\<close>

text \<open>
  \<open>Parser.__init__\<close> loads the file into \<open>commands\<close>, a list of token lists (a line
  with only an indented comment gives the empty token list).  \<open>advance\<close> pops the first
  of them into \<open>current_command\<close>.  The functions below take \<open>current_command\<close>.
\<close>

datatype command_type =
  C_ARITHMETIC | C_PUSH | C_POP | C_LABEL | C_GOTO | C_IF | C_FUNCTION | C_CALL | C_RETURN

definition py_index :: "'a list \<Rightarrow> nat \<Rightarrow> error + 'a" where
  "py_index xs i = (if i < length xs then Inr (xs ! i) else Inl IndexError)"

definition arithmetic_names :: "string set" where
  "arithmetic_names = {''add'', ''sub'', ''neg'', ''eq'', ''gt'', ''lt'', ''and'', ''or'', ''not''}"

definition vmt_commandType :: "string list \<Rightarrow> error + command_type" where
  "vmt_commandType current_command =
     (case py_index current_command 0 of
        Inl e \<Rightarrow> Inl e
      | Inr c \<Rightarrow>
          (if c \<in> arithmetic_names then Inr C_ARITHMETIC
           else if c = ''push'' then Inr C_PUSH
           else if c = ''pop'' then Inr C_POP
           else Inl ValueError))"

definition vmt_arg1 :: "string list \<Rightarrow> error + string" where
  "vmt_arg1 current_command =
     (case vmt_commandType current_command of
        Inl e \<Rightarrow> Inl e
      | Inr t \<Rightarrow> (if t = C_ARITHMETIC then py_index current_command 0
                  else py_index current_command 1))"

definition vmt_arg2 :: "string list \<Rightarrow> error + int" where
  "vmt_arg2 current_command =
     (case vmt_commandType current_command of
        Inl e \<Rightarrow> Inl e
      | Inr t \<Rightarrow>
          (if t \<in> {C_PUSH, C_POP} then
             (case py_index current_command 2 of
                Inl e \<Rightarrow> Inl e
              | Inr tok \<Rightarrow> (case py_int tok of None \<Rightarrow> Inl ValueError | Some i \<Rightarrow> Inr i))
           else Inl ValueError))"

text \<open>
  In \<open>src/main.py\<close>, \<open>commandType\<close> returns \<open>None\<close> for an empty token list and knows
  the six branching and function commands.
\<close>

definition main_commandType :: "string list \<Rightarrow> error + command_type option" where
  "main_commandType current_command =
     (case current_command of
        [] \<Rightarrow> Inr None
      | c # _ \<Rightarrow>
          (if c \<in> arithmetic_names then Inr (Some C_ARITHMETIC)
           else if c = ''push'' then Inr (Some C_PUSH)
           else if c = ''pop'' then Inr (Some C_POP)
           else if c = ''label'' then Inr (Some C_LABEL)
           else if c = ''goto'' then Inr (Some C_GOTO)
           else if c = ''if-goto'' then Inr (Some C_IF)
           else if c = ''function'' then Inr (Some C_FUNCTION)
           else if c = ''call'' then Inr (Some C_CALL)
           else if c = ''return'' then Inr (Some C_RETURN)
           else Inl ValueError))"

definition main_arg1 :: "string list \<Rightarrow> error + string" where
  "main_arg1 current_command =
     (case main_commandType current_command of
        Inl e \<Rightarrow> Inl e
      | Inr t \<Rightarrow> (if t = Some C_ARITHMETIC then py_index current_command 0
                  else py_index current_command 1))"

definition main_arg2 :: "string list \<Rightarrow> error + int" where
  "main_arg2 current_command =
     (case main_commandType current_command of
        Inl e \<Rightarrow> Inl e
      | Inr t \<Rightarrow>
          (if t \<in> {Some C_PUSH, Some C_POP, Some C_FUNCTION, Some C_CALL} then
             (case py_index current_command 2 of
                Inl e \<Rightarrow> Inl e
              | Inr tok \<Rightarrow> (case py_int tok of None \<Rightarrow> Inl ValueError | Some i \<Rightarrow> Inr i))
           else Inl ValueError))"

section \<open>The translate loop\<close>

text \<open>
  One round of the loop body, after \<open>advance\<close>: the dispatch on the command type.  The
  arguments of a call are evaluated left to right, \<open>arg1\<close> before \<open>arg2\<close>.  In both files the
  chain of tests has no final \<open>else\<close>.
\<close>

definition vmt_translate_step :: "string list \<Rightarrow> CodeWriter \<Rightarrow> error + CodeWriter" where
  "vmt_translate_step current_command w =
     (case vmt_commandType current_command of
        Inl e \<Rightarrow> Inl e
      | Inr command_type \<Rightarrow>
          (if command_type = C_ARITHMETIC then
             (case vmt_arg1 current_command of
                Inl e \<Rightarrow> Inl e
              | Inr a1 \<Rightarrow> vmt_writeArithmetic a1 w)
           else if command_type = C_PUSH then
             (case vmt_arg1 current_command of
                Inl e \<Rightarrow> Inl e
              | Inr a1 \<Rightarrow>
                  (case vmt_arg2 current_command of
                     Inl e \<Rightarrow> Inl e
                   | Inr a2 \<Rightarrow> vmt_writePush a1 a2 w))
           else if command_type = C_POP then
             (case vmt_arg1 current_command of
                Inl e \<Rightarrow> Inl e
              | Inr a1 \<Rightarrow>
                  (case vmt_arg2 current_command of
                     Inl e \<Rightarrow> Inl e
                   | Inr a2 \<Rightarrow> vmt_writePop a1 a2 w))
           else Inr w))"

definition main_translate_step :: "string list \<Rightarrow> CodeWriter_main \<Rightarrow> error + CodeWriter_main" where
  "main_translate_step current_command w =
     (case main_commandType current_command of
        Inl e \<Rightarrow> Inl e
      | Inr command_type \<Rightarrow>
          (if command_type = Some C_ARITHMETIC then
             (case main_arg1 current_command of
                Inl e \<Rightarrow> Inl e
              | Inr a1 \<Rightarrow> main_writeArithmetic a1 w)
           else if command_type = Some C_PUSH then
             (case main_arg1 current_command of
                Inl e \<Rightarrow> Inl e
              | Inr a1 \<Rightarrow>
                  (case main_arg2 current_command of
                     Inl e \<Rightarrow> Inl e
                   | Inr a2 \<Rightarrow> main_writePush a1 a2 w))
           else if command_type = Some C_POP then
             (case main_arg1 current_command of
                Inl e \<Rightarrow> Inl e
              | Inr a1 \<Rightarrow>
                  (case main_arg2 current_command of
                     Inl e \<Rightarrow> Inl e
                   | Inr a2 \<Rightarrow> main_writePop a1 a2 w))
           else Inr w))"

text \<open>
  The loop \<open>while hasMoreCommands(): advance(); ...\<close> takes the commands in order, so it
  is a recursion over the list.  An exception leaves the loop at once: the result is the
  exception, if any, with the writer as it then stands (every emitter writes last, so a
  command that raises has written nothing).
\<close>

fun vmt_translate_loop :: "string list list \<Rightarrow> CodeWriter \<Rightarrow> error option \<times> CodeWriter" where
  "vmt_translate_loop [] w = (None, w)"
| "vmt_translate_loop (c # cs) w =
     (case vmt_translate_step c w of
        Inl e \<Rightarrow> (Some e, w)
      | Inr w' \<Rightarrow> vmt_translate_loop cs w')"

fun main_translate_loop :: "string list list \<Rightarrow> CodeWriter_main \<Rightarrow> error option \<times> CodeWriter_main" where
  "main_translate_loop [] w = (None, w)"
| "main_translate_loop (c # cs) w =
     (case main_translate_step c w of
        Inl e \<Rightarrow> (Some e, w)
      | Inr w' \<Rightarrow> main_translate_loop cs w')"

text \<open>
  A run: \<open>VMTranslator(input_file).translate()\<close>, for the commands the parser loaded
  and the path of the output file.
\<close>

definition vmt_translate :: "string list list \<Rightarrow> error option \<times> CodeWriter" where
  "vmt_translate commands = vmt_translate_loop commands vmt_CodeWriter_init"

definition main_translate :: "string \<Rightarrow> string list list \<Rightarrow> error option \<times> CodeWriter_main" where
  "main_translate path commands = main_translate_loop commands (main_CodeWriter_init path)"

section \<open>What one emitter call appended\<close>

definition emitted :: "'a CodeWriter_scheme \<Rightarrow> 'b CodeWriter_scheme \<Rightarrow> string" where
  "emitted w w' = drop (length (file_text w)) (file_text w')"

section \<open>The target machine\<close>

text \<open>
  The emitted text is assembly for the Hack computer, the 16-bit machine of the course the
  translator was written for.  The machine is not part of the repository.  It is modelled
  here as far as the emitted text needs it: the assembly syntax (A-instructions,
  C-instructions, label declarations, comments), the symbols every Hack assembler
  predefines, and the effect of one instruction on the registers \<open>A\<close> and \<open>D\<close>, the data
  memory and the program counter.
\<close>

subsection \<open>Lines of the output\<close>

text \<open>The text is cut at line feeds; a final line feed ends the last line.\<close>

fun asm_lines :: "string \<Rightarrow> string list" where
  "asm_lines [] = []"
| "asm_lines (c # cs) =
     (if c = CHR ''\<newline>'' then [] # asm_lines cs
      else (case asm_lines cs of [] \<Rightarrow> [[c]] | l # ls \<Rightarrow> (c # l) # ls))"

text \<open>A line \<open>(X)\<close> declares the label \<open>X\<close>.\<close>

definition line_label :: "string \<Rightarrow> string option" where
  "line_label l =
     (case l of
        [] \<Rightarrow> None
      | c # r \<Rightarrow> (if c = CHR ''('' \<and> r \<noteq> [] \<and> last r = CHR '')'' then Some (butlast r) else None))"

definition declared_labels :: "string \<Rightarrow> string list" where
  "declared_labels text = List.map_filter line_label (asm_lines text)"

subsection \<open>Assembly syntax\<close>

datatype operand = ANum "16 word" | ASym string

datatype reg = RA | RD | RM

datatype comp =
    Lit "16 word" | Reg reg | Not reg | Neg reg | Inc reg | Dec reg
  | Add reg reg | Sub reg reg | And reg reg | Or reg reg

datatype dest = Dest (to_A: bool) (to_D: bool) (to_M: bool)

datatype jump = JGT | JEQ | JGE | JLT | JNE | JLE | JMP

datatype line = A_instr operand | C_instr dest comp "jump option" | Label string | Blank

text \<open>
  A symbol is made of letters, digits, underscore, period, dollar sign and colon, and
  does not begin with a digit.
\<close>

definition symbol_chars :: "char set" where
  "symbol_chars = set ''abcdefghijklmnopqrstuvwxyzABCDEFGHIJKLMNOPQRSTUVWXYZ0123456789_.$:''"

definition valid_symbol :: "string \<Rightarrow> bool" where
  "valid_symbol x =
     (case x of [] \<Rightarrow> False | c # _ \<Rightarrow> digit_val c = None \<and> set x \<subseteq> symbol_chars)"

fun dec_digits :: "string \<Rightarrow> nat \<Rightarrow> nat option" where
  "dec_digits [] acc = Some acc"
| "dec_digits (c # cs) acc =
     (case digit_val c of Some d \<Rightarrow> dec_digits cs (10 * acc + d) | None \<Rightarrow> None)"

text \<open>
  \<open>@value\<close>: a decimal constant of at most 15 bits, or a symbol.  A constant above 32767
  or a negative one has no machine instruction and is refused.
\<close>

definition parse_A :: "string \<Rightarrow> line option" where
  "parse_A x =
     (case x of
        [] \<Rightarrow> None
      | c # _ \<Rightarrow>
          (if digit_val c = None then
             (if valid_symbol x then Some (A_instr (ASym x)) else None)
           else
             (case dec_digits x 0 of
                None \<Rightarrow> None
              | Some n \<Rightarrow> (if n < 32768 then Some (A_instr (ANum (of_nat n))) else None))))"

definition dest_table :: "(string \<times> dest) list" where
  "dest_table =
     [(''M'', Dest False False True), (''D'', Dest False True False),
      (''MD'', Dest False True True), (''A'', Dest True False False),
      (''AM'', Dest True False True), (''AD'', Dest True True False),
      (''AMD'', Dest True True True)]"

text \<open>
  The computations of the Hack ALU.  Besides the 28 mnemonics of the language definition
  the table holds the commuted spellings of the three commutative operations (\<open>M+D\<close> for
  \<open>D+M\<close> and so on), which the translator emits and the course's assembler accepts.
\<close>

definition comp_table :: "(string \<times> comp) list" where
  "comp_table =
     [(''0'', Lit 0), (''1'', Lit 1), (''-1'', Lit (- 1)),
      (''D'', Reg RD), (''A'', Reg RA), (''M'', Reg RM),
      (''!D'', Not RD), (''!A'', Not RA), (''!M'', Not RM),
      (''-D'', Neg RD), (''-A'', Neg RA), (''-M'', Neg RM),
      (''D+1'', Inc RD), (''A+1'', Inc RA), (''M+1'', Inc RM),
      (''D-1'', Dec RD), (''A-1'', Dec RA), (''M-1'', Dec RM),
      (''D+A'', Add RD RA), (''D+M'', Add RD RM),
      (''D-A'', Sub RD RA), (''D-M'', Sub RD RM),
      (''A-D'', Sub RA RD), (''M-D'', Sub RM RD),
      (''D&A'', And RD RA), (''D&M'', And RD RM),
      (''D|A'', Or RD RA), (''D|M'', Or RD RM),
      (''A+D'', Add RA RD), (''M+D'', Add RM RD),
      (''A&D'', And RA RD), (''M&D'', And RM RD),
      (''A|D'', Or RA RD), (''M|D'', Or RM RD)]"

definition jump_table :: "(string \<times> jump) list" where
  "jump_table =
     [(''JGT'', JGT), (''JEQ'', JEQ), (''JGE'', JGE), (''JLT'', JLT),
      (''JNE'', JNE), (''JLE'', JLE), (''JMP'', JMP)]"

text \<open>\<open>dest=comp;jump\<close>, where \<open>dest=\<close> and \<open>;jump\<close> may be missing.\<close>

definition parse_C :: "string \<Rightarrow> line option" where
  "parse_C l =
     (let d = (if CHR ''='' \<in> set l
                 then map_of dest_table (takeWhile (\<lambda>c. c \<noteq> CHR ''='') l)
                 else Some (Dest False False False));
          r = (if CHR ''='' \<in> set l then tl (dropWhile (\<lambda>c. c \<noteq> CHR ''='') l) else l);
          c = map_of comp_table (takeWhile (\<lambda>c. c \<noteq> CHR '';'') r);
          j = (if CHR '';'' \<in> set r
                 then map_option Some (map_of jump_table (tl (dropWhile (\<lambda>c. c \<noteq> CHR '';'') r)))
                 else Some None)
      in case (d, c, j) of
           (Some d', Some c', Some j') \<Rightarrow> Some (C_instr d' c' j')
         | _ \<Rightarrow> None)"

text \<open>
  One line.  An empty line and a line that starts with \<open>//\<close> carry no instruction.
  White space inside an instruction is not accepted (the translator emits none); \<open>None\<close>
  is a syntax error.
\<close>

definition parse_line :: "string \<Rightarrow> line option" where
  "parse_line l =
     (case l of
        [] \<Rightarrow> Some Blank
      | c # r \<Rightarrow>
          (if take 2 l = ''//'' then Some Blank
           else if c = CHR ''@'' then parse_A r
           else if c = CHR ''('' then
             (case line_label l of
                None \<Rightarrow> None
              | Some x \<Rightarrow> (if valid_symbol x then Some (Label x) else None))
           else parse_C l))"

fun parse_lines :: "string list \<Rightarrow> line list option" where
  "parse_lines [] = Some []"
| "parse_lines (l # ls) =
     (case parse_line l of
        None \<Rightarrow> None
      | Some x \<Rightarrow> (case parse_lines ls of None \<Rightarrow> None | Some xs \<Rightarrow> Some (x # xs)))"

definition parse_asm :: "string \<Rightarrow> line list option" where
  "parse_asm text = parse_lines (asm_lines text)"

text \<open>
  Only A- and C-instructions occupy program memory.  A label stands for the address of
  the instruction that follows it: \<open>asm_labels ls n\<close> lists the labels of \<open>ls\<close> with their
  addresses, when the first instruction of \<open>ls\<close> is at address \<open>n\<close>.
\<close>

fun is_code :: "line \<Rightarrow> bool" where
  "is_code (A_instr _) = True"
| "is_code (C_instr _ _ _) = True"
| "is_code _ = False"

definition code_of :: "line list \<Rightarrow> line list" where
  "code_of ls = filter is_code ls"

fun asm_labels :: "line list \<Rightarrow> nat \<Rightarrow> (string \<times> nat) list" where
  "asm_labels [] n = []"
| "asm_labels (Label x # ls) n = (x, n) # asm_labels ls n"
| "asm_labels (l # ls) n = asm_labels ls (if is_code l then Suc n else n)"

definition text_labels :: "string \<Rightarrow> (string \<times> nat) list" where
  "text_labels text = (case parse_asm text of None \<Rightarrow> [] | Some ls \<Rightarrow> asm_labels ls 0)"

subsection \<open>Symbols\<close>

definition predefined_symbols :: "(string \<times> 16 word) list" where
  "predefined_symbols =
     [(''SP'', 0), (''LCL'', 1), (''ARG'', 2), (''THIS'', 3), (''THAT'', 4),
      (''R0'', 0), (''R1'', 1), (''R2'', 2), (''R3'', 3), (''R4'', 4), (''R5'', 5),
      (''R6'', 6), (''R7'', 7), (''R8'', 8), (''R9'', 9), (''R10'', 10), (''R11'', 11),
      (''R12'', 12), (''R13'', 13), (''R14'', 14), (''R15'', 15),
      (''SCREEN'', 16384), (''KBD'', 24576)]"

text \<open>
  The assembler's symbol table is a parameter \<open>env\<close> of the semantics: the emitted text
  is a piece of a larger program, and what a symbol stands for depends on all of it.  A
  table agrees with a piece of text loaded at address \<open>b\<close> when it has the predefined
  symbols and maps each label the text declares to the address the label then has.
\<close>

definition predefined_ok :: "(string \<Rightarrow> 16 word) \<Rightarrow> bool" where
  "predefined_ok env = list_all (\<lambda>(x, v). env x = v) predefined_symbols"

definition symbols_agree :: "(string \<Rightarrow> 16 word) \<Rightarrow> nat \<Rightarrow> string \<Rightarrow> bool" where
  "symbols_agree env b text \<longleftrightarrow>
     predefined_ok env \<and> list_all (\<lambda>(x, n). unat (env x) = b + n) (text_labels text)"

text \<open>
  The table the two-pass assembler builds for a text taken as a whole program, loaded at
  address 0: the predefined symbols, then the labels, then every other symbol as a
  variable, allocated from address 16 on in the order of first use.
\<close>

fun first_pass :: "line list \<Rightarrow> nat \<Rightarrow> (string \<times> 16 word) list \<Rightarrow> (string \<times> 16 word) list" where
  "first_pass [] n tab = tab"
| "first_pass (Label x # ls) n tab =
     first_pass ls n (if map_of tab x = None then tab @ [(x, of_nat n)] else tab)"
| "first_pass (l # ls) n tab = first_pass ls (if is_code l then Suc n else n) tab"

fun second_pass :: "line list \<Rightarrow> 16 word \<Rightarrow> (string \<times> 16 word) list \<Rightarrow> (string \<times> 16 word) list" where
  "second_pass [] v tab = tab"
| "second_pass (A_instr (ASym x) # ls) v tab =
     (if map_of tab x = None then second_pass ls (v + 1) (tab @ [(x, v)])
      else second_pass ls v tab)"
| "second_pass (l # ls) v tab = second_pass ls v tab"

definition symbol_table :: "line list \<Rightarrow> (string \<times> 16 word) list" where
  "symbol_table ls = second_pass ls 16 (first_pass ls 0 predefined_symbols)"

definition assembler_env :: "string \<Rightarrow> string \<Rightarrow> 16 word" where
  "assembler_env text x =
     (case parse_asm text of
        None \<Rightarrow> 0
      | Some ls \<Rightarrow> (case map_of (symbol_table ls) x of None \<Rightarrow> 0 | Some v \<Rightarrow> v))"

subsection \<open>Execution\<close>

text \<open>
  The state: the registers \<open>A\<close> and \<open>D\<close>, the data memory and the program counter.  \<open>M\<close>
  is the memory cell that \<open>A\<close> addresses.  Memory is indexed by the full 16-bit value of
  \<open>A\<close>; the memory map (screen, keyboard) is not modelled.
\<close>

record hack =
  reg_A :: "16 word"
  reg_D :: "16 word"
  ram :: "16 word \<Rightarrow> 16 word"
  pc :: nat

fun reg_val :: "reg \<Rightarrow> hack \<Rightarrow> 16 word" where
  "reg_val RA s = reg_A s"
| "reg_val RD s = reg_D s"
| "reg_val RM s = ram s (reg_A s)"

fun eval_comp :: "comp \<Rightarrow> hack \<Rightarrow> 16 word" where
  "eval_comp (Lit v) s = v"
| "eval_comp (Reg r) s = reg_val r s"
| "eval_comp (Not r) s = NOT (reg_val r s)"
| "eval_comp (Neg r) s = - reg_val r s"
| "eval_comp (Inc r) s = reg_val r s + 1"
| "eval_comp (Dec r) s = reg_val r s - 1"
| "eval_comp (Add r q) s = reg_val r s + reg_val q s"
| "eval_comp (Sub r q) s = reg_val r s - reg_val q s"
| "eval_comp (And r q) s = reg_val r s AND reg_val q s"
| "eval_comp (Or r q) s = reg_val r s OR reg_val q s"

text \<open>A jump compares the computed value, read as a signed number, with zero.\<close>

fun jump_taken :: "jump option \<Rightarrow> 16 word \<Rightarrow> bool" where
  "jump_taken None v = False"
| "jump_taken (Some JGT) v = (0 < sint v)"
| "jump_taken (Some JEQ) v = (v = 0)"
| "jump_taken (Some JGE) v = (0 \<le> sint v)"
| "jump_taken (Some JLT) v = (sint v < 0)"
| "jump_taken (Some JNE) v = (v \<noteq> 0)"
| "jump_taken (Some JLE) v = (sint v \<le> 0)"
| "jump_taken (Some JMP) v = True"

fun operand_val :: "(string \<Rightarrow> 16 word) \<Rightarrow> operand \<Rightarrow> 16 word" where
  "operand_val env (ANum n) = n"
| "operand_val env (ASym x) = env x"

text \<open>
  One instruction.  A C-instruction computes from the old registers; the value goes to
  every destination named, \<open>M\<close> being the cell the old \<open>A\<close> addresses; a jump goes to
  the address in the old \<open>A\<close>.
\<close>

fun step :: "(string \<Rightarrow> 16 word) \<Rightarrow> line \<Rightarrow> hack \<Rightarrow> hack" where
  "step env (A_instr a) s = s\<lparr>reg_A := operand_val env a, pc := Suc (pc s)\<rparr>"
| "step env (C_instr d c j) s =
     (let a = reg_A s; v = eval_comp c s
      in s\<lparr>reg_A := (if to_A d then v else a),
           reg_D := (if to_D d then v else reg_D s),
           ram := (if to_M d then (ram s)(a := v) else ram s),
           pc := (if jump_taken j v then unat a else Suc (pc s))\<rparr>)"
| "step env (Label x) s = s"
| "step env Blank s = s"

text \<open>
  A piece of code \<open>prog\<close> is loaded at address \<open>b\<close>.  \<open>steps\<close> executes exactly \<open>n\<close>
  instructions of it; \<open>run\<close> executes until control falls off its end, that is, reaches
  the address after its last instruction.  Both give \<open>None\<close> when control leaves the piece
  otherwise, and \<open>run\<close> also when the fuel \<open>n\<close> is used up before the end.
\<close>

fun steps :: "(string \<Rightarrow> 16 word) \<Rightarrow> nat \<Rightarrow> line list \<Rightarrow> nat \<Rightarrow> hack \<Rightarrow> hack option" where
  "steps env b prog 0 s = Some s"
| "steps env b prog (Suc n) s =
     (if b \<le> pc s \<and> pc s < b + length prog
        then steps env b prog n (step env (prog ! (pc s - b)) s)
      else None)"

fun run :: "(string \<Rightarrow> 16 word) \<Rightarrow> nat \<Rightarrow> line list \<Rightarrow> nat \<Rightarrow> hack \<Rightarrow> hack option" where
  "run env b prog 0 s = (if pc s = b + length prog then Some s else None)"
| "run env b prog (Suc n) s =
     (if pc s = b + length prog then Some s
      else if b \<le> pc s \<and> pc s < b + length prog
        then run env b prog n (step env (prog ! (pc s - b)) s)
      else None)"

text \<open>
  A piece of emitted text, executed where the program counter stands: the text is
  parsed, its instructions are taken as loaded at \<open>pc s\<close>.
\<close>

definition exec_steps :: "(string \<Rightarrow> 16 word) \<Rightarrow> string \<Rightarrow> nat \<Rightarrow> hack \<Rightarrow> hack option" where
  "exec_steps env text n s =
     (case parse_asm text of
        None \<Rightarrow> None
      | Some ls \<Rightarrow> steps env (pc s) (code_of ls) n s)"

definition exec_asm :: "(string \<Rightarrow> 16 word) \<Rightarrow> string \<Rightarrow> nat \<Rightarrow> hack \<Rightarrow> hack option" where
  "exec_asm env text fuel s =
     (case parse_asm text of
        None \<Rightarrow> None
      | Some ls \<Rightarrow> run env (pc s) (code_of ls) fuel s)"

subsection \<open>Where a segment access goes\<close>

text \<open>
  The cell a push reads and a pop writes, as the claims describe it: for \<open>temp\<close>,
  \<open>pointer\<close> and \<open>static\<close> a fixed base plus the index, for \<open>local\<close>, \<open>argument\<close>,
  \<open>this\<close> and \<open>that\<close> the content of the segment's base register plus the index.  This
  is the statement the emitters are compared with, not a translation of code.
\<close>

definition fixed_base :: "(string \<times> int) list" where
  "fixed_base = [(''temp'', 5), (''pointer'', 3), (''static'', 16)]"

definition base_register :: "(string \<times> 16 word) list" where
  "base_register = [(''local'', 1), (''argument'', 2), (''this'', 3), (''that'', 4)]"

definition claimed_cell :: "hack \<Rightarrow> string \<Rightarrow> int \<Rightarrow> 16 word option" where
  "claimed_cell s segment index =
     (case map_of fixed_base segment of
        Some b \<Rightarrow> Some (word_of_int (b + index))
      | None \<Rightarrow>
          (case map_of base_register segment of
             Some r \<Rightarrow> Some (ram s r + word_of_int index)
           | None \<Rightarrow> None))"

text \<open>
  The cell \<open>src/VMTranslator.py\<close> addresses: as above, except that \<open>pointer\<close> goes to
  \<open>THIS\<close> (cell 3) for index 0 and to \<open>THAT\<close> (cell 4) for every other index, and
  \<open>static\<close> goes to wherever the assembler puts the symbol \<open>Static.index\<close>.
\<close>

definition vmt_cell :: "(string \<Rightarrow> 16 word) \<Rightarrow> hack \<Rightarrow> string \<Rightarrow> int \<Rightarrow> 16 word option" where
  "vmt_cell env s segment index =
     (if segment = ''pointer'' then Some (if index = 0 then 3 else 4)
      else if segment = ''static'' then Some (env (''Static.'' @ str_int index))
      else claimed_cell s segment index)"

section \<open>Auxiliary notions\<close>

text \<open>A text that is empty or ends with a line feed: appending to it starts a new line.\<close>

definition nl_terminated :: "string \<Rightarrow> bool" where
  "nl_terminated t \<longleftrightarrow> t = [] \<or> last t = CHR ''\<newline>''"

text \<open>
  The comparison template of \<open>writeArithmetic\<close>, with the two labels and the jump
  mnemonic as parameters.
\<close>

definition compare_asm :: "string \<Rightarrow> string \<Rightarrow> string \<Rightarrow> string" where
  "compare_asm lt le j =
     ''@SP\<newline>AM=M-1\<newline>D=M\<newline>A=A-1\<newline>D=M-D\<newline>''
     @ ''@'' @ lt @ ''\<newline>D;'' @ j @ ''\<newline>''
     @ ''@SP\<newline>A=M-1\<newline>M=0\<newline>''
     @ ''@'' @ le @ ''\<newline>0;JMP\<newline>''
     @ ''('' @ lt @ '')\<newline>@SP\<newline>A=M-1\<newline>M=-1\<newline>''
     @ ''('' @ le @ '')\<newline>''"

text \<open>
  The text of \<open>writeCall\<close>, with the function name, the argument count as printed and
  the return label as parameters; \<open>push_D_asm\<close> pushes the register \<open>D\<close>.
\<close>

definition push_D_asm :: string where
  "push_D_asm = ''@SP\<newline>A=M\<newline>M=D\<newline>@SP\<newline>M=M+1\<newline>''"

definition call_asm :: "string \<Rightarrow> string \<Rightarrow> string \<Rightarrow> string" where
  "call_asm f n rl =
     (''// call '' @ f @ '' '' @ n @ ''\<newline>'')
     @ (''@'' @ rl @ ''\<newline>D=A\<newline>'' @ push_D_asm)
     @ (''@LCL\<newline>D=M\<newline>'' @ push_D_asm)
     @ (''@ARG\<newline>D=M\<newline>'' @ push_D_asm)
     @ (''@THIS\<newline>D=M\<newline>'' @ push_D_asm)
     @ (''@THAT\<newline>D=M\<newline>'' @ push_D_asm)
     @ (''@'' @ n @ ''\<newline>D=A\<newline>@5\<newline>D=D+A\<newline>@SP\<newline>D=M-D\<newline>@ARG\<newline>M=D\<newline>'')
     @ (''@SP\<newline>D=M\<newline>@LCL\<newline>M=D\<newline>'' @ [])
     @ (''@'' @ f @ ''\<newline>0;JMP\<newline>'')
     @ (''('' @ rl @ '')\<newline>'')"

text \<open>The lines \<open>call_asm\<close> parses to.\<close>

definition call_code :: "string \<Rightarrow> operand \<Rightarrow> string \<Rightarrow> line list" where
  "call_code f a rl =
     [Blank]
     @ [A_instr (ASym rl), C_instr (Dest False True False) (Reg RA) None,
        A_instr (ASym ''SP''), C_instr (Dest True False False) (Reg RM) None,
        C_instr (Dest False False True) (Reg RD) None, A_instr (ASym ''SP''),
        C_instr (Dest False False True) (Inc RM) None]
     @ [A_instr (ASym ''LCL''), C_instr (Dest False True False) (Reg RM) None,
        A_instr (ASym ''SP''), C_instr (Dest True False False) (Reg RM) None,
        C_instr (Dest False False True) (Reg RD) None, A_instr (ASym ''SP''),
        C_instr (Dest False False True) (Inc RM) None]
     @ [A_instr (ASym ''ARG''), C_instr (Dest False True False) (Reg RM) None,
        A_instr (ASym ''SP''), C_instr (Dest True False False) (Reg RM) None,
        C_instr (Dest False False True) (Reg RD) None, A_instr (ASym ''SP''),
        C_instr (Dest False False True) (Inc RM) None]
     @ [A_instr (ASym ''THIS''), C_instr (Dest False True False) (Reg RM) None,
        A_instr (ASym ''SP''), C_instr (Dest True False False) (Reg RM) None,
        C_instr (Dest False False True) (Reg RD) None, A_instr (ASym ''SP''),
        C_instr (Dest False False True) (Inc RM) None]
     @ [A_instr (ASym ''THAT''), C_instr (Dest False True False) (Reg RM) None,
        A_instr (ASym ''SP''), C_instr (Dest True False False) (Reg RM) None,
        C_instr (Dest False False True) (Reg RD) None, A_instr (ASym ''SP''),
        C_instr (Dest False False True) (Inc RM) None]
     @ [A_instr a, C_instr (Dest False True False) (Reg RA) None, A_instr (ANum 5),
        C_instr (Dest False True False) (Add RD RA) None, A_instr (ASym ''SP''),
        C_instr (Dest False True False) (Sub RM RD) None, A_instr (ASym ''ARG''),
        C_instr (Dest False False True) (Reg RD) None]
     @ [A_instr (ASym ''SP''), C_instr (Dest False True False) (Reg RM) None,
        A_instr (ASym ''LCL''), C_instr (Dest False False True) (Reg RD) None]
     @ [A_instr (ASym f), C_instr (Dest False False False) (Lit 0) (Some JMP)]
     @ [Label rl]"

text \<open>
  The number \<open>src/main.py\<close> prints in the address instruction of a segment access: the
  index, plus the base for the segments with a fixed base.
\<close>

definition main_bound :: "string \<Rightarrow> int \<Rightarrow> int" where
  "main_bound seg i = (case map_of fixed_base seg of Some b \<Rightarrow> b + i | None \<Rightarrow> i)"

text \<open>
  A fragment without labels: it ends its last line, declares no label and does not hold
  the comment line that opens the bootstrap code.
\<close>

definition plain_fragment :: "string \<Rightarrow> bool" where
  "plain_fragment t \<longleftrightarrow>
     nl_terminated t \<and> declared_labels t = [] \<and> ''// Bootstrap code'' \<notin> set (asm_lines t)"

text \<open>The labels that the emitters can have made with counter values below \<open>k\<close>.\<close>

definition counter_labels :: "int \<Rightarrow> string list" where
  "counter_labels k =
     concat (map (\<lambda>j. [''TRUE_'' @ str_int j, ''END_'' @ str_int j, ''RETURN_'' @ str_int j])
       [0..k - 1])"

text \<open>
  What holds of a writer throughout a run: the text ends its last line, the counter is
  not negative, no label is declared twice, and every declared label was made with a
  counter value below the present one.
\<close>

definition labels_inv :: "'a CodeWriter_scheme \<Rightarrow> bool" where
  "labels_inv w \<longleftrightarrow>
     nl_terminated (file_text w) \<and> 0 \<le> label_count w \<and>
     distinct (declared_labels (file_text w)) \<and>
     set (declared_labels (file_text w)) \<subseteq> set (counter_labels (label_count w))"

text \<open>The text that \<open>writeInit\<close> of \<open>src/main.py\<close> writes.\<close>

definition bootstrap_asm :: string where
  "bootstrap_asm =
     (''// Bootstrap code\<newline>'' @ ''@256\<newline>D=A\<newline>@SP\<newline>M=D\<newline>'')
     @ call_asm ''Sys.init'' ''0'' ''RETURN_0''"

text \<open>
  How one round of the translate loop can change the writer: not at all, by a fragment
  without labels, or by the comparison fragment with the two labels made from the counter,
  which it advances.
\<close>

definition step_extends :: "'a CodeWriter_scheme \<Rightarrow> 'a CodeWriter_scheme \<Rightarrow> bool" where
  "step_extends w w' \<longleftrightarrow>
     w' = w \<or>
     (plain_fragment (emitted w w') \<and> w' = file_write (emitted w w') w) \<or>
     (\<exists>j \<in> {''JEQ'', ''JGT'', ''JLT''}.
        w' = file_write
               (compare_asm (''TRUE_'' @ str_int (label_count w)) (''END_'' @ str_int (label_count w)) j)
               (w\<lparr>label_count := label_count w + 1\<rparr>))"

section \<open>Decimal strings\<close>

lemma digit_cases:
  "d < 10 \<Longrightarrow>
   d = 0 \<or> d = 1 \<or> d = 2 \<or> d = 3 \<or> d = 4 \<or> d = 5 \<or> d = 6 \<or> d = 7 \<or> d = 8 \<or> d = (9::nat)"
  by arith

lemma digit_val_digit_char: "d < 10 \<Longrightarrow> digit_val (digit_char d) = Some d"
  using digit_cases [of d] by (auto simp: digit_val_def digit_char_def)

lemma digit_char_in_digits: "d < 10 \<Longrightarrow> digit_char d \<in> set ''0123456789''"
  using digit_cases [of d] by (auto simp: digit_char_def)

lemma str_nat_digits: "set (str_nat n) \<subseteq> set ''0123456789''"
proof (induction n rule: str_nat.induct)
  case (1 n)
  show ?case
  proof (cases "n < 10")
    case True
    then show ?thesis
      using digit_char_in_digits [of n] by (subst str_nat.simps) simp
  next
    case False
    have "n mod 10 < 10" by simp
    from digit_char_in_digits [OF this] 1 [OF False] False show ?thesis
      by (subst str_nat.simps) simp
  qed
qed

lemma str_nat_not_Nil: "str_nat n \<noteq> []"
  by (subst str_nat.simps) simp

lemma digit_val_of_digit: "c \<in> set ''0123456789'' \<Longrightarrow> digit_val c \<noteq> None"
  by (auto simp: digit_val_def)

lemma dec_digits_append:
  "dec_digits (xs @ ys) acc =
     (case dec_digits xs acc of None \<Rightarrow> None | Some a \<Rightarrow> dec_digits ys a)"
  by (induction xs arbitrary: acc) (auto split: option.splits)

lemma dec_digits_str_nat: "dec_digits (str_nat n) 0 = Some n"
proof (induction n rule: str_nat.induct)
  case (1 n)
  show ?case
  proof (cases "n < 10")
    case True
    then show ?thesis
      by (subst str_nat.simps) (simp add: digit_val_digit_char)
  next
    case False
    have "n mod 10 < 10" by simp
    from digit_val_digit_char [OF this] 1 [OF False] False show ?thesis
      by (subst str_nat.simps) (simp add: dec_digits_append)
  qed
qed

lemma py_digits_dec_digits:
  "set s \<subseteq> set ''0123456789'' \<Longrightarrow> py_digits s acc = dec_digits s acc"
proof (induction s arbitrary: acc)
  case Nil
  show ?case by simp
next
  case (Cons c s)
  from Cons.prems have "digit_val c \<noteq> None" and "set s \<subseteq> set ''0123456789''"
    using digit_val_of_digit [of c] by auto
  with Cons.IH show ?case by (auto split: option.splits)
qed

lemma str_nat_Cons: "\<exists>c cs. str_nat n = c # cs \<and> c \<in> set ''0123456789''"
  using str_nat_not_Nil [of n] str_nat_digits [of n] by (cases "str_nat n") auto

lemma py_nat_str_nat: "py_nat (str_nat n) = Some n"
proof -
  obtain c cs where s: "str_nat n = c # cs" and c: "c \<in> set ''0123456789''"
    using str_nat_Cons by blast
  have "py_digits (str_nat n) 0 = Some n"
    using py_digits_dec_digits [OF str_nat_digits] dec_digits_str_nat by simp
  with s digit_val_of_digit [OF c] show ?thesis
    by (simp add: py_nat_def)
qed

text \<open>\<open>int(str(i)) = i\<close>; so \<open>str\<close> is injective.\<close>

lemma py_int_str_int: "py_int (str_int i) = Some i"
proof (cases "i < 0")
  case True
  then show ?thesis
    by (simp add: str_int_def py_int_def py_nat_str_nat)
next
  case False
  obtain c cs where s: "str_nat (nat i) = c # cs" and c: "c \<in> set ''0123456789''"
    using str_nat_Cons by blast
  from c have "c \<noteq> CHR ''-''" "c \<noteq> CHR ''+''" by auto
  with False s py_nat_str_nat [of "nat i"] show ?thesis
    by (simp add: str_int_def py_int_def)
qed

lemma str_int_inject: "str_int i = str_int j \<longleftrightarrow> i = j"
  by (metis py_int_str_int option.inject)

lemma str_int_nonneg: "0 \<le> i \<Longrightarrow> str_int i = str_nat (nat i)"
  by (simp add: str_int_def)

lemma newline_notin_str_nat: "CHR ''\<newline>'' \<notin> set (str_nat n)"
proof
  assume "CHR ''\<newline>'' \<in> set (str_nat n)"
  then have "CHR ''\<newline>'' \<in> set ''0123456789''"
    using str_nat_digits [of n] by (rule set_mp [rotated])
  then show False by simp
qed

lemma newline_notin_str_int: "CHR ''\<newline>'' \<notin> set (str_int i)"
  by (simp add: str_int_def newline_notin_str_nat)

lemma str_int_not_Nil: "str_int i \<noteq> []"
  by (simp add: str_int_def str_nat_not_Nil)

section \<open>Lines and labels of emitted text\<close>

lemma asm_lines_append_line:
  "CHR ''\<newline>'' \<notin> set l \<Longrightarrow>
   asm_lines (l @ rest) =
     (case asm_lines rest of [] \<Rightarrow> (if l = [] then [] else [l]) | x # xs \<Rightarrow> (l @ x) # xs)"
  by (induction l) (auto split: list.splits)

lemma asm_lines_line:
  "CHR ''\<newline>'' \<notin> set l \<Longrightarrow> asm_lines (l @ CHR ''\<newline>'' # rest) = l # asm_lines rest"
  by (simp add: asm_lines_append_line)

lemma asm_lines_eq_Nil: "asm_lines a = [] \<longleftrightarrow> a = []"
  by (cases a) (auto split: list.splits)

lemma asm_lines_append:
  "nl_terminated a \<Longrightarrow> asm_lines (a @ b) = asm_lines a @ asm_lines b"
proof (induction a)
  case Nil
  show ?case by simp
next
  case (Cons c a)
  show ?case
  proof (cases "a = []")
    case True
    with Cons.prems show ?thesis by (simp add: nl_terminated_def)
  next
    case False
    with Cons.prems have "nl_terminated a" by (simp add: nl_terminated_def)
    from Cons.IH [OF this] False show ?thesis
      by (cases "asm_lines a") (simp_all add: asm_lines_eq_Nil)
  qed
qed

lemma declared_labels_append:
  "nl_terminated a \<Longrightarrow> declared_labels (a @ b) = declared_labels a @ declared_labels b"
  by (simp add: declared_labels_def asm_lines_append List.map_filter_def)

lemma nl_terminated_append:
  "nl_terminated b \<Longrightarrow> b \<noteq> [] \<Longrightarrow> nl_terminated (a @ b)"
  by (simp add: nl_terminated_def)

lemma emitted_file_write [simp]: "emitted w (file_write t w) = t"
  by (simp add: emitted_def file_write_def)

lemma emitted_file_write_count [simp]:
  "emitted w (file_write t (w\<lparr>label_count := k\<rparr>)) = t"
  by (simp add: emitted_def file_write_def)

section \<open>Parsing emitted lines\<close>

lemma parse_line_at: "parse_line (CHR ''@'' # r) = parse_A r"
  by (simp add: parse_line_def)

lemma line_label_paren:
  "line_label (CHR ''('' # r) = (if r \<noteq> [] \<and> last r = CHR '')'' then Some (butlast r) else None)"
  by (simp add: line_label_def)

lemma line_label_other: "c \<noteq> CHR ''('' \<Longrightarrow> line_label (c # r) = None"
  by (simp add: line_label_def)

lemma parse_line_paren:
  "parse_line (CHR ''('' # r) =
     (if r \<noteq> [] \<and> last r = CHR '')'' \<and> valid_symbol (butlast r)
        then Some (Label (butlast r)) else None)"
  by (simp add: parse_line_def line_label_paren)

lemma parse_line_comment: "parse_line (CHR ''/'' # CHR ''/'' # r) = Some Blank"
  by (simp add: parse_line_def)

lemma valid_symbol_Cons:
  "valid_symbol (c # cs) \<longleftrightarrow> digit_val c = None \<and> c \<in> symbol_chars \<and> set cs \<subseteq> symbol_chars"
  by (simp add: valid_symbol_def)

lemma parse_A_symbol: "valid_symbol x \<Longrightarrow> parse_A x = Some (A_instr (ASym x))"
  by (cases x) (auto simp: parse_A_def valid_symbol_def)

lemma symbol_chars_iff:
  "c \<in> symbol_chars \<longleftrightarrow>
   c \<in> set ''abcdefghijklmnopqrstuvwxyzABCDEFGHIJKLMNOPQRSTUVWXYZ0123456789_.$:''"
  by (simp only: symbol_chars_def)

lemma digits_symbol_chars: "set ''0123456789'' \<subseteq> symbol_chars"
  by (simp add: symbol_chars_def)

lemma set_str_int_symbol: "0 \<le> k \<Longrightarrow> set (str_int k) \<subseteq> symbol_chars"
  using subset_trans [OF str_nat_digits [of "nat k"] digits_symbol_chars]
  by (simp only: str_int_nonneg)

lemma newline_notin_symbol_chars: "CHR ''\<newline>'' \<notin> symbol_chars"
  by (simp add: symbol_chars_def)

lemma valid_symbol_newline: "valid_symbol x \<Longrightarrow> CHR ''\<newline>'' \<notin> set x"
proof -
  assume "valid_symbol x"
  then have "set x \<subseteq> symbol_chars" by (cases x) (simp_all add: valid_symbol_def)
  with newline_notin_symbol_chars show ?thesis by blast
qed

lemma parse_A_number:
  assumes "0 \<le> i" and "i < 32768"
  shows "parse_A (str_int i) = Some (A_instr (ANum (word_of_int i)))"
proof -
  obtain c cs where s: "str_nat (nat i) = c # cs" and c: "c \<in> set ''0123456789''"
    using str_nat_Cons by blast
  have "dec_digits (str_nat (nat i)) 0 = Some (nat i)" by (rule dec_digits_str_nat)
  moreover have "(of_nat (nat i) :: 16 word) = word_of_int i"
    using assms by simp
  ultimately show ?thesis
    using assms s digit_val_of_digit [OF c]
    by (simp add: parse_A_def str_int_nonneg)
qed

lemma parse_C_known:
  "parse_line ''D=M'' = Some (C_instr (Dest False True False) (Reg RM) None)"
  "parse_line ''D=A'' = Some (C_instr (Dest False True False) (Reg RA) None)"
  "parse_line ''A=M'' = Some (C_instr (Dest True False False) (Reg RM) None)"
  "parse_line ''M=D'' = Some (C_instr (Dest False False True) (Reg RD) None)"
  "parse_line ''M=M+1'' = Some (C_instr (Dest False False True) (Inc RM) None)"
  "parse_line ''AM=M-1'' = Some (C_instr (Dest True False True) (Dec RM) None)"
  "parse_line ''A=A-1'' = Some (C_instr (Dest True False False) (Dec RA) None)"
  "parse_line ''A=M-1'' = Some (C_instr (Dest True False False) (Dec RM) None)"
  "parse_line ''M=M+D'' = Some (C_instr (Dest False False True) (Add RM RD) None)"
  "parse_line ''M=M-D'' = Some (C_instr (Dest False False True) (Sub RM RD) None)"
  "parse_line ''M=M&D'' = Some (C_instr (Dest False False True) (And RM RD) None)"
  "parse_line ''M=M|D'' = Some (C_instr (Dest False False True) (Or RM RD) None)"
  "parse_line ''M=-M'' = Some (C_instr (Dest False False True) (Neg RM) None)"
  "parse_line ''M=!M'' = Some (C_instr (Dest False False True) (Not RM) None)"
  "parse_line ''D=M-D'' = Some (C_instr (Dest False True False) (Sub RM RD) None)"
  "parse_line ''D=M+D'' = Some (C_instr (Dest False True False) (Add RM RD) None)"
  "parse_line ''D=D+A'' = Some (C_instr (Dest False True False) (Add RD RA) None)"
  "parse_line ''A=D+A'' = Some (C_instr (Dest True False False) (Add RD RA) None)"
  "parse_line ''M=0'' = Some (C_instr (Dest False False True) (Lit 0) None)"
  "parse_line ''M=-1'' = Some (C_instr (Dest False False True) (Lit (- 1)) None)"
  "parse_line ''D;JEQ'' = Some (C_instr (Dest False False False) (Reg RD) (Some JEQ))"
  "parse_line ''D;JGT'' = Some (C_instr (Dest False False False) (Reg RD) (Some JGT))"
  "parse_line ''D;JLT'' = Some (C_instr (Dest False False False) (Reg RD) (Some JLT))"
  "parse_line ''0;JMP'' = Some (C_instr (Dest False False False) (Lit 0) (Some JMP))"
  by (simp_all add: parse_line_def parse_C_def dest_table_def comp_table_def jump_table_def)

lemma parse_A_known:
  "parse_A ''5'' = Some (A_instr (ANum 5))"
  "parse_A ''256'' = Some (A_instr (ANum 256))"
  by (simp_all add: parse_A_def digit_val_def)

lemma valid_symbol_known:
  "valid_symbol ''SP''" "valid_symbol ''LCL''" "valid_symbol ''ARG''" "valid_symbol ''THIS''"
  "valid_symbol ''THAT''" "valid_symbol ''R13''" "valid_symbol ''Sys.init''"
  by (simp_all add: valid_symbol_Cons symbol_chars_iff digit_val_def)

lemmas parse_simps =
  parse_asm_def asm_lines_append_line newline_notin_str_int valid_symbol_newline
  parse_line_at parse_line_paren parse_line_comment parse_C_known parse_A_known
  parse_A_number parse_A_symbol valid_symbol_known

lemma predefined_okD:
  assumes "predefined_ok env"
  shows "env ''SP'' = 0" "env ''LCL'' = 1" "env ''ARG'' = 2" "env ''THIS'' = 3" "env ''THAT'' = 4"
    "env ''R13'' = 13"
  using assms by (simp_all add: predefined_ok_def predefined_symbols_def)

section \<open>Running loaded code\<close>

lemma run_numeral:
  "run env b prog (numeral k) s =
     (if pc s = b + length prog then Some s
      else if b \<le> pc s \<and> pc s < b + length prog
        then run env b prog (pred_numeral k) (step env (prog ! (pc s - b)) s)
      else None)"
  by (simp add: numeral_eq_Suc)

lemma steps_numeral:
  "steps env b prog (numeral k) s =
     (if b \<le> pc s \<and> pc s < b + length prog
        then steps env b prog (pred_numeral k) (step env (prog ! (pc s - b)) s)
      else None)"
  by (simp add: numeral_eq_Suc)

lemma run_more_fuel: "run env b prog n s = Some s' \<Longrightarrow> run env b prog (n + k) s = Some s'"
proof (induction n arbitrary: s)
  case 0
  then show ?case by (cases k) (auto split: if_splits)
next
  case (Suc n)
  then show ?case by (auto split: if_splits)
qed

lemma run_fuel_le:
  "run env b prog n s = Some s' \<Longrightarrow> n \<le> m \<Longrightarrow> run env b prog m s = Some s'"
  using run_more_fuel [of env b prog n s s' "m - n"] by simp

section \<open>Executing the shapes of emitted code\<close>

lemmas exec_simps = exec_asm_def exec_steps_def code_of_def run_numeral steps_numeral Let_def

lemma exec_push_value:
  assumes pa [simp]: "parse_A x = Some (A_instr a)" and nl [simp]: "CHR ''\<newline>'' \<notin> set x"
    and env: "predefined_ok env" and sp: "ram s 0 \<noteq> 0"
  shows "\<exists>s'. exec_asm env (''@'' @ x @ ''\<newline>D=A\<newline>'' @ ''@SP\<newline>A=M\<newline>M=D\<newline>@SP\<newline>M=M+1\<newline>'') 7 s = Some s'
           \<and> ram s' = (ram s)(ram s 0 := operand_val env a, 0 := ram s 0 + 1)
           \<and> pc s' = pc s + 7"
  using sp by (simp add: exec_simps parse_simps predefined_okD [OF env])

lemma exec_push_direct:
  assumes pa [simp]: "parse_A x = Some (A_instr a)" and nl [simp]: "CHR ''\<newline>'' \<notin> set x"
    and env: "predefined_ok env" and sp: "ram s 0 \<noteq> 0"
  shows "\<exists>s'. exec_asm env (''@'' @ x @ ''\<newline>D=M\<newline>'' @ ''@SP\<newline>A=M\<newline>M=D\<newline>@SP\<newline>M=M+1\<newline>'') 7 s = Some s'
           \<and> ram s' = (ram s)(ram s 0 := ram s (operand_val env a), 0 := ram s 0 + 1)
           \<and> pc s' = pc s + 7"
  using sp by (simp add: exec_simps parse_simps predefined_okD [OF env])

lemma exec_push_indirect:
  assumes pr [simp]: "parse_A r = Some (A_instr b)" and nlr [simp]: "CHR ''\<newline>'' \<notin> set r"
    and pa [simp]: "parse_A x = Some (A_instr a)" and nl [simp]: "CHR ''\<newline>'' \<notin> set x"
    and env: "predefined_ok env" and sp: "ram s 0 \<noteq> 0"
  shows "\<exists>s'. exec_asm env (''@'' @ r @ ''\<newline>D=M\<newline>@'' @ x @ ''\<newline>A=D+A\<newline>D=M\<newline>'' @ ''@SP\<newline>A=M\<newline>M=D\<newline>@SP\<newline>M=M+1\<newline>'') 10 s = Some s'
           \<and> ram s' = (ram s)(ram s 0 := ram s (ram s (operand_val env b) + operand_val env a), 0 := ram s 0 + 1)
           \<and> pc s' = pc s + 10"
  using sp by (simp add: exec_simps parse_simps predefined_okD [OF env])

lemma exec_pop_direct:
  assumes pa [simp]: "parse_A x = Some (A_instr a)" and nl [simp]: "CHR ''\<newline>'' \<notin> set x"
    and env: "predefined_ok env" and sp: "ram s 0 = sp" "sp - 1 \<noteq> 0"
  shows "\<exists>s'. exec_asm env (''@SP\<newline>AM=M-1\<newline>D=M\<newline>'' @ ''@'' @ x @ ''\<newline>M=D\<newline>'') 5 s = Some s'
           \<and> ram s' = (ram s)(0 := sp - 1, operand_val env a := ram s (sp - 1))
           \<and> pc s' = pc s + 5"
  using sp by (simp add: exec_simps parse_simps predefined_okD [OF env])

lemma exec_pop_indirect_vmt:
  assumes pr [simp]: "parse_A r = Some (A_instr b)" and nlr [simp]: "CHR ''\<newline>'' \<notin> set r"
    and pa [simp]: "parse_A x = Some (A_instr a)" and nl [simp]: "CHR ''\<newline>'' \<notin> set x"
    and env: "predefined_ok env" and sp: "ram s 0 = sp" "sp - 1 \<noteq> 0" "sp - 1 \<noteq> 13"
  shows "\<exists>s'. exec_asm env (''@'' @ x @ ''\<newline>D=A\<newline>'' @ ''@'' @ r @ ''\<newline>D=M+D\<newline>@R13\<newline>M=D\<newline>'' @ ''@SP\<newline>AM=M-1\<newline>D=M\<newline>@R13\<newline>A=M\<newline>M=D\<newline>'') 12 s = Some s'
           \<and> ram s' = (ram s)(13 := ram s (operand_val env b) + operand_val env a, 0 := sp - 1,
                  ram s (operand_val env b) + operand_val env a := ram s (sp - 1))
           \<and> pc s' = pc s + 12"
  using sp by (simp add: exec_simps parse_simps predefined_okD [OF env])

lemma exec_pop_indirect_main:
  assumes pr [simp]: "parse_A r = Some (A_instr b)" and nlr [simp]: "CHR ''\<newline>'' \<notin> set r"
    and pa [simp]: "parse_A x = Some (A_instr a)" and nl [simp]: "CHR ''\<newline>'' \<notin> set x"
    and env: "predefined_ok env" and sp: "ram s 0 = sp" "sp - 1 \<noteq> 0" "sp - 1 \<noteq> 13"
  shows "\<exists>s'. exec_asm env (''@'' @ r @ ''\<newline>D=M\<newline>@'' @ x @ ''\<newline>D=D+A\<newline>@R13\<newline>M=D\<newline>@SP\<newline>AM=M-1\<newline>D=M\<newline>@R13\<newline>A=M\<newline>M=D\<newline>'') 12 s = Some s'
           \<and> ram s' = (ram s)(13 := ram s (operand_val env b) + operand_val env a, 0 := sp - 1,
                  ram s (operand_val env b) + operand_val env a := ram s (sp - 1))
           \<and> pc s' = pc s + 12"
  using sp by (simp add: exec_simps parse_simps predefined_okD [OF env])

lemma exec_binary:
  assumes pl [simp]: "parse_line (CHR ''M'' # CHR ''='' # CHR ''M'' # (op @ ''D''))
                        = Some (C_instr (Dest False False True) c None)"
    and nl [simp]: "CHR ''\<newline>'' \<notin> set op"
    and env: "predefined_ok env" and sp: "ram s 0 = sp" "sp - 1 \<noteq> 0" "sp - 2 \<noteq> 0"
  shows "\<exists>s'. exec_asm env (''@SP\<newline>AM=M-1\<newline>D=M\<newline>A=A-1\<newline>M=M'' @ op @ ''D\<newline>'') 5 s = Some s'
           \<and> ram s' 0 = sp - 1 \<and> pc s' = pc s + 5
           \<and> (\<forall>a. a \<noteq> 0 \<and> a \<noteq> sp - 2 \<longrightarrow> ram s' a = ram s a)"
  using sp by (simp add: exec_simps parse_simps predefined_okD [OF env])

lemma exec_unary:
  assumes pl [simp]: "parse_line (CHR ''M'' # CHR ''='' # (op @ ''M''))
                        = Some (C_instr (Dest False False True) c None)"
    and nl [simp]: "CHR ''\<newline>'' \<notin> set op"
    and env: "predefined_ok env" and sp: "ram s 0 = sp" "sp - 1 \<noteq> 0"
  shows "\<exists>s'. exec_asm env (''@SP\<newline>A=M-1\<newline>M='' @ op @ ''M\<newline>'') 3 s = Some s'
           \<and> ram s' 0 = sp \<and> pc s' = pc s + 3
           \<and> (\<forall>a. a \<noteq> sp - 1 \<longrightarrow> ram s' a = ram s a)"
  using sp by (simp add: exec_simps parse_simps predefined_okD [OF env])

lemma parse_compare:
  assumes vt [simp]: "valid_symbol lt" and ve [simp]: "valid_symbol le"
    and pj [simp]: "parse_line (CHR ''D'' # CHR '';'' # j)
                        = Some (C_instr (Dest False False False) (Reg RD) (Some jm))"
    and nl [simp]: "CHR ''\<newline>'' \<notin> set j"
  shows "parse_asm (compare_asm lt le j) = Some
     [A_instr (ASym ''SP''), C_instr (Dest True False True) (Dec RM) None,
      C_instr (Dest False True False) (Reg RM) None, C_instr (Dest True False False) (Dec RA) None,
      C_instr (Dest False True False) (Sub RM RD) None,
      A_instr (ASym lt), C_instr (Dest False False False) (Reg RD) (Some jm),
      A_instr (ASym ''SP''), C_instr (Dest True False False) (Dec RM) None,
      C_instr (Dest False False True) (Lit 0) None,
      A_instr (ASym le), C_instr (Dest False False False) (Lit 0) (Some JMP),
      Label lt,
      A_instr (ASym ''SP''), C_instr (Dest True False False) (Dec RM) None,
      C_instr (Dest False False True) (Lit (- 1)) None,
      Label le]"
  by (simp add: compare_asm_def parse_simps)

lemma text_labels_compare:
  assumes vt: "valid_symbol lt" and ve: "valid_symbol le"
    and pj: "parse_line (CHR ''D'' # CHR '';'' # j)
                        = Some (C_instr (Dest False False False) (Reg RD) (Some jm))"
    and nl: "CHR ''\<newline>'' \<notin> set j"
  shows "text_labels (compare_asm lt le j) = [(lt, 12), (le, 15)]"
  by (simp add: text_labels_def parse_compare [OF assms])

lemma exec_compare:
  assumes vt: "valid_symbol lt" and ve: "valid_symbol le"
    and pj: "parse_line (CHR ''D'' # CHR '';'' # j)
                        = Some (C_instr (Dest False False False) (Reg RD) (Some jm))"
    and nl: "CHR ''\<newline>'' \<notin> set j"
    and env: "predefined_ok env"
    and lt: "unat (env lt) = pc s + 12" and le: "unat (env le) = pc s + 15"
    and sp: "ram s 0 = sp" "sp - 1 \<noteq> 0" "sp - 2 \<noteq> 0"
  shows "\<exists>s'. exec_asm env (compare_asm lt le j) 12 s = Some s'
           \<and> ram s' = (ram s)(0 := sp - 1,
                 sp - 2 := (if jump_taken (Some jm) (ram s (sp - 2) - ram s (sp - 1)) then - 1 else 0))
           \<and> pc s' = pc s + 15"
  using sp lt le
  by (cases "jump_taken (Some jm) (ram s (sp - 2) - ram s (sp - 1))")
     (simp_all add: exec_asm_def code_of_def run_numeral Let_def parse_compare [OF vt ve pj nl]
        predefined_okD [OF env])

lemma word_neq_less: "unat j < unat sp \<Longrightarrow> (sp = j) = False" for sp :: "16 word"
  by auto

lemma word_neq_less': "unat j < unat sp \<Longrightarrow> (j = sp) = False" for sp :: "16 word"
  by auto

lemma word_plus_neq:
  fixes sp :: "16 word"
  assumes "unat j < unat sp" and "unat sp + unat k < 65536"
  shows "(sp + k = j) = False"
proof -
  from assms(2) have "unat (sp + k) = unat sp + unat k"
    by (simp add: unat_add_lem [THEN iffD1])
  with assms(1) have "unat (sp + k) \<noteq> unat j" by simp
  then show ?thesis by auto
qed

lemma word_plus_neq':
  fixes sp :: "16 word"
  assumes "unat j < unat sp" and "unat sp + unat k < 65536"
  shows "(j = sp + k) = False"
  using word_plus_neq [OF assms] by auto

lemma word_plus_neq2:
  fixes sp :: "16 word"
  assumes "unat j < unat sp" and "unat sp + unat k < 65536"
  shows "(k + sp = j) = False" "(j = k + sp) = False"
  using word_plus_neq [OF assms] by (auto simp: add.commute)

lemmas word_neq_simps = word_neq_less word_neq_less' word_plus_neq word_plus_neq' word_plus_neq2

lemma stack_top_distinct:
  fixes sp :: "16 word"
  assumes "256 \<le> unat sp"
  shows "sp \<noteq> 0" "sp - 1 \<noteq> 0" "sp - 2 \<noteq> 0" "sp - 1 \<noteq> 13"
  using assms by (simp_all add: word_neq_simps)

lemma parse_lines_append:
  "parse_lines (xs @ ys) =
     (case parse_lines xs of
        None \<Rightarrow> None
      | Some x \<Rightarrow> (case parse_lines ys of None \<Rightarrow> None | Some y \<Rightarrow> Some (x @ y)))"
  by (induction xs) (auto split: option.splits)

lemma parse_asm_append_Some:
  "nl_terminated a \<Longrightarrow> parse_asm a = Some x \<Longrightarrow> parse_asm b = Some y \<Longrightarrow>
   parse_asm (a @ b) = Some (x @ y)"
  by (simp add: parse_asm_def asm_lines_append parse_lines_append)

lemma parse_call:
  assumes vf [simp]: "valid_symbol f" and vr [simp]: "valid_symbol rl"
    and pn [simp]: "parse_A n = Some (A_instr a)" and nl [simp]: "CHR ''\<newline>'' \<notin> set n"
  shows "parse_asm (call_asm f n rl) = Some (call_code f a rl)"
  unfolding call_asm_def call_code_def
  by (intro parse_asm_append_Some)
     (simp_all add: parse_simps push_D_asm_def nl_terminated_def)

lemma exec_call:
  assumes vf: "valid_symbol f" and vr: "valid_symbol rl"
    and pn: "parse_A n = Some (A_instr a)" and nl: "CHR ''\<newline>'' \<notin> set n"
    and env: "predefined_ok env"
    and sp: "ram s 0 = sp" "5 \<le> unat sp" "unat sp + 5 < 65536"
  shows "\<exists>s'. exec_steps env (call_asm f n rl) 49 s = Some s'
           \<and> ram s' sp = env rl \<and> ram s' (sp + 1) = ram s 1 \<and> ram s' (sp + 2) = ram s 2
           \<and> ram s' (sp + 3) = ram s 3 \<and> ram s' (sp + 4) = ram s 4
           \<and> ram s' 0 = sp + 5
           \<and> ram s' 2 = (sp + 5) - (operand_val env a + 5)
           \<and> ram s' 1 = sp + 5
           \<and> pc s' = unat (env f)
           \<and> (\<forall>c. c \<notin> {0, 1, 2, sp, sp + 1, sp + 2, sp + 3, sp + 4} \<longrightarrow> ram s' c = ram s c)"
  using sp
  by (simp add: exec_steps_def parse_call [OF vf vr pn nl] call_code_def code_of_def steps_numeral
      Let_def predefined_okD [OF env] word_neq_simps)

lemma exec_asm_fuel:
  "exec_asm env t n s = Some s' \<Longrightarrow> n \<le> m \<Longrightarrow> exec_asm env t m s = Some s'"
  by (auto simp: exec_asm_def split: option.splits intro: run_fuel_le)

lemma exec_asm_fuel_ex:
  "\<exists>s'. exec_asm env t n s = Some s' \<and> P s' \<Longrightarrow> n \<le> m \<Longrightarrow>
   \<exists>s'. exec_asm env t m s = Some s' \<and> P s'"
  using exec_asm_fuel by blast

lemma vmt_writePush_segments:
  "vmt_writePush seg i w = Inr w' \<Longrightarrow>
   seg = ''constant'' \<or> seg = ''local'' \<or> seg = ''argument'' \<or> seg = ''this'' \<or> seg = ''that''
   \<or> seg = ''temp'' \<or> seg = ''pointer'' \<or> seg = ''static''"
  by (simp add: vmt_writePush_def Let_def split: if_splits)

lemma vmt_writePush_text:
  "vmt_writePush ''constant'' i w = Inr (file_write (''@'' @ str_int i @ ''\<newline>D=A\<newline>'' @ ''@SP\<newline>A=M\<newline>M=D\<newline>@SP\<newline>M=M+1\<newline>'') w)"
  "vmt_writePush ''local'' i w = Inr (file_write (''@'' @ ''LCL'' @ ''\<newline>D=M\<newline>@'' @ str_int i @ ''\<newline>A=D+A\<newline>D=M\<newline>'' @ ''@SP\<newline>A=M\<newline>M=D\<newline>@SP\<newline>M=M+1\<newline>'') w)"
  "vmt_writePush ''argument'' i w = Inr (file_write (''@'' @ ''ARG'' @ ''\<newline>D=M\<newline>@'' @ str_int i @ ''\<newline>A=D+A\<newline>D=M\<newline>'' @ ''@SP\<newline>A=M\<newline>M=D\<newline>@SP\<newline>M=M+1\<newline>'') w)"
  "vmt_writePush ''this'' i w = Inr (file_write (''@'' @ ''THIS'' @ ''\<newline>D=M\<newline>@'' @ str_int i @ ''\<newline>A=D+A\<newline>D=M\<newline>'' @ ''@SP\<newline>A=M\<newline>M=D\<newline>@SP\<newline>M=M+1\<newline>'') w)"
  "vmt_writePush ''that'' i w = Inr (file_write (''@'' @ ''THAT'' @ ''\<newline>D=M\<newline>@'' @ str_int i @ ''\<newline>A=D+A\<newline>D=M\<newline>'' @ ''@SP\<newline>A=M\<newline>M=D\<newline>@SP\<newline>M=M+1\<newline>'') w)"
  "vmt_writePush ''temp'' i w = Inr (file_write (''@'' @ str_int (5 + i) @ ''\<newline>D=M\<newline>'' @ ''@SP\<newline>A=M\<newline>M=D\<newline>@SP\<newline>M=M+1\<newline>'') w)"
  "vmt_writePush ''pointer'' i w = Inr (file_write (''@'' @ (if i = 0 then ''THIS'' else ''THAT'') @ ''\<newline>D=M\<newline>'' @ ''@SP\<newline>A=M\<newline>M=D\<newline>@SP\<newline>M=M+1\<newline>'') w)"
  "vmt_writePush ''static'' i w = Inr (file_write (''@'' @ (''Static.'' @ str_int i) @ ''\<newline>D=M\<newline>'' @ ''@SP\<newline>A=M\<newline>M=D\<newline>@SP\<newline>M=M+1\<newline>'') w)"
  by (simp_all add: vmt_writePush_def)

lemma vmt_cell_simps:
  "vmt_cell env s ''constant'' i = None"
  "vmt_cell env s ''local'' i = Some (ram s 1 + word_of_int i)"
  "vmt_cell env s ''argument'' i = Some (ram s 2 + word_of_int i)"
  "vmt_cell env s ''this'' i = Some (ram s 3 + word_of_int i)"
  "vmt_cell env s ''that'' i = Some (ram s 4 + word_of_int i)"
  "vmt_cell env s ''temp'' i = Some (word_of_int (5 + i))"
  "vmt_cell env s ''pointer'' i = Some (if i = 0 then 3 else 4)"
  "vmt_cell env s ''static'' i = Some (env (''Static.'' @ str_int i))"
  by (simp_all add: vmt_cell_def claimed_cell_def fixed_base_def base_register_def)

lemma valid_symbol_static: "0 \<le> i \<Longrightarrow> valid_symbol (''Static.'' @ str_int i)"
  by (simp add: valid_symbol_Cons symbol_chars_iff digit_val_def set_str_int_symbol)

lemma vmt_push_exec:
  assumes w: "vmt_writePush seg i w = Inr w'"
    and i: "0 \<le> i" "(if seg = ''temp'' then 5 + i else i) < 32768"
    and env: "predefined_ok env" and sp: "ram s 0 \<noteq> 0"
  shows "\<exists>s'. exec_asm env (emitted w w') 10 s = Some s'
           \<and> ram s' = (ram s)(ram s 0 := (case vmt_cell env s seg i of
                                              Some c \<Rightarrow> ram s c | None \<Rightarrow> word_of_int i),
                              0 := ram s 0 + 1)"
proof -
  note pd = predefined_okD [OF env]
  have num: "parse_A (str_int i) = Some (A_instr (ANum (word_of_int i)))" if "seg \<noteq> ''temp''"
    using that i by (simp add: parse_A_number)
  have nl: "CHR ''\<newline>'' \<notin> set (str_int k)" for k by (rule newline_notin_str_int)
  from vmt_writePush_segments [OF w] show ?thesis
  proof (elim disjE)
    assume c1: "seg = ''constant''"
    with w have w': "w' = file_write (''@'' @ str_int i @ ''\<newline>D=A\<newline>'' @ ''@SP\<newline>A=M\<newline>M=D\<newline>@SP\<newline>M=M+1\<newline>'') w"
      by (simp only: vmt_writePush_text sum.inject)
    from c1 have "seg \<noteq> ''temp''" by simp
    from exec_asm_fuel_ex [OF exec_push_value [OF num [OF this] nl env sp], of 10] c1
    show ?thesis unfolding w' by (clarsimp simp add: vmt_cell_simps)
  next
    assume c2: "seg = ''local''"
    with w have w': "w' = file_write (''@'' @ ''LCL'' @ ''\<newline>D=M\<newline>@'' @ str_int i @ ''\<newline>A=D+A\<newline>D=M\<newline>'' @ ''@SP\<newline>A=M\<newline>M=D\<newline>@SP\<newline>M=M+1\<newline>'') w"
      by (simp only: vmt_writePush_text sum.inject)
    from c2 have nt: "seg \<noteq> ''temp''" by simp
    have r: "parse_A ''LCL'' = Some (A_instr (ASym ''LCL''))" "CHR ''\<newline>'' \<notin> set ''LCL''"
      by (simp_all add: parse_A_symbol valid_symbol_known)
    from exec_push_indirect [OF r num [OF nt] nl env sp] c2
    show ?thesis unfolding w' by (clarsimp simp add: vmt_cell_simps pd)
  next
    assume c3: "seg = ''argument''"
    with w have w': "w' = file_write (''@'' @ ''ARG'' @ ''\<newline>D=M\<newline>@'' @ str_int i @ ''\<newline>A=D+A\<newline>D=M\<newline>'' @ ''@SP\<newline>A=M\<newline>M=D\<newline>@SP\<newline>M=M+1\<newline>'') w"
      by (simp only: vmt_writePush_text sum.inject)
    from c3 have nt: "seg \<noteq> ''temp''" by simp
    have r: "parse_A ''ARG'' = Some (A_instr (ASym ''ARG''))" "CHR ''\<newline>'' \<notin> set ''ARG''"
      by (simp_all add: parse_A_symbol valid_symbol_known)
    from exec_push_indirect [OF r num [OF nt] nl env sp] c3
    show ?thesis unfolding w' by (clarsimp simp add: vmt_cell_simps pd)
  next
    assume c4: "seg = ''this''"
    with w have w': "w' = file_write (''@'' @ ''THIS'' @ ''\<newline>D=M\<newline>@'' @ str_int i @ ''\<newline>A=D+A\<newline>D=M\<newline>'' @ ''@SP\<newline>A=M\<newline>M=D\<newline>@SP\<newline>M=M+1\<newline>'') w"
      by (simp only: vmt_writePush_text sum.inject)
    from c4 have nt: "seg \<noteq> ''temp''" by simp
    have r: "parse_A ''THIS'' = Some (A_instr (ASym ''THIS''))" "CHR ''\<newline>'' \<notin> set ''THIS''"
      by (simp_all add: parse_A_symbol valid_symbol_known)
    from exec_push_indirect [OF r num [OF nt] nl env sp] c4
    show ?thesis unfolding w' by (clarsimp simp add: vmt_cell_simps pd)
  next
    assume c5: "seg = ''that''"
    with w have w': "w' = file_write (''@'' @ ''THAT'' @ ''\<newline>D=M\<newline>@'' @ str_int i @ ''\<newline>A=D+A\<newline>D=M\<newline>'' @ ''@SP\<newline>A=M\<newline>M=D\<newline>@SP\<newline>M=M+1\<newline>'') w"
      by (simp only: vmt_writePush_text sum.inject)
    from c5 have nt: "seg \<noteq> ''temp''" by simp
    have r: "parse_A ''THAT'' = Some (A_instr (ASym ''THAT''))" "CHR ''\<newline>'' \<notin> set ''THAT''"
      by (simp_all add: parse_A_symbol valid_symbol_known)
    from exec_push_indirect [OF r num [OF nt] nl env sp] c5
    show ?thesis unfolding w' by (clarsimp simp add: vmt_cell_simps pd)
  next
    assume c6: "seg = ''temp''"
    with w have w': "w' = file_write (''@'' @ str_int (5 + i) @ ''\<newline>D=M\<newline>'' @ ''@SP\<newline>A=M\<newline>M=D\<newline>@SP\<newline>M=M+1\<newline>'') w"
      by (simp only: vmt_writePush_text sum.inject)
    from c6 i have n5: "parse_A (str_int (5 + i)) = Some (A_instr (ANum (word_of_int (5 + i))))"
      by (simp add: parse_A_number)
    from exec_asm_fuel_ex [OF exec_push_direct [OF n5 nl env sp], of 10] c6
    show ?thesis unfolding w' by (clarsimp simp add: vmt_cell_simps)
  next
    assume c7: "seg = ''pointer''"
    with w have w': "w' = file_write (''@'' @ (if i = 0 then ''THIS'' else ''THAT'') @ ''\<newline>D=M\<newline>'' @ ''@SP\<newline>A=M\<newline>M=D\<newline>@SP\<newline>M=M+1\<newline>'') w"
      by (simp only: vmt_writePush_text sum.inject)
    have r: "parse_A (if i = 0 then ''THIS'' else ''THAT'')
               = Some (A_instr (ASym (if i = 0 then ''THIS'' else ''THAT'')))"
      "CHR ''\<newline>'' \<notin> set (if i = 0 then ''THIS'' else ''THAT'')"
      by (simp_all add: parse_A_symbol valid_symbol_known)
    from exec_asm_fuel_ex [OF exec_push_direct [OF r env sp], of 10] c7
    show ?thesis unfolding w' by (cases "i = 0") (clarsimp simp add: vmt_cell_simps pd)+
  next
    assume c8: "seg = ''static''"
    with w have w': "w' = file_write (''@'' @ (''Static.'' @ str_int i) @ ''\<newline>D=M\<newline>'' @ ''@SP\<newline>A=M\<newline>M=D\<newline>@SP\<newline>M=M+1\<newline>'') w"
      by (simp only: vmt_writePush_text sum.inject)
    have r: "parse_A (''Static.'' @ str_int i) = Some (A_instr (ASym (''Static.'' @ str_int i)))"
      "CHR ''\<newline>'' \<notin> set (''Static.'' @ str_int i)"
      by (rule parse_A_symbol [OF valid_symbol_static [OF i(1)]])
        (rule valid_symbol_newline [OF valid_symbol_static [OF i(1)]])
    from exec_asm_fuel_ex [OF exec_push_direct [OF r env sp], of 10] c8
    show ?thesis unfolding w' by (clarsimp simp add: vmt_cell_simps)
  qed
qed

lemma vmt_writePop_segments:
  "vmt_writePop seg i w = Inr w' \<Longrightarrow>
   seg = ''local'' \<or> seg = ''argument'' \<or> seg = ''this'' \<or> seg = ''that''
   \<or> seg = ''temp'' \<or> seg = ''pointer'' \<or> seg = ''static''"
  by (simp add: vmt_writePop_def Let_def split: if_splits)

lemma vmt_writePop_text:
  "vmt_writePop ''local'' i w = Inr (file_write (''@'' @ str_int i @ ''\<newline>D=A\<newline>'' @ ''@'' @ ''LCL'' @ ''\<newline>D=M+D\<newline>@R13\<newline>M=D\<newline>'' @ ''@SP\<newline>AM=M-1\<newline>D=M\<newline>@R13\<newline>A=M\<newline>M=D\<newline>'') w)"
  "vmt_writePop ''argument'' i w = Inr (file_write (''@'' @ str_int i @ ''\<newline>D=A\<newline>'' @ ''@'' @ ''ARG'' @ ''\<newline>D=M+D\<newline>@R13\<newline>M=D\<newline>'' @ ''@SP\<newline>AM=M-1\<newline>D=M\<newline>@R13\<newline>A=M\<newline>M=D\<newline>'') w)"
  "vmt_writePop ''this'' i w = Inr (file_write (''@'' @ str_int i @ ''\<newline>D=A\<newline>'' @ ''@'' @ ''THIS'' @ ''\<newline>D=M+D\<newline>@R13\<newline>M=D\<newline>'' @ ''@SP\<newline>AM=M-1\<newline>D=M\<newline>@R13\<newline>A=M\<newline>M=D\<newline>'') w)"
  "vmt_writePop ''that'' i w = Inr (file_write (''@'' @ str_int i @ ''\<newline>D=A\<newline>'' @ ''@'' @ ''THAT'' @ ''\<newline>D=M+D\<newline>@R13\<newline>M=D\<newline>'' @ ''@SP\<newline>AM=M-1\<newline>D=M\<newline>@R13\<newline>A=M\<newline>M=D\<newline>'') w)"
  "vmt_writePop ''temp'' i w = Inr (file_write (''@SP\<newline>AM=M-1\<newline>D=M\<newline>'' @ ''@'' @ str_int (5 + i) @ ''\<newline>M=D\<newline>'') w)"
  "vmt_writePop ''pointer'' i w = Inr (file_write (''@SP\<newline>AM=M-1\<newline>D=M\<newline>'' @ ''@'' @ (if i = 0 then ''THIS'' else ''THAT'') @ ''\<newline>M=D\<newline>'') w)"
  "vmt_writePop ''static'' i w = Inr (file_write (''@SP\<newline>AM=M-1\<newline>D=M\<newline>'' @ ''@'' @ (''Static.'' @ str_int i) @ ''\<newline>M=D\<newline>'') w)"
  by (simp_all add: vmt_writePop_def)

lemma vmt_pop_exec:
  assumes w: "vmt_writePop seg i w = Inr w'"
    and i: "0 \<le> i" "(if seg = ''temp'' then 5 + i else i) < 32768"
    and env: "predefined_ok env" and sp: "256 \<le> unat (ram s 0)"
  shows "\<exists>s' c. vmt_cell env s seg i = Some c
           \<and> exec_asm env (emitted w w') 12 s = Some s'
           \<and> ram s' c = ram s (ram s 0 - 1)
           \<and> (c \<noteq> 0 \<longrightarrow> ram s' 0 = ram s 0 - 1)
           \<and> (\<forall>a. a \<noteq> 0 \<and> a \<noteq> 13 \<and> a \<noteq> c \<longrightarrow> ram s' a = ram s a)"
proof -
  note pd = predefined_okD [OF env]
  note st = stack_top_distinct [OF sp]
  have num: "parse_A (str_int i) = Some (A_instr (ANum (word_of_int i)))" if "seg \<noteq> ''temp''"
    using that i by (simp add: parse_A_number)
  have nl: "CHR ''\<newline>'' \<notin> set (str_int k)" for k by (rule newline_notin_str_int)
  from vmt_writePop_segments [OF w] show ?thesis
  proof (elim disjE)
    assume c: "seg = ''local''"
    with w have w': "w' = file_write (''@'' @ str_int i @ ''\<newline>D=A\<newline>'' @ ''@'' @ ''LCL'' @ ''\<newline>D=M+D\<newline>@R13\<newline>M=D\<newline>'' @ ''@SP\<newline>AM=M-1\<newline>D=M\<newline>@R13\<newline>A=M\<newline>M=D\<newline>'') w"
      by (simp only: vmt_writePop_text sum.inject)
    from c have nt: "seg \<noteq> ''temp''" by simp
    have r: "parse_A ''LCL'' = Some (A_instr (ASym ''LCL''))" "CHR ''\<newline>'' \<notin> set ''LCL''"
      by (simp_all add: parse_A_symbol valid_symbol_known)
    from exec_pop_indirect_vmt [OF r num [OF nt] nl env refl st(2) st(4)] c
    show ?thesis unfolding w' by (clarsimp simp add: vmt_cell_simps pd)
  next
    assume c: "seg = ''argument''"
    with w have w': "w' = file_write (''@'' @ str_int i @ ''\<newline>D=A\<newline>'' @ ''@'' @ ''ARG'' @ ''\<newline>D=M+D\<newline>@R13\<newline>M=D\<newline>'' @ ''@SP\<newline>AM=M-1\<newline>D=M\<newline>@R13\<newline>A=M\<newline>M=D\<newline>'') w"
      by (simp only: vmt_writePop_text sum.inject)
    from c have nt: "seg \<noteq> ''temp''" by simp
    have r: "parse_A ''ARG'' = Some (A_instr (ASym ''ARG''))" "CHR ''\<newline>'' \<notin> set ''ARG''"
      by (simp_all add: parse_A_symbol valid_symbol_known)
    from exec_pop_indirect_vmt [OF r num [OF nt] nl env refl st(2) st(4)] c
    show ?thesis unfolding w' by (clarsimp simp add: vmt_cell_simps pd)
  next
    assume c: "seg = ''this''"
    with w have w': "w' = file_write (''@'' @ str_int i @ ''\<newline>D=A\<newline>'' @ ''@'' @ ''THIS'' @ ''\<newline>D=M+D\<newline>@R13\<newline>M=D\<newline>'' @ ''@SP\<newline>AM=M-1\<newline>D=M\<newline>@R13\<newline>A=M\<newline>M=D\<newline>'') w"
      by (simp only: vmt_writePop_text sum.inject)
    from c have nt: "seg \<noteq> ''temp''" by simp
    have r: "parse_A ''THIS'' = Some (A_instr (ASym ''THIS''))" "CHR ''\<newline>'' \<notin> set ''THIS''"
      by (simp_all add: parse_A_symbol valid_symbol_known)
    from exec_pop_indirect_vmt [OF r num [OF nt] nl env refl st(2) st(4)] c
    show ?thesis unfolding w' by (clarsimp simp add: vmt_cell_simps pd)
  next
    assume c: "seg = ''that''"
    with w have w': "w' = file_write (''@'' @ str_int i @ ''\<newline>D=A\<newline>'' @ ''@'' @ ''THAT'' @ ''\<newline>D=M+D\<newline>@R13\<newline>M=D\<newline>'' @ ''@SP\<newline>AM=M-1\<newline>D=M\<newline>@R13\<newline>A=M\<newline>M=D\<newline>'') w"
      by (simp only: vmt_writePop_text sum.inject)
    from c have nt: "seg \<noteq> ''temp''" by simp
    have r: "parse_A ''THAT'' = Some (A_instr (ASym ''THAT''))" "CHR ''\<newline>'' \<notin> set ''THAT''"
      by (simp_all add: parse_A_symbol valid_symbol_known)
    from exec_pop_indirect_vmt [OF r num [OF nt] nl env refl st(2) st(4)] c
    show ?thesis unfolding w' by (clarsimp simp add: vmt_cell_simps pd)
  next
    assume c: "seg = ''temp''"
    with w have w': "w' = file_write (''@SP\<newline>AM=M-1\<newline>D=M\<newline>'' @ ''@'' @ str_int (5 + i) @ ''\<newline>M=D\<newline>'') w"
      by (simp only: vmt_writePop_text sum.inject)
    from c i have n5: "parse_A (str_int (5 + i)) = Some (A_instr (ANum (word_of_int (5 + i))))"
      by (simp add: parse_A_number)
    from exec_asm_fuel_ex [OF exec_pop_direct [OF n5 nl env refl st(2)], of 12] c
    show ?thesis unfolding w' by (clarsimp simp add: vmt_cell_simps)
  next
    assume c: "seg = ''pointer''"
    with w have w': "w' = file_write (''@SP\<newline>AM=M-1\<newline>D=M\<newline>'' @ ''@'' @ (if i = 0 then ''THIS'' else ''THAT'') @ ''\<newline>M=D\<newline>'') w"
      by (simp only: vmt_writePop_text sum.inject)
    have r: "parse_A (if i = 0 then ''THIS'' else ''THAT'')
               = Some (A_instr (ASym (if i = 0 then ''THIS'' else ''THAT'')))"
      "CHR ''\<newline>'' \<notin> set (if i = 0 then ''THIS'' else ''THAT'')"
      by (simp_all add: parse_A_symbol valid_symbol_known)
    from exec_asm_fuel_ex [OF exec_pop_direct [OF r env refl st(2)], of 12] c
    show ?thesis unfolding w' by (cases "i = 0") (clarsimp simp add: vmt_cell_simps pd)+
  next
    assume c: "seg = ''static''"
    with w have w': "w' = file_write (''@SP\<newline>AM=M-1\<newline>D=M\<newline>'' @ ''@'' @ (''Static.'' @ str_int i) @ ''\<newline>M=D\<newline>'') w"
      by (simp only: vmt_writePop_text sum.inject)
    have r: "parse_A (''Static.'' @ str_int i) = Some (A_instr (ASym (''Static.'' @ str_int i)))"
      "CHR ''\<newline>'' \<notin> set (''Static.'' @ str_int i)"
      by (rule parse_A_symbol [OF valid_symbol_static [OF i(1)]])
        (rule valid_symbol_newline [OF valid_symbol_static [OF i(1)]])
    from exec_asm_fuel_ex [OF exec_pop_direct [OF r env refl st(2)], of 12] c
    show ?thesis unfolding w' by (clarsimp simp add: vmt_cell_simps)
  qed
qed

lemma valid_symbol_labels:
  "0 \<le> k \<Longrightarrow> valid_symbol (''TRUE_'' @ str_int k)"
  "0 \<le> k \<Longrightarrow> valid_symbol (''END_'' @ str_int k)"
  "0 \<le> k \<Longrightarrow> valid_symbol (''RETURN_'' @ str_int k)"
  by (simp_all add: valid_symbol_Cons symbol_chars_iff digit_val_def set_str_int_symbol)

lemma vmt_writeArithmetic_text:
  "vmt_writeArithmetic ''add'' w = Inr (file_write (''@SP\<newline>AM=M-1\<newline>D=M\<newline>A=A-1\<newline>M=M'' @ ''+'' @ ''D\<newline>'') w)"
  "vmt_writeArithmetic ''sub'' w = Inr (file_write (''@SP\<newline>AM=M-1\<newline>D=M\<newline>A=A-1\<newline>M=M'' @ ''-'' @ ''D\<newline>'') w)"
  "vmt_writeArithmetic ''and'' w = Inr (file_write (''@SP\<newline>AM=M-1\<newline>D=M\<newline>A=A-1\<newline>M=M'' @ ''&'' @ ''D\<newline>'') w)"
  "vmt_writeArithmetic ''or'' w = Inr (file_write (''@SP\<newline>AM=M-1\<newline>D=M\<newline>A=A-1\<newline>M=M'' @ ''|'' @ ''D\<newline>'') w)"
  "vmt_writeArithmetic ''neg'' w = Inr (file_write (''@SP\<newline>A=M-1\<newline>M='' @ ''-'' @ ''M\<newline>'') w)"
  "vmt_writeArithmetic ''not'' w = Inr (file_write (''@SP\<newline>A=M-1\<newline>M='' @ ''!'' @ ''M\<newline>'') w)"
  "vmt_writeArithmetic ''eq'' w = Inr (file_write
     (compare_asm (''TRUE_'' @ str_int (label_count w)) (''END_'' @ str_int (label_count w)) ''JEQ'')
     (w\<lparr>label_count := label_count w + 1\<rparr>))"
  "vmt_writeArithmetic ''gt'' w = Inr (file_write
     (compare_asm (''TRUE_'' @ str_int (label_count w)) (''END_'' @ str_int (label_count w)) ''JGT'')
     (w\<lparr>label_count := label_count w + 1\<rparr>))"
  "vmt_writeArithmetic ''lt'' w = Inr (file_write
     (compare_asm (''TRUE_'' @ str_int (label_count w)) (''END_'' @ str_int (label_count w)) ''JLT'')
     (w\<lparr>label_count := label_count w + 1\<rparr>))"
  by (simp_all add: vmt_writeArithmetic_def compare_asm_def Let_def)

lemma vmt_binary_exec:
  assumes c: "c = ''add'' \<or> c = ''sub'' \<or> c = ''and'' \<or> c = ''or''"
    and env: "predefined_ok env" and sp: "256 \<le> unat (ram s 0)"
  shows "\<exists>w'. vmt_writeArithmetic c w = Inr w' \<and>
           (\<exists>s'. exec_asm env (emitted w w') 12 s = Some s' \<and> ram s' 0 = ram s 0 - 1
              \<and> pc s' = pc s + 5
              \<and> (\<forall>a. a \<noteq> 0 \<and> a \<noteq> ram s 0 - 2 \<longrightarrow> ram s' a = ram s a))"
proof -
  note st = stack_top_distinct [OF sp]
  have ex: "\<exists>s'. exec_asm env (''@SP\<newline>AM=M-1\<newline>D=M\<newline>A=A-1\<newline>M=M'' @ op @ ''D\<newline>'') 12 s = Some s'
           \<and> ram s' 0 = ram s 0 - 1 \<and> pc s' = pc s + 5
           \<and> (\<forall>a. a \<noteq> 0 \<and> a \<noteq> ram s 0 - 2 \<longrightarrow> ram s' a = ram s a)"
    if "parse_line (CHR ''M'' # CHR ''='' # CHR ''M'' # (op @ ''D''))
          = Some (C_instr (Dest False False True) k None)" "CHR ''\<newline>'' \<notin> set op" for op k
    using exec_asm_fuel_ex [OF exec_binary [OF that env refl st(2) st(3)], of 12] by simp
  from c show ?thesis
  proof (elim disjE)
    assume "c = ''add''"
    with ex [of "''+''"] show ?thesis by (simp add: vmt_writeArithmetic_text parse_C_known)
  next
    assume "c = ''sub''"
    with ex [of "''-''"] show ?thesis by (simp add: vmt_writeArithmetic_text parse_C_known)
  next
    assume "c = ''and''"
    with ex [of "''&''"] show ?thesis by (simp add: vmt_writeArithmetic_text parse_C_known)
  next
    assume "c = ''or''"
    with ex [of "''|''"] show ?thesis by (simp add: vmt_writeArithmetic_text parse_C_known)
  qed
qed

lemma vmt_unary_exec:
  assumes c: "c = ''neg'' \<or> c = ''not''"
    and env: "predefined_ok env" and sp: "256 \<le> unat (ram s 0)"
  shows "\<exists>w'. vmt_writeArithmetic c w = Inr w' \<and>
           (\<exists>s'. exec_asm env (emitted w w') 12 s = Some s' \<and> ram s' 0 = ram s 0
              \<and> pc s' = pc s + 3
              \<and> (\<forall>a. a \<noteq> ram s 0 - 1 \<longrightarrow> ram s' a = ram s a))"
proof -
  note st = stack_top_distinct [OF sp]
  have ex: "\<exists>s'. exec_asm env (''@SP\<newline>A=M-1\<newline>M='' @ op @ ''M\<newline>'') 12 s = Some s'
           \<and> ram s' 0 = ram s 0 \<and> pc s' = pc s + 3
           \<and> (\<forall>a. a \<noteq> ram s 0 - 1 \<longrightarrow> ram s' a = ram s a)"
    if "parse_line (CHR ''M'' # CHR ''='' # (op @ ''M''))
          = Some (C_instr (Dest False False True) k None)" "CHR ''\<newline>'' \<notin> set op" for op k
    using exec_asm_fuel_ex [OF exec_unary [OF that env refl st(2)], of 12] by simp
  from c show ?thesis
  proof (elim disjE)
    assume "c = ''neg''"
    with ex [of "''-''"] show ?thesis by (simp add: vmt_writeArithmetic_text parse_C_known)
  next
    assume "c = ''not''"
    with ex [of "''!''"] show ?thesis by (simp add: vmt_writeArithmetic_text parse_C_known)
  qed
qed

lemma symbols_agree_compare:
  assumes "symbols_agree env b (compare_asm lt le j)"
    and "valid_symbol lt" "valid_symbol le"
    and "parse_line (CHR ''D'' # CHR '';'' # j)
           = Some (C_instr (Dest False False False) (Reg RD) (Some jm))"
    and "CHR ''\<newline>'' \<notin> set j"
  shows "predefined_ok env" "unat (env lt) = b + 12" "unat (env le) = b + 15"
  using assms(1) by (simp_all add: symbols_agree_def text_labels_compare [OF assms(2-5)])

lemma vmt_compare_exec:
  assumes c: "c = ''eq'' \<or> c = ''gt'' \<or> c = ''lt''"
    and k: "0 \<le> label_count w" and sp: "256 \<le> unat (ram s 0)"
  shows "\<exists>w'. vmt_writeArithmetic c w = Inr w' \<and>
           (symbols_agree env (pc s) (emitted w w') \<longrightarrow>
              (\<exists>s'. exec_asm env (emitted w w') 12 s = Some s' \<and> ram s' 0 = ram s 0 - 1
                 \<and> pc s' = pc s + 15
                 \<and> (\<forall>a. a \<noteq> 0 \<and> a \<noteq> ram s 0 - 2 \<longrightarrow> ram s' a = ram s a)))"
proof -
  note st = stack_top_distinct [OF sp]
  note vs = valid_symbol_labels(1,2) [OF k]
  have ex: "\<exists>s'. exec_asm env (compare_asm (''TRUE_'' @ str_int (label_count w))
                     (''END_'' @ str_int (label_count w)) j) 12 s = Some s'
           \<and> ram s' 0 = ram s 0 - 1 \<and> pc s' = pc s + 15
           \<and> (\<forall>a. a \<noteq> 0 \<and> a \<noteq> ram s 0 - 2 \<longrightarrow> ram s' a = ram s a)"
    if pj: "parse_line (CHR ''D'' # CHR '';'' # j)
          = Some (C_instr (Dest False False False) (Reg RD) (Some jm))"
      and nl: "CHR ''\<newline>'' \<notin> set j"
      and ag: "symbols_agree env (pc s) (compare_asm (''TRUE_'' @ str_int (label_count w))
                     (''END_'' @ str_int (label_count w)) j)" for j jm
  proof -
    note sa = symbols_agree_compare [OF ag vs pj nl]
    from exec_compare [OF vs pj nl sa refl st(2) st(3)] st(2) st(3)
    show ?thesis by clarsimp
  qed
  from c show ?thesis
  proof (elim disjE)
    assume "c = ''eq''"
    with ex [of "''JEQ''"] show ?thesis by (simp add: vmt_writeArithmetic_text parse_C_known)
  next
    assume "c = ''gt''"
    with ex [of "''JGT''"] show ?thesis by (simp add: vmt_writeArithmetic_text parse_C_known)
  next
    assume "c = ''lt''"
    with ex [of "''JLT''"] show ?thesis by (simp add: vmt_writeArithmetic_text parse_C_known)
  qed
qed

subsection \<open>The assembler's table and small instances\<close>

lemma map_of_first_pass:
  "map_of tab x = Some v \<Longrightarrow> map_of (first_pass ls n tab) x = Some v"
  by (induction ls n tab rule: first_pass.induct) auto

lemma map_of_second_pass:
  "map_of tab x = Some v \<Longrightarrow> map_of (second_pass ls a tab) x = Some v"
  by (induction ls a tab rule: second_pass.induct) auto

lemma map_of_symbol_table:
  "map_of predefined_symbols x = Some v \<Longrightarrow> map_of (symbol_table ls) x = Some v"
  by (simp add: symbol_table_def map_of_first_pass map_of_second_pass)

lemma predefined_ok_assembler_env:
  "parse_asm text = Some ls \<Longrightarrow> predefined_ok (assembler_env text)"
  by (simp add: predefined_ok_def assembler_env_def)
     (simp add: predefined_symbols_def map_of_symbol_table)

lemma str_int_small:
  "str_int 0 = ''0''" "str_int 1 = ''1''" "str_int 2 = ''2''" "str_int 7 = ''7''"
  by (simp_all add: str_int_def str_nat.simps digit_char_def)

lemma valid_symbol_labels_0:
  "valid_symbol ''TRUE_0''" "valid_symbol ''END_0''" "valid_symbol ''RETURN_0''"
  by (simp_all add: valid_symbol_Cons symbol_chars_iff digit_val_def)

lemma parse_compare_0:
  "parse_asm (compare_asm ''TRUE_0'' ''END_0'' ''JLT'') = Some
     [A_instr (ASym ''SP''), C_instr (Dest True False True) (Dec RM) None,
      C_instr (Dest False True False) (Reg RM) None, C_instr (Dest True False False) (Dec RA) None,
      C_instr (Dest False True False) (Sub RM RD) None,
      A_instr (ASym ''TRUE_0''), C_instr (Dest False False False) (Reg RD) (Some JLT),
      A_instr (ASym ''SP''), C_instr (Dest True False False) (Dec RM) None,
      C_instr (Dest False False True) (Lit 0) None,
      A_instr (ASym ''END_0''), C_instr (Dest False False False) (Lit 0) (Some JMP),
      Label ''TRUE_0'',
      A_instr (ASym ''SP''), C_instr (Dest True False False) (Dec RM) None,
      C_instr (Dest False False True) (Lit (- 1)) None,
      Label ''END_0'']"
  by (rule parse_compare) (simp_all add: valid_symbol_labels_0 parse_C_known)

lemma assembler_env_compare_0:
  "assembler_env (compare_asm ''TRUE_0'' ''END_0'' ''JLT'') ''TRUE_0'' = 12"
  "assembler_env (compare_asm ''TRUE_0'' ''END_0'' ''JLT'') ''END_0'' = 15"
  by (simp_all add: assembler_env_def parse_compare_0 symbol_table_def predefined_symbols_def)

lemma parse_A_32768: "parse_A ''32768'' = None"
  by (simp add: parse_A_def digit_val_def)

lemma str_int_32768: "str_int 32768 = ''32768''"
  by (simp add: str_int_def str_nat.simps digit_char_def)

subsection \<open>Segment access of \<open>src/main.py\<close>\<close>

lemma py_int_bases: "py_int ''5'' = Some 5" "py_int ''3'' = Some 3" "py_int ''16'' = Some 16"
  by (simp_all add: py_int_def py_nat_def digit_val_def)

lemma main_writePush_segments:
  "main_writePush seg i w = Inr w' \<Longrightarrow>
   seg = ''constant'' \<or> seg = ''local'' \<or> seg = ''argument'' \<or> seg = ''this'' \<or> seg = ''that'' \<or> seg = ''temp'' \<or> seg = ''pointer'' \<or> seg = ''static''"
  by (simp add: main_writePush_def SEGMENTS_def split: if_splits)

lemma main_writePush_text:
  "main_writePush ''constant'' i w = Inr (file_write (''@'' @ str_int i @ ''\<newline>D=A\<newline>'' @ ''@SP\<newline>A=M\<newline>M=D\<newline>@SP\<newline>M=M+1\<newline>'') w)"
  "main_writePush ''local'' i w = Inr (file_write (''@'' @ ''LCL'' @ ''\<newline>D=M\<newline>@'' @ str_int i @ ''\<newline>A=D+A\<newline>D=M\<newline>'' @ ''@SP\<newline>A=M\<newline>M=D\<newline>@SP\<newline>M=M+1\<newline>'') w)"
  "main_writePush ''argument'' i w = Inr (file_write (''@'' @ ''ARG'' @ ''\<newline>D=M\<newline>@'' @ str_int i @ ''\<newline>A=D+A\<newline>D=M\<newline>'' @ ''@SP\<newline>A=M\<newline>M=D\<newline>@SP\<newline>M=M+1\<newline>'') w)"
  "main_writePush ''this'' i w = Inr (file_write (''@'' @ ''THIS'' @ ''\<newline>D=M\<newline>@'' @ str_int i @ ''\<newline>A=D+A\<newline>D=M\<newline>'' @ ''@SP\<newline>A=M\<newline>M=D\<newline>@SP\<newline>M=M+1\<newline>'') w)"
  "main_writePush ''that'' i w = Inr (file_write (''@'' @ ''THAT'' @ ''\<newline>D=M\<newline>@'' @ str_int i @ ''\<newline>A=D+A\<newline>D=M\<newline>'' @ ''@SP\<newline>A=M\<newline>M=D\<newline>@SP\<newline>M=M+1\<newline>'') w)"
  "main_writePush ''temp'' i w = Inr (file_write (''@'' @ str_int (5 + i) @ ''\<newline>D=M\<newline>'' @ ''@SP\<newline>A=M\<newline>M=D\<newline>@SP\<newline>M=M+1\<newline>'') w)"
  "main_writePush ''pointer'' i w = Inr (file_write (''@'' @ str_int (3 + i) @ ''\<newline>D=M\<newline>'' @ ''@SP\<newline>A=M\<newline>M=D\<newline>@SP\<newline>M=M+1\<newline>'') w)"
  "main_writePush ''static'' i w = Inr (file_write (''@'' @ str_int (16 + i) @ ''\<newline>D=M\<newline>'' @ ''@SP\<newline>A=M\<newline>M=D\<newline>@SP\<newline>M=M+1\<newline>'') w)"
  by (simp_all add: main_writePush_def SEGMENTS_def py_int_bases)

lemma main_writePop_segments:
  "main_writePop seg i w = Inr w' \<Longrightarrow>
   seg = ''local'' \<or> seg = ''argument'' \<or> seg = ''this'' \<or> seg = ''that'' \<or> seg = ''temp'' \<or> seg = ''pointer'' \<or> seg = ''static''"
  by (simp add: main_writePop_def SEGMENTS_def split: if_splits)

lemma main_writePop_text:
  "main_writePop ''local'' i w = Inr (file_write (''@'' @ ''LCL'' @ ''\<newline>D=M\<newline>@'' @ str_int i @ ''\<newline>D=D+A\<newline>@R13\<newline>M=D\<newline>@SP\<newline>AM=M-1\<newline>D=M\<newline>@R13\<newline>A=M\<newline>M=D\<newline>'') w)"
  "main_writePop ''argument'' i w = Inr (file_write (''@'' @ ''ARG'' @ ''\<newline>D=M\<newline>@'' @ str_int i @ ''\<newline>D=D+A\<newline>@R13\<newline>M=D\<newline>@SP\<newline>AM=M-1\<newline>D=M\<newline>@R13\<newline>A=M\<newline>M=D\<newline>'') w)"
  "main_writePop ''this'' i w = Inr (file_write (''@'' @ ''THIS'' @ ''\<newline>D=M\<newline>@'' @ str_int i @ ''\<newline>D=D+A\<newline>@R13\<newline>M=D\<newline>@SP\<newline>AM=M-1\<newline>D=M\<newline>@R13\<newline>A=M\<newline>M=D\<newline>'') w)"
  "main_writePop ''that'' i w = Inr (file_write (''@'' @ ''THAT'' @ ''\<newline>D=M\<newline>@'' @ str_int i @ ''\<newline>D=D+A\<newline>@R13\<newline>M=D\<newline>@SP\<newline>AM=M-1\<newline>D=M\<newline>@R13\<newline>A=M\<newline>M=D\<newline>'') w)"
  "main_writePop ''temp'' i w = Inr (file_write (''@SP\<newline>AM=M-1\<newline>D=M\<newline>'' @ ''@'' @ str_int (5 + i) @ ''\<newline>M=D\<newline>'') w)"
  "main_writePop ''pointer'' i w = Inr (file_write (''@SP\<newline>AM=M-1\<newline>D=M\<newline>'' @ ''@'' @ str_int (3 + i) @ ''\<newline>M=D\<newline>'') w)"
  "main_writePop ''static'' i w = Inr (file_write (''@SP\<newline>AM=M-1\<newline>D=M\<newline>'' @ ''@'' @ str_int (16 + i) @ ''\<newline>M=D\<newline>'') w)"
  by (simp_all add: main_writePop_def SEGMENTS_def py_int_bases)

lemma claimed_cell_simps:
  "claimed_cell s ''constant'' i = None"
  "claimed_cell s ''local'' i = Some (ram s 1 + word_of_int i)"
  "claimed_cell s ''argument'' i = Some (ram s 2 + word_of_int i)"
  "claimed_cell s ''this'' i = Some (ram s 3 + word_of_int i)"
  "claimed_cell s ''that'' i = Some (ram s 4 + word_of_int i)"
  "claimed_cell s ''temp'' i = Some (word_of_int (5 + i))"
  "claimed_cell s ''pointer'' i = Some (word_of_int (3 + i))"
  "claimed_cell s ''static'' i = Some (word_of_int (16 + i))"
  by (simp_all add: claimed_cell_def fixed_base_def base_register_def)

lemma main_bound_simps:
  "main_bound ''constant'' i = i" "main_bound ''local'' i = i" "main_bound ''argument'' i = i"
  "main_bound ''this'' i = i" "main_bound ''that'' i = i" "main_bound ''temp'' i = 5 + i"
  "main_bound ''pointer'' i = 3 + i" "main_bound ''static'' i = 16 + i"
  by (simp_all add: main_bound_def fixed_base_def)

lemma main_push_exec:
  assumes w: "main_writePush seg i w = Inr w'"
    and i: "0 \<le> i" "main_bound seg i < 32768"
    and env: "predefined_ok env" and sp: "ram s 0 \<noteq> 0"
  shows "\<exists>s'. exec_asm env (emitted w w') 10 s = Some s'
           \<and> ram s' = (ram s)(ram s 0 := (case claimed_cell s seg i of
                                              Some c \<Rightarrow> ram s c | None \<Rightarrow> word_of_int i),
                              0 := ram s 0 + 1)"
proof -
  note pd = predefined_okD [OF env]
  have nl: "CHR ''\<newline>'' \<notin> set (str_int k)" for k by (rule newline_notin_str_int)
  from main_writePush_segments [OF w] show ?thesis
  proof (elim disjE)
    assume c: "seg = ''constant''"
    with w have w': "w' = file_write (''@'' @ str_int i @ ''\<newline>D=A\<newline>'' @ ''@SP\<newline>A=M\<newline>M=D\<newline>@SP\<newline>M=M+1\<newline>'') w"
      by (simp only: main_writePush_text sum.inject)
    from c i have num: "parse_A (str_int i) = Some (A_instr (ANum (word_of_int i)))"
      by (simp add: parse_A_number main_bound_simps)
    from exec_asm_fuel_ex [OF exec_push_value [OF num nl env sp], of 10] c
    show ?thesis unfolding w' by (clarsimp simp add: claimed_cell_simps)
  next
    assume c: "seg = ''local''"
    with w have w': "w' = file_write (''@'' @ ''LCL'' @ ''\<newline>D=M\<newline>@'' @ str_int i @ ''\<newline>A=D+A\<newline>D=M\<newline>'' @ ''@SP\<newline>A=M\<newline>M=D\<newline>@SP\<newline>M=M+1\<newline>'') w"
      by (simp only: main_writePush_text sum.inject)
    from c i have num: "parse_A (str_int i) = Some (A_instr (ANum (word_of_int i)))"
      by (simp add: parse_A_number main_bound_simps)
    have r: "parse_A ''LCL'' = Some (A_instr (ASym ''LCL''))" "CHR ''\<newline>'' \<notin> set ''LCL''"
      by (simp_all add: parse_A_symbol valid_symbol_known)
    from exec_push_indirect [OF r num nl env sp] c
    show ?thesis unfolding w' by (clarsimp simp add: claimed_cell_simps pd)
  next
    assume c: "seg = ''argument''"
    with w have w': "w' = file_write (''@'' @ ''ARG'' @ ''\<newline>D=M\<newline>@'' @ str_int i @ ''\<newline>A=D+A\<newline>D=M\<newline>'' @ ''@SP\<newline>A=M\<newline>M=D\<newline>@SP\<newline>M=M+1\<newline>'') w"
      by (simp only: main_writePush_text sum.inject)
    from c i have num: "parse_A (str_int i) = Some (A_instr (ANum (word_of_int i)))"
      by (simp add: parse_A_number main_bound_simps)
    have r: "parse_A ''ARG'' = Some (A_instr (ASym ''ARG''))" "CHR ''\<newline>'' \<notin> set ''ARG''"
      by (simp_all add: parse_A_symbol valid_symbol_known)
    from exec_push_indirect [OF r num nl env sp] c
    show ?thesis unfolding w' by (clarsimp simp add: claimed_cell_simps pd)
  next
    assume c: "seg = ''this''"
    with w have w': "w' = file_write (''@'' @ ''THIS'' @ ''\<newline>D=M\<newline>@'' @ str_int i @ ''\<newline>A=D+A\<newline>D=M\<newline>'' @ ''@SP\<newline>A=M\<newline>M=D\<newline>@SP\<newline>M=M+1\<newline>'') w"
      by (simp only: main_writePush_text sum.inject)
    from c i have num: "parse_A (str_int i) = Some (A_instr (ANum (word_of_int i)))"
      by (simp add: parse_A_number main_bound_simps)
    have r: "parse_A ''THIS'' = Some (A_instr (ASym ''THIS''))" "CHR ''\<newline>'' \<notin> set ''THIS''"
      by (simp_all add: parse_A_symbol valid_symbol_known)
    from exec_push_indirect [OF r num nl env sp] c
    show ?thesis unfolding w' by (clarsimp simp add: claimed_cell_simps pd)
  next
    assume c: "seg = ''that''"
    with w have w': "w' = file_write (''@'' @ ''THAT'' @ ''\<newline>D=M\<newline>@'' @ str_int i @ ''\<newline>A=D+A\<newline>D=M\<newline>'' @ ''@SP\<newline>A=M\<newline>M=D\<newline>@SP\<newline>M=M+1\<newline>'') w"
      by (simp only: main_writePush_text sum.inject)
    from c i have num: "parse_A (str_int i) = Some (A_instr (ANum (word_of_int i)))"
      by (simp add: parse_A_number main_bound_simps)
    have r: "parse_A ''THAT'' = Some (A_instr (ASym ''THAT''))" "CHR ''\<newline>'' \<notin> set ''THAT''"
      by (simp_all add: parse_A_symbol valid_symbol_known)
    from exec_push_indirect [OF r num nl env sp] c
    show ?thesis unfolding w' by (clarsimp simp add: claimed_cell_simps pd)
  next
    assume c: "seg = ''temp''"
    with w have w': "w' = file_write (''@'' @ str_int (5 + i) @ ''\<newline>D=M\<newline>'' @ ''@SP\<newline>A=M\<newline>M=D\<newline>@SP\<newline>M=M+1\<newline>'') w"
      by (simp only: main_writePush_text sum.inject)
    from c i have num: "parse_A (str_int (5 + i)) = Some (A_instr (ANum (word_of_int (5 + i))))"
      by (simp add: parse_A_number main_bound_simps)
    from exec_asm_fuel_ex [OF exec_push_direct [OF num nl env sp], of 10] c
    show ?thesis unfolding w' by (clarsimp simp add: claimed_cell_simps)
  next
    assume c: "seg = ''pointer''"
    with w have w': "w' = file_write (''@'' @ str_int (3 + i) @ ''\<newline>D=M\<newline>'' @ ''@SP\<newline>A=M\<newline>M=D\<newline>@SP\<newline>M=M+1\<newline>'') w"
      by (simp only: main_writePush_text sum.inject)
    from c i have num: "parse_A (str_int (3 + i)) = Some (A_instr (ANum (word_of_int (3 + i))))"
      by (simp add: parse_A_number main_bound_simps)
    from exec_asm_fuel_ex [OF exec_push_direct [OF num nl env sp], of 10] c
    show ?thesis unfolding w' by (clarsimp simp add: claimed_cell_simps)
  next
    assume c: "seg = ''static''"
    with w have w': "w' = file_write (''@'' @ str_int (16 + i) @ ''\<newline>D=M\<newline>'' @ ''@SP\<newline>A=M\<newline>M=D\<newline>@SP\<newline>M=M+1\<newline>'') w"
      by (simp only: main_writePush_text sum.inject)
    from c i have num: "parse_A (str_int (16 + i)) = Some (A_instr (ANum (word_of_int (16 + i))))"
      by (simp add: parse_A_number main_bound_simps)
    from exec_asm_fuel_ex [OF exec_push_direct [OF num nl env sp], of 10] c
    show ?thesis unfolding w' by (clarsimp simp add: claimed_cell_simps)
  qed
qed

lemma main_pop_exec:
  assumes w: "main_writePop seg i w = Inr w'"
    and i: "0 \<le> i" "main_bound seg i < 32768"
    and env: "predefined_ok env" and sp: "256 \<le> unat (ram s 0)"
  shows "\<exists>s' c. claimed_cell s seg i = Some c
           \<and> exec_asm env (emitted w w') 12 s = Some s'
           \<and> ram s' c = ram s (ram s 0 - 1)
           \<and> (c \<noteq> 0 \<longrightarrow> ram s' 0 = ram s 0 - 1)
           \<and> (\<forall>a. a \<noteq> 0 \<and> a \<noteq> 13 \<and> a \<noteq> c \<longrightarrow> ram s' a = ram s a)"
proof -
  note pd = predefined_okD [OF env]
  note st = stack_top_distinct [OF sp]
  have nl: "CHR ''\<newline>'' \<notin> set (str_int k)" for k by (rule newline_notin_str_int)
  from main_writePop_segments [OF w] show ?thesis
  proof (elim disjE)
    assume c: "seg = ''local''"
    with w have w': "w' = file_write (''@'' @ ''LCL'' @ ''\<newline>D=M\<newline>@'' @ str_int i @ ''\<newline>D=D+A\<newline>@R13\<newline>M=D\<newline>@SP\<newline>AM=M-1\<newline>D=M\<newline>@R13\<newline>A=M\<newline>M=D\<newline>'') w"
      by (simp only: main_writePop_text sum.inject)
    from c i have num: "parse_A (str_int i) = Some (A_instr (ANum (word_of_int i)))"
      by (simp add: parse_A_number main_bound_simps)
    have r: "parse_A ''LCL'' = Some (A_instr (ASym ''LCL''))" "CHR ''\<newline>'' \<notin> set ''LCL''"
      by (simp_all add: parse_A_symbol valid_symbol_known)
    from exec_pop_indirect_main [OF r num nl env refl st(2) st(4)] c
    show ?thesis unfolding w' by (clarsimp simp add: claimed_cell_simps pd)
  next
    assume c: "seg = ''argument''"
    with w have w': "w' = file_write (''@'' @ ''ARG'' @ ''\<newline>D=M\<newline>@'' @ str_int i @ ''\<newline>D=D+A\<newline>@R13\<newline>M=D\<newline>@SP\<newline>AM=M-1\<newline>D=M\<newline>@R13\<newline>A=M\<newline>M=D\<newline>'') w"
      by (simp only: main_writePop_text sum.inject)
    from c i have num: "parse_A (str_int i) = Some (A_instr (ANum (word_of_int i)))"
      by (simp add: parse_A_number main_bound_simps)
    have r: "parse_A ''ARG'' = Some (A_instr (ASym ''ARG''))" "CHR ''\<newline>'' \<notin> set ''ARG''"
      by (simp_all add: parse_A_symbol valid_symbol_known)
    from exec_pop_indirect_main [OF r num nl env refl st(2) st(4)] c
    show ?thesis unfolding w' by (clarsimp simp add: claimed_cell_simps pd)
  next
    assume c: "seg = ''this''"
    with w have w': "w' = file_write (''@'' @ ''THIS'' @ ''\<newline>D=M\<newline>@'' @ str_int i @ ''\<newline>D=D+A\<newline>@R13\<newline>M=D\<newline>@SP\<newline>AM=M-1\<newline>D=M\<newline>@R13\<newline>A=M\<newline>M=D\<newline>'') w"
      by (simp only: main_writePop_text sum.inject)
    from c i have num: "parse_A (str_int i) = Some (A_instr (ANum (word_of_int i)))"
      by (simp add: parse_A_number main_bound_simps)
    have r: "parse_A ''THIS'' = Some (A_instr (ASym ''THIS''))" "CHR ''\<newline>'' \<notin> set ''THIS''"
      by (simp_all add: parse_A_symbol valid_symbol_known)
    from exec_pop_indirect_main [OF r num nl env refl st(2) st(4)] c
    show ?thesis unfolding w' by (clarsimp simp add: claimed_cell_simps pd)
  next
    assume c: "seg = ''that''"
    with w have w': "w' = file_write (''@'' @ ''THAT'' @ ''\<newline>D=M\<newline>@'' @ str_int i @ ''\<newline>D=D+A\<newline>@R13\<newline>M=D\<newline>@SP\<newline>AM=M-1\<newline>D=M\<newline>@R13\<newline>A=M\<newline>M=D\<newline>'') w"
      by (simp only: main_writePop_text sum.inject)
    from c i have num: "parse_A (str_int i) = Some (A_instr (ANum (word_of_int i)))"
      by (simp add: parse_A_number main_bound_simps)
    have r: "parse_A ''THAT'' = Some (A_instr (ASym ''THAT''))" "CHR ''\<newline>'' \<notin> set ''THAT''"
      by (simp_all add: parse_A_symbol valid_symbol_known)
    from exec_pop_indirect_main [OF r num nl env refl st(2) st(4)] c
    show ?thesis unfolding w' by (clarsimp simp add: claimed_cell_simps pd)
  next
    assume c: "seg = ''temp''"
    with w have w': "w' = file_write (''@SP\<newline>AM=M-1\<newline>D=M\<newline>'' @ ''@'' @ str_int (5 + i) @ ''\<newline>M=D\<newline>'') w"
      by (simp only: main_writePop_text sum.inject)
    from c i have num: "parse_A (str_int (5 + i)) = Some (A_instr (ANum (word_of_int (5 + i))))"
      by (simp add: parse_A_number main_bound_simps)
    from exec_asm_fuel_ex [OF exec_pop_direct [OF num nl env refl st(2)], of 12] c
    show ?thesis unfolding w' by (clarsimp simp add: claimed_cell_simps)
  next
    assume c: "seg = ''pointer''"
    with w have w': "w' = file_write (''@SP\<newline>AM=M-1\<newline>D=M\<newline>'' @ ''@'' @ str_int (3 + i) @ ''\<newline>M=D\<newline>'') w"
      by (simp only: main_writePop_text sum.inject)
    from c i have num: "parse_A (str_int (3 + i)) = Some (A_instr (ANum (word_of_int (3 + i))))"
      by (simp add: parse_A_number main_bound_simps)
    from exec_asm_fuel_ex [OF exec_pop_direct [OF num nl env refl st(2)], of 12] c
    show ?thesis unfolding w' by (clarsimp simp add: claimed_cell_simps)
  next
    assume c: "seg = ''static''"
    with w have w': "w' = file_write (''@SP\<newline>AM=M-1\<newline>D=M\<newline>'' @ ''@'' @ str_int (16 + i) @ ''\<newline>M=D\<newline>'') w"
      by (simp only: main_writePop_text sum.inject)
    from c i have num: "parse_A (str_int (16 + i)) = Some (A_instr (ANum (word_of_int (16 + i))))"
      by (simp add: parse_A_number main_bound_simps)
    from exec_asm_fuel_ex [OF exec_pop_direct [OF num nl env refl st(2)], of 12] c
    show ?thesis unfolding w' by (clarsimp simp add: claimed_cell_simps)
  qed
qed

lemma assembler_env_text:
  "parse_asm t = Some ls \<Longrightarrow>
   assembler_env t x = (case map_of (symbol_table ls) x of None \<Rightarrow> 0 | Some v \<Rightarrow> v)"
  by (simp add: assembler_env_def)

lemma str_int_more:
  "str_int 5 = ''5''" "str_int 10 = ''10''" "str_int 13 = ''13''"
  by (simp_all add: str_int_def str_nat.simps digit_char_def)

lemma parse_asm_Nil: "parse_asm [] = Some []"
  by (simp add: parse_asm_def)

subsection \<open>The call fragment of \<open>src/main.py\<close>\<close>

lemma main_writeCall_text:
  "main_writeCall f n w
     = file_write (call_asm f (str_int n) (''RETURN_'' @ str_int (label_count w)))
         (w\<lparr>label_count := label_count w + 1\<rparr>)"
  by (simp add: main_writeCall_def call_asm_def push_D_asm_def Let_def)

lemma text_labels_call:
  assumes "valid_symbol f" "valid_symbol rl" "parse_A n = Some (A_instr a)"
    "CHR ''\<newline>'' \<notin> set n"
  shows "text_labels (call_asm f n rl) = [(rl, 49)]"
  by (simp add: text_labels_def parse_call [OF assms] call_code_def)

lemma exec_call_straight:
  assumes vf: "valid_symbol f" and vr: "valid_symbol rl"
    and pn: "parse_A n = Some (A_instr a)" and nl: "CHR ''\<newline>'' \<notin> set n"
    and env: "predefined_ok env"
    and sp: "ram s 0 = sp" "5 \<le> unat sp" "unat sp + 5 < 65536"
  shows "\<exists>s'. exec_steps env (call_asm f n rl) 48 s = Some s'
           \<and> ram s' 0 = sp + 5 \<and> pc s' = pc s + 48"
  using sp
  by (simp add: exec_steps_def parse_call [OF vf vr pn nl] call_code_def code_of_def steps_numeral
      Let_def predefined_okD [OF env] word_neq_simps)

lemma symbols_agreeD:
  "symbols_agree env b t \<Longrightarrow> predefined_ok env"
  by (simp add: symbols_agree_def)

lemma parse_call_0:
  "parse_asm (call_asm ''Sys.init'' ''0'' ''RETURN_0'')
     = Some (call_code ''Sys.init'' (ANum 0) ''RETURN_0'')"
  by (rule parse_call) (simp_all add: valid_symbol_known valid_symbol_labels_0 parse_A_def digit_val_def)

lemma assembler_env_call_0:
  "assembler_env (call_asm ''Sys.init'' ''0'' ''RETURN_0'') ''RETURN_0'' = 49"
  "assembler_env (call_asm ''Sys.init'' ''0'' ''RETURN_0'') ''Sys.init'' = 16"
  by (simp_all add: assembler_env_text [OF parse_call_0] symbol_table_def call_code_def
      predefined_symbols_def)

section \<open>Lines and labels of the fragments\<close>

lemma counter_labels_iff:
  "l \<in> set (counter_labels k) \<longleftrightarrow>
     (\<exists>j. 0 \<le> j \<and> j < k \<and>
        (l = ''TRUE_'' @ str_int j \<or> l = ''END_'' @ str_int j \<or> l = ''RETURN_'' @ str_int j))"
  by (auto simp add: counter_labels_def simp del: append.simps)

lemma nl_terminated_append2:
  "nl_terminated a \<Longrightarrow> nl_terminated b \<Longrightarrow> nl_terminated (a @ b)"
  by (cases "b = []") (simp_all add: nl_terminated_def)

lemma asm_lines_compare:
  assumes "CHR ''\<newline>'' \<notin> set lt" "CHR ''\<newline>'' \<notin> set le" "CHR ''\<newline>'' \<notin> set j"
  shows "asm_lines (compare_asm lt le j) =
     [''@SP'', ''AM=M-1'', ''D=M'', ''A=A-1'', ''D=M-D'', ''@'' @ lt, ''D;'' @ j,
      ''@SP'', ''A=M-1'', ''M=0'', ''@'' @ le, ''0;JMP'', ''('' @ lt @ '')'',
      ''@SP'', ''A=M-1'', ''M=-1'', ''('' @ le @ '')'']"
  using assms by (simp add: compare_asm_def asm_lines_append_line)

lemma compare_fragment:
  assumes "CHR ''\<newline>'' \<notin> set lt" "CHR ''\<newline>'' \<notin> set le" "CHR ''\<newline>'' \<notin> set j"
  shows "nl_terminated (compare_asm lt le j)"
    "declared_labels (compare_asm lt le j) = [lt, le]"
    "''// Bootstrap code'' \<notin> set (asm_lines (compare_asm lt le j))"
  by (simp_all add: declared_labels_def asm_lines_compare [OF assms] List.map_filter_def
      line_label_def)
     (simp add: compare_asm_def nl_terminated_def)

lemma asm_lines_call:
  assumes "CHR ''\<newline>'' \<notin> set f" "CHR ''\<newline>'' \<notin> set n" "CHR ''\<newline>'' \<notin> set rl"
  shows "asm_lines (call_asm f n rl) =
     [''// call '' @ f @ '' '' @ n,
      ''@'' @ rl, ''D=A'', ''@SP'', ''A=M'', ''M=D'', ''@SP'', ''M=M+1'',
      ''@LCL'', ''D=M'', ''@SP'', ''A=M'', ''M=D'', ''@SP'', ''M=M+1'',
      ''@ARG'', ''D=M'', ''@SP'', ''A=M'', ''M=D'', ''@SP'', ''M=M+1'',
      ''@THIS'', ''D=M'', ''@SP'', ''A=M'', ''M=D'', ''@SP'', ''M=M+1'',
      ''@THAT'', ''D=M'', ''@SP'', ''A=M'', ''M=D'', ''@SP'', ''M=M+1'',
      ''@'' @ n, ''D=A'', ''@5'', ''D=D+A'', ''@SP'', ''D=M-D'', ''@ARG'', ''M=D'',
      ''@SP'', ''D=M'', ''@LCL'', ''M=D'',
      ''@'' @ f, ''0;JMP'', ''('' @ rl @ '')'']"
  using assms by (simp add: call_asm_def push_D_asm_def asm_lines_append_line)

lemma call_fragment:
  assumes "CHR ''\<newline>'' \<notin> set f" "CHR ''\<newline>'' \<notin> set n" "CHR ''\<newline>'' \<notin> set rl"
  shows "nl_terminated (call_asm f n rl)"
    "declared_labels (call_asm f n rl) = [rl]"
    "''// Bootstrap code'' \<notin> set (asm_lines (call_asm f n rl))"
  by (simp_all add: declared_labels_def asm_lines_call [OF assms] List.map_filter_def
      line_label_def)
     (simp add: call_asm_def nl_terminated_def)

lemma plain_fragments:
  "plain_fragment ''@SP\<newline>AM=M-1\<newline>D=M\<newline>A=A-1\<newline>M=M+D\<newline>''"
  "plain_fragment ''@SP\<newline>AM=M-1\<newline>D=M\<newline>A=A-1\<newline>M=M-D\<newline>''"
  "plain_fragment ''@SP\<newline>AM=M-1\<newline>D=M\<newline>A=A-1\<newline>M=M&D\<newline>''"
  "plain_fragment ''@SP\<newline>AM=M-1\<newline>D=M\<newline>A=A-1\<newline>M=M|D\<newline>''"
  "plain_fragment ''@SP\<newline>A=M-1\<newline>M=-M\<newline>''"
  "plain_fragment ''@SP\<newline>A=M-1\<newline>M=!M\<newline>''"
  by (simp_all add: plain_fragment_def nl_terminated_def declared_labels_def List.map_filter_def
      line_label_def)

lemma plain_push:
  assumes "CHR ''\<newline>'' \<notin> set x" "CHR ''\<newline>'' \<notin> set r"
  shows "plain_fragment (''@'' @ x @ ''\<newline>D=A\<newline>'' @ ''@SP\<newline>A=M\<newline>M=D\<newline>@SP\<newline>M=M+1\<newline>'')"
    "plain_fragment (''@'' @ x @ ''\<newline>D=M\<newline>'' @ ''@SP\<newline>A=M\<newline>M=D\<newline>@SP\<newline>M=M+1\<newline>'')"
    "plain_fragment (''@'' @ r @ ''\<newline>D=M\<newline>@'' @ x @ ''\<newline>A=D+A\<newline>D=M\<newline>'' @ ''@SP\<newline>A=M\<newline>M=D\<newline>@SP\<newline>M=M+1\<newline>'')"
  using assms
  by (simp_all add: plain_fragment_def nl_terminated_def declared_labels_def List.map_filter_def
      line_label_def asm_lines_append_line)

lemma plain_pop:
  assumes "CHR ''\<newline>'' \<notin> set x" "CHR ''\<newline>'' \<notin> set r"
  shows "plain_fragment (''@SP\<newline>AM=M-1\<newline>D=M\<newline>'' @ ''@'' @ x @ ''\<newline>M=D\<newline>'')"
    "plain_fragment (''@'' @ x @ ''\<newline>D=A\<newline>'' @ ''@'' @ r @ ''\<newline>D=M+D\<newline>@R13\<newline>M=D\<newline>'' @ ''@SP\<newline>AM=M-1\<newline>D=M\<newline>@R13\<newline>A=M\<newline>M=D\<newline>'')"
    "plain_fragment (''@'' @ r @ ''\<newline>D=M\<newline>@'' @ x @ ''\<newline>D=D+A\<newline>@R13\<newline>M=D\<newline>@SP\<newline>AM=M-1\<newline>D=M\<newline>@R13\<newline>A=M\<newline>M=D\<newline>'')"
  using assms
  by (simp_all add: plain_fragment_def nl_terminated_def declared_labels_def List.map_filter_def
      line_label_def asm_lines_append_line)

subsection \<open>What the emitters append\<close>

lemma step_extends_plain: "plain_fragment t \<Longrightarrow> step_extends w (file_write t w)"
  by (simp add: step_extends_def)

lemma step_extends_compare:
  "j \<in> {''JEQ'', ''JGT'', ''JLT''} \<Longrightarrow>
   step_extends w (file_write
     (compare_asm (''TRUE_'' @ str_int (label_count w)) (''END_'' @ str_int (label_count w)) j)
     (w\<lparr>label_count := label_count w + 1\<rparr>))"
  unfolding step_extends_def by blast

lemma main_writeArithmetic_text:
  "main_writeArithmetic ''add'' w = Inr (file_write (''@SP\<newline>AM=M-1\<newline>D=M\<newline>A=A-1\<newline>M=M'' @ ''+'' @ ''D\<newline>'') w)"
  "main_writeArithmetic ''sub'' w = Inr (file_write (''@SP\<newline>AM=M-1\<newline>D=M\<newline>A=A-1\<newline>M=M'' @ ''-'' @ ''D\<newline>'') w)"
  "main_writeArithmetic ''and'' w = Inr (file_write (''@SP\<newline>AM=M-1\<newline>D=M\<newline>A=A-1\<newline>M=M'' @ ''&'' @ ''D\<newline>'') w)"
  "main_writeArithmetic ''or'' w = Inr (file_write (''@SP\<newline>AM=M-1\<newline>D=M\<newline>A=A-1\<newline>M=M'' @ ''|'' @ ''D\<newline>'') w)"
  "main_writeArithmetic ''neg'' w = Inr (file_write (''@SP\<newline>A=M-1\<newline>M='' @ ''-'' @ ''M\<newline>'') w)"
  "main_writeArithmetic ''not'' w = Inr (file_write (''@SP\<newline>A=M-1\<newline>M='' @ ''!'' @ ''M\<newline>'') w)"
  "main_writeArithmetic ''eq'' w = Inr (file_write
     (compare_asm (''TRUE_'' @ str_int (label_count w)) (''END_'' @ str_int (label_count w)) ''JEQ'')
     (w\<lparr>label_count := label_count w + 1\<rparr>))"
  "main_writeArithmetic ''gt'' w = Inr (file_write
     (compare_asm (''TRUE_'' @ str_int (label_count w)) (''END_'' @ str_int (label_count w)) ''JGT'')
     (w\<lparr>label_count := label_count w + 1\<rparr>))"
  "main_writeArithmetic ''lt'' w = Inr (file_write
     (compare_asm (''TRUE_'' @ str_int (label_count w)) (''END_'' @ str_int (label_count w)) ''JLT'')
     (w\<lparr>label_count := label_count w + 1\<rparr>))"
  by (simp_all add: main_writeArithmetic_def compare_asm_def Let_def)

lemma vmt_writeArithmetic_names:
  "vmt_writeArithmetic c w = Inr w' \<Longrightarrow>
   c = ''add'' \<or> c = ''sub'' \<or> c = ''and'' \<or> c = ''or'' \<or> c = ''neg'' \<or> c = ''not'' \<or> c = ''eq'' \<or> c = ''gt'' \<or> c = ''lt''"
  by (simp add: vmt_writeArithmetic_def split: if_splits)

lemma vmt_writeArithmetic_extends:
  assumes w: "vmt_writeArithmetic c w = Inr w'"
  shows "step_extends w w'"
  using vmt_writeArithmetic_names [OF w]
proof (elim disjE)
  assume "c = ''add''"
  with w show ?thesis
    by (auto simp add: vmt_writeArithmetic_text intro!: step_extends_plain plain_fragments)
next
  assume "c = ''sub''"
  with w show ?thesis
    by (auto simp add: vmt_writeArithmetic_text intro!: step_extends_plain plain_fragments)
next
  assume "c = ''and''"
  with w show ?thesis
    by (auto simp add: vmt_writeArithmetic_text intro!: step_extends_plain plain_fragments)
next
  assume "c = ''or''"
  with w show ?thesis
    by (auto simp add: vmt_writeArithmetic_text intro!: step_extends_plain plain_fragments)
next
  assume "c = ''neg''"
  with w show ?thesis
    by (auto simp add: vmt_writeArithmetic_text intro!: step_extends_plain plain_fragments)
next
  assume "c = ''not''"
  with w show ?thesis
    by (auto simp add: vmt_writeArithmetic_text intro!: step_extends_plain plain_fragments)
next
  assume "c = ''eq''"
  with w have "w' = file_write (compare_asm (''TRUE_'' @ str_int (label_count w)) (''END_'' @ str_int (label_count w)) ''JEQ'') (w\<lparr>label_count := label_count w + 1\<rparr>)"
    by (simp only: vmt_writeArithmetic_text sum.inject)
  then show ?thesis by (simp only: step_extends_compare insert_iff simp_thms)
next
  assume "c = ''gt''"
  with w have "w' = file_write (compare_asm (''TRUE_'' @ str_int (label_count w)) (''END_'' @ str_int (label_count w)) ''JGT'') (w\<lparr>label_count := label_count w + 1\<rparr>)"
    by (simp only: vmt_writeArithmetic_text sum.inject)
  then show ?thesis by (simp only: step_extends_compare insert_iff simp_thms)
next
  assume "c = ''lt''"
  with w have "w' = file_write (compare_asm (''TRUE_'' @ str_int (label_count w)) (''END_'' @ str_int (label_count w)) ''JLT'') (w\<lparr>label_count := label_count w + 1\<rparr>)"
    by (simp only: vmt_writeArithmetic_text sum.inject)
  then show ?thesis by (simp only: step_extends_compare insert_iff simp_thms)
qed

lemma vmt_writePush_extends:
  assumes w: "vmt_writePush seg i w = Inr w'"
  shows "step_extends w w'"
proof -
  have nl: "CHR ''\<newline>'' \<notin> set (str_int k)" for k by (rule newline_notin_str_int)
  have st: "CHR ''\<newline>'' \<notin> set (''Static.'' @ str_int k)" for k by (simp add: nl)
  have pt: "CHR ''\<newline>'' \<notin> set (if i = 0 then ''THIS'' else ''THAT'')" by simp
  have rg: "CHR ''\<newline>'' \<notin> set ''LCL''" "CHR ''\<newline>'' \<notin> set ''ARG''"
    "CHR ''\<newline>'' \<notin> set ''THIS''" "CHR ''\<newline>'' \<notin> set ''THAT''" by simp_all
  note pl = plain_push [OF nl rg(1)] plain_push [OF nl rg(2)] plain_push [OF nl rg(3)] plain_push [OF nl rg(4)]
    plain_push [OF st rg(1)] plain_push [OF pt rg(1)]
  from vmt_writePush_segments [OF w] w show ?thesis
    by (elim disjE) (auto simp only: vmt_writePush_text sum.inject intro!: step_extends_plain pl)
qed

lemma vmt_writePop_extends:
  assumes w: "vmt_writePop seg i w = Inr w'"
  shows "step_extends w w'"
proof -
  have nl: "CHR ''\<newline>'' \<notin> set (str_int k)" for k by (rule newline_notin_str_int)
  have st: "CHR ''\<newline>'' \<notin> set (''Static.'' @ str_int k)" for k by (simp add: nl)
  have pt: "CHR ''\<newline>'' \<notin> set (if i = 0 then ''THIS'' else ''THAT'')" by simp
  have rg: "CHR ''\<newline>'' \<notin> set ''LCL''" "CHR ''\<newline>'' \<notin> set ''ARG''"
    "CHR ''\<newline>'' \<notin> set ''THIS''" "CHR ''\<newline>'' \<notin> set ''THAT''" by simp_all
  note pl = plain_pop [OF nl rg(1)] plain_pop [OF nl rg(2)] plain_pop [OF nl rg(3)] plain_pop [OF nl rg(4)]
    plain_pop [OF st rg(1)] plain_pop [OF pt rg(1)]
  from vmt_writePop_segments [OF w] w show ?thesis
    by (elim disjE) (auto simp only: vmt_writePop_text sum.inject intro!: step_extends_plain pl)
qed

lemma main_writeArithmetic_names:
  "main_writeArithmetic c w = Inr w' \<Longrightarrow>
   c = ''add'' \<or> c = ''sub'' \<or> c = ''and'' \<or> c = ''or'' \<or> c = ''neg'' \<or> c = ''not'' \<or> c = ''eq'' \<or> c = ''gt'' \<or> c = ''lt''"
  by (simp add: main_writeArithmetic_def split: if_splits)

lemma main_writeArithmetic_extends:
  assumes w: "main_writeArithmetic c w = Inr w'"
  shows "step_extends w w'"
  using main_writeArithmetic_names [OF w]
proof (elim disjE)
  assume "c = ''add''"
  with w show ?thesis
    by (auto simp add: main_writeArithmetic_text intro!: step_extends_plain plain_fragments)
next
  assume "c = ''sub''"
  with w show ?thesis
    by (auto simp add: main_writeArithmetic_text intro!: step_extends_plain plain_fragments)
next
  assume "c = ''and''"
  with w show ?thesis
    by (auto simp add: main_writeArithmetic_text intro!: step_extends_plain plain_fragments)
next
  assume "c = ''or''"
  with w show ?thesis
    by (auto simp add: main_writeArithmetic_text intro!: step_extends_plain plain_fragments)
next
  assume "c = ''neg''"
  with w show ?thesis
    by (auto simp add: main_writeArithmetic_text intro!: step_extends_plain plain_fragments)
next
  assume "c = ''not''"
  with w show ?thesis
    by (auto simp add: main_writeArithmetic_text intro!: step_extends_plain plain_fragments)
next
  assume "c = ''eq''"
  with w have "w' = file_write (compare_asm (''TRUE_'' @ str_int (label_count w)) (''END_'' @ str_int (label_count w)) ''JEQ'') (w\<lparr>label_count := label_count w + 1\<rparr>)"
    by (simp only: main_writeArithmetic_text sum.inject)
  then show ?thesis by (simp only: step_extends_compare insert_iff simp_thms)
next
  assume "c = ''gt''"
  with w have "w' = file_write (compare_asm (''TRUE_'' @ str_int (label_count w)) (''END_'' @ str_int (label_count w)) ''JGT'') (w\<lparr>label_count := label_count w + 1\<rparr>)"
    by (simp only: main_writeArithmetic_text sum.inject)
  then show ?thesis by (simp only: step_extends_compare insert_iff simp_thms)
next
  assume "c = ''lt''"
  with w have "w' = file_write (compare_asm (''TRUE_'' @ str_int (label_count w)) (''END_'' @ str_int (label_count w)) ''JLT'') (w\<lparr>label_count := label_count w + 1\<rparr>)"
    by (simp only: main_writeArithmetic_text sum.inject)
  then show ?thesis by (simp only: step_extends_compare insert_iff simp_thms)
qed

lemma main_writePush_extends:
  assumes w: "main_writePush seg i w = Inr w'"
  shows "step_extends w w'"
proof -
  have nl: "CHR ''\<newline>'' \<notin> set (str_int k)" for k by (rule newline_notin_str_int)
  have st: "CHR ''\<newline>'' \<notin> set (''Static.'' @ str_int k)" for k by (simp add: nl)
  have pt: "CHR ''\<newline>'' \<notin> set (if i = 0 then ''THIS'' else ''THAT'')" by simp
  have rg: "CHR ''\<newline>'' \<notin> set ''LCL''" "CHR ''\<newline>'' \<notin> set ''ARG''"
    "CHR ''\<newline>'' \<notin> set ''THIS''" "CHR ''\<newline>'' \<notin> set ''THAT''" by simp_all
  note pl = plain_push [OF nl rg(1)] plain_push [OF nl rg(2)] plain_push [OF nl rg(3)] plain_push [OF nl rg(4)]
    plain_push [OF st rg(1)] plain_push [OF pt rg(1)]
  from main_writePush_segments [OF w] w show ?thesis
    by (elim disjE) (auto simp only: main_writePush_text sum.inject intro!: step_extends_plain pl)
qed

lemma main_writePop_extends:
  assumes w: "main_writePop seg i w = Inr w'"
  shows "step_extends w w'"
proof -
  have nl: "CHR ''\<newline>'' \<notin> set (str_int k)" for k by (rule newline_notin_str_int)
  have st: "CHR ''\<newline>'' \<notin> set (''Static.'' @ str_int k)" for k by (simp add: nl)
  have pt: "CHR ''\<newline>'' \<notin> set (if i = 0 then ''THIS'' else ''THAT'')" by simp
  have rg: "CHR ''\<newline>'' \<notin> set ''LCL''" "CHR ''\<newline>'' \<notin> set ''ARG''"
    "CHR ''\<newline>'' \<notin> set ''THIS''" "CHR ''\<newline>'' \<notin> set ''THAT''" by simp_all
  note pl = plain_pop [OF nl rg(1)] plain_pop [OF nl rg(2)] plain_pop [OF nl rg(3)] plain_pop [OF nl rg(4)]
    plain_pop [OF st rg(1)] plain_pop [OF pt rg(1)]
  from main_writePop_segments [OF w] w show ?thesis
    by (elim disjE) (auto simp only: main_writePop_text sum.inject intro!: step_extends_plain pl)
qed

section \<open>The labels and the text of a run\<close>

lemma step_extends_refl: "step_extends w w"
  by (simp add: step_extends_def)

lemma vmt_translate_step_extends:
  "vmt_translate_step c w = Inr w' \<Longrightarrow> step_extends w w'"
  unfolding vmt_translate_step_def
  by (auto split: sum.splits if_splits
      intro: vmt_writeArithmetic_extends vmt_writePush_extends vmt_writePop_extends step_extends_refl)

lemma main_translate_step_extends:
  "main_translate_step c w = Inr w' \<Longrightarrow> step_extends w w'"
  unfolding main_translate_step_def
  by (auto split: sum.splits if_splits
      intro: main_writeArithmetic_extends main_writePush_extends main_writePop_extends
        step_extends_refl)

lemma label_names_simps:
  "(''TRUE_'' @ a = ''TRUE_'' @ b) = (a = b)" "(''END_'' @ a = ''END_'' @ b) = (a = b)"
  "(''RETURN_'' @ a = ''RETURN_'' @ b) = (a = b)"
  "(''TRUE_'' @ a = ''END_'' @ b) = False" "(''TRUE_'' @ a = ''RETURN_'' @ b) = False"
  "(''END_'' @ a = ''TRUE_'' @ b) = False" "(''END_'' @ a = ''RETURN_'' @ b) = False"
  "(''RETURN_'' @ a = ''TRUE_'' @ b) = False" "(''RETURN_'' @ a = ''END_'' @ b) = False"
  by simp_all

lemma counter_labels_fresh:
  "''TRUE_'' @ str_int k \<notin> set (counter_labels k)" "''END_'' @ str_int k \<notin> set (counter_labels k)"
  "''RETURN_'' @ str_int k \<notin> set (counter_labels k)"
  unfolding counter_labels_iff
  by (auto simp only: label_names_simps str_int_inject simp_thms)

lemma counter_labels_mono:
  "l \<in> set (counter_labels k) \<Longrightarrow> l \<in> set (counter_labels (k + 1))"
proof -
  assume "l \<in> set (counter_labels k)"
  then obtain j where j: "0 \<le> j" "j < k"
    "l = ''TRUE_'' @ str_int j \<or> l = ''END_'' @ str_int j \<or> l = ''RETURN_'' @ str_int j"
    unfolding counter_labels_iff by (elim exE conjE)
  from j(2) have "j < k + 1" by simp
  with j(1,3) have "0 \<le> j \<and> j < k + 1 \<and>
    (l = ''TRUE_'' @ str_int j \<or> l = ''END_'' @ str_int j \<or> l = ''RETURN_'' @ str_int j)"
    by (intro conjI)
  then show ?thesis unfolding counter_labels_iff by (rule exI)
qed

lemma counter_labels_new:
  assumes "0 \<le> k"
  shows "''TRUE_'' @ str_int k \<in> set (counter_labels (k + 1))"
    "''END_'' @ str_int k \<in> set (counter_labels (k + 1))"
    "''RETURN_'' @ str_int k \<in> set (counter_labels (k + 1))"
  unfolding counter_labels_iff using assms by (intro exI [of _ k], simp)+

lemma file_text_file_write:
  "file_text (file_write t w) = file_text w @ t"
  "file_text (file_write t (w\<lparr>label_count := k\<rparr>)) = file_text w @ t"
  "label_count (file_write t w) = label_count w"
  "label_count (file_write t (w\<lparr>label_count := k\<rparr>)) = k"
  by (simp_all add: file_write_def)

lemma jump_names_newline:
  "j \<in> {''JEQ'', ''JGT'', ''JLT''} \<Longrightarrow> CHR ''\<newline>'' \<notin> set j"
  by auto

lemma label_newline:
  "CHR ''\<newline>'' \<notin> set (''TRUE_'' @ str_int k)" "CHR ''\<newline>'' \<notin> set (''END_'' @ str_int k)"
  "CHR ''\<newline>'' \<notin> set (''RETURN_'' @ str_int k)"
  by (simp_all add: newline_notin_str_int)

lemma labels_inv_step:
  assumes inv: "labels_inv w" and ext: "step_extends w w'"
  shows "labels_inv w'"
proof -
  from inv have nt: "nl_terminated (file_text w)" and k: "0 \<le> label_count w"
    and d: "distinct (declared_labels (file_text w))"
    and sub: "set (declared_labels (file_text w)) \<subseteq> set (counter_labels (label_count w))"
    by (simp_all add: labels_inv_def)
  from ext consider "w' = w"
    | "plain_fragment (emitted w w')" "w' = file_write (emitted w w') w"
    | j where "j \<in> {''JEQ'', ''JGT'', ''JLT''}"
        "w' = file_write
               (compare_asm (''TRUE_'' @ str_int (label_count w)) (''END_'' @ str_int (label_count w)) j)
               (w\<lparr>label_count := label_count w + 1\<rparr>)"
    unfolding step_extends_def by blast
  then show ?thesis
  proof cases
    case 1
    with inv show ?thesis by simp
  next
    case 2
    let ?t = "emitted w w'"
    from 2(1) have pt: "nl_terminated ?t" "declared_labels ?t = []"
      by (simp_all add: plain_fragment_def)
    have ft: "file_text w' = file_text w @ ?t" and lc: "label_count w' = label_count w"
      by (subst 2(2), simp add: file_text_file_write)+
    show ?thesis
      unfolding labels_inv_def ft lc
      using nt k d sub pt
      by (simp add: declared_labels_append nl_terminated_append2)
  next
    case 3
    let ?lt = "''TRUE_'' @ str_int (label_count w)" and ?le = "''END_'' @ str_int (label_count w)"
    let ?t = "compare_asm ?lt ?le j"
    note cf = compare_fragment [OF label_newline(1) label_newline(2) jump_names_newline [OF 3(1)],
        of "label_count w" "label_count w"]
    have ft: "file_text w' = file_text w @ ?t" and lc: "label_count w' = label_count w + 1"
      by (subst 3(2), simp add: file_text_file_write)+
    have dl: "declared_labels (file_text w') = declared_labels (file_text w) @ [?lt, ?le]"
      unfolding ft by (simp only: declared_labels_append [OF nt] cf(2))
    from sub counter_labels_fresh [of "label_count w"]
    have fresh: "?lt \<notin> set (declared_labels (file_text w))" "?le \<notin> set (declared_labels (file_text w))"
      by blast+
    have ne: "?lt \<noteq> ?le" by (simp only: label_names_simps) simp
    from sub have sub': "set (declared_labels (file_text w)) \<subseteq> set (counter_labels (label_count w + 1))"
      using counter_labels_mono by blast
    show ?thesis
      unfolding labels_inv_def
    proof (intro conjI)
      show "nl_terminated (file_text w')"
        unfolding ft by (rule nl_terminated_append2 [OF nt cf(1)])
      show "0 \<le> label_count w'" using k lc by simp
      show "distinct (declared_labels (file_text w'))"
        unfolding dl using d fresh ne by (simp del: append.simps)
      show "set (declared_labels (file_text w')) \<subseteq> set (counter_labels (label_count w'))"
        unfolding dl lc using sub' counter_labels_new(1,2) [OF k] by (simp del: append.simps)
    qed
  qed
qed

lemma vmt_loop_labels_inv:
  "labels_inv w \<Longrightarrow> labels_inv (snd (vmt_translate_loop cs w))"
proof (induction cs arbitrary: w)
  case Nil
  then show ?case by simp
next
  case (Cons c cs)
  show ?case
  proof (cases "vmt_translate_step c w")
    case (Inl e)
    with Cons.prems show ?thesis by simp
  next
    case (Inr w')
    from labels_inv_step [OF Cons.prems vmt_translate_step_extends [OF Inr]]
    have "labels_inv w'" .
    from Cons.IH [OF this] Inr show ?thesis by simp
  qed
qed

lemma main_loop_labels_inv:
  "labels_inv w \<Longrightarrow> labels_inv (snd (main_translate_loop cs w))"
proof (induction cs arbitrary: w)
  case Nil
  then show ?case by simp
next
  case (Cons c cs)
  show ?case
  proof (cases "main_translate_step c w")
    case (Inl e)
    with Cons.prems show ?thesis by simp
  next
    case (Inr w')
    from labels_inv_step [OF Cons.prems main_translate_step_extends [OF Inr]]
    have "labels_inv w'" .
    from Cons.IH [OF this] Inr show ?thesis by simp
  qed
qed

lemma main_CodeWriter_init_eq:
  "main_CodeWriter_init path
     = \<lparr>file_text = bootstrap_asm, label_count = 1, filename = path_stem path\<rparr>"
  by (simp add: main_CodeWriter_init_def main_writeInit_def main_writeCall_text file_write_def
      bootstrap_asm_def str_int_small)

lemma bootstrap_call_fragment:
  "nl_terminated (call_asm ''Sys.init'' ''0'' ''RETURN_0'')"
  "declared_labels (call_asm ''Sys.init'' ''0'' ''RETURN_0'') = [''RETURN_0'']"
  "''// Bootstrap code'' \<notin> set (asm_lines (call_asm ''Sys.init'' ''0'' ''RETURN_0''))"
  by (rule call_fragment; simp)+

lemma bootstrap_head:
  "nl_terminated (''// Bootstrap code\<newline>'' @ ''@256\<newline>D=A\<newline>@SP\<newline>M=D\<newline>'')"
  "asm_lines (''// Bootstrap code\<newline>'' @ ''@256\<newline>D=A\<newline>@SP\<newline>M=D\<newline>'')
     = [''// Bootstrap code'', ''@256'', ''D=A'', ''@SP'', ''M=D'']"
  by (simp_all add: nl_terminated_def)

lemma bootstrap_lines:
  "asm_lines bootstrap_asm
     = [''// Bootstrap code'', ''@256'', ''D=A'', ''@SP'', ''M=D'']
       @ asm_lines (call_asm ''Sys.init'' ''0'' ''RETURN_0'')"
  unfolding bootstrap_asm_def
  by (simp only: asm_lines_append [OF bootstrap_head(1)] bootstrap_head(2))

lemma bootstrap_facts:
  "nl_terminated bootstrap_asm"
  "declared_labels bootstrap_asm = [''RETURN_0'']"
  "count_list (asm_lines bootstrap_asm) ''// Bootstrap code'' = 1"
proof -
  show "nl_terminated bootstrap_asm"
    unfolding bootstrap_asm_def
    by (rule nl_terminated_append2 [OF bootstrap_head(1) bootstrap_call_fragment(1)])
  have "declared_labels bootstrap_asm
          = List.map_filter line_label [''// Bootstrap code'', ''@256'', ''D=A'', ''@SP'', ''M=D'']
            @ declared_labels (call_asm ''Sys.init'' ''0'' ''RETURN_0'')"
    by (simp only: declared_labels_def bootstrap_lines List.map_filter_def filter_append map_append)
  then show "declared_labels bootstrap_asm = [''RETURN_0'']"
    by (simp add: bootstrap_call_fragment(2) List.map_filter_def line_label_def)
  from bootstrap_call_fragment(3)
  have "count_list (asm_lines (call_asm ''Sys.init'' ''0'' ''RETURN_0'')) ''// Bootstrap code'' = 0"
    by (simp only: count_list_0_iff simp_thms)
  then show "count_list (asm_lines bootstrap_asm) ''// Bootstrap code'' = 1"
    by (simp add: bootstrap_lines)
qed

lemma labels_inv_vmt_init: "labels_inv vmt_CodeWriter_init"
  by (simp add: labels_inv_def vmt_CodeWriter_init_def nl_terminated_def declared_labels_def
      List.map_filter_def)

lemma labels_inv_main_init: "labels_inv (main_CodeWriter_init path)"
  using counter_labels_new(3) [of 0]
  by (simp add: labels_inv_def main_CodeWriter_init_eq bootstrap_facts str_int_small)

lemma vmt_step_comparison:
  assumes "c \<noteq> []" "hd c = ''eq'' \<or> hd c = ''gt'' \<or> hd c = ''lt''"
  shows "\<exists>j. (j = ''JEQ'' \<or> j = ''JGT'' \<or> j = ''JLT'') \<and> vmt_translate_step c w
           = Inr (file_write
               (compare_asm (''TRUE_'' @ str_int (label_count w)) (''END_'' @ str_int (label_count w)) j)
               (w\<lparr>label_count := label_count w + 1\<rparr>))"
proof (cases c)
  case Nil
  with assms show ?thesis by simp
next
  case (Cons a r)
  with assms(2) have "a = ''eq'' \<or> a = ''gt'' \<or> a = ''lt''" by simp
  then show ?thesis
  proof (elim disjE)
    assume "a = ''eq''"
    then show ?thesis
      by (intro exI [of _ "''JEQ''"])
         (simp add: Cons vmt_translate_step_def vmt_commandType_def vmt_arg1_def py_index_def
           arithmetic_names_def vmt_writeArithmetic_text)
  next
    assume "a = ''gt''"
    then show ?thesis
      by (intro exI [of _ "''JGT''"])
         (simp add: Cons vmt_translate_step_def vmt_commandType_def vmt_arg1_def py_index_def
           arithmetic_names_def vmt_writeArithmetic_text)
  next
    assume "a = ''lt''"
    then show ?thesis
      by (intro exI [of _ "''JLT''"])
         (simp add: Cons vmt_translate_step_def vmt_commandType_def vmt_arg1_def py_index_def
           arithmetic_names_def vmt_writeArithmetic_text)
  qed
qed

lemma main_step_comparison:
  assumes "c \<noteq> []" "hd c = ''eq'' \<or> hd c = ''gt'' \<or> hd c = ''lt''"
  shows "\<exists>j. (j = ''JEQ'' \<or> j = ''JGT'' \<or> j = ''JLT'') \<and> main_translate_step c w
           = Inr (file_write
               (compare_asm (''TRUE_'' @ str_int (label_count w)) (''END_'' @ str_int (label_count w)) j)
               (w\<lparr>label_count := label_count w + 1\<rparr>))"
proof (cases c)
  case Nil
  with assms show ?thesis by simp
next
  case (Cons a r)
  with assms(2) have "a = ''eq'' \<or> a = ''gt'' \<or> a = ''lt''" by simp
  then show ?thesis
  proof (elim disjE)
    assume "a = ''eq''"
    then show ?thesis
      by (intro exI [of _ "''JEQ''"])
         (simp add: Cons main_translate_step_def main_commandType_def main_arg1_def py_index_def
           arithmetic_names_def main_writeArithmetic_text)
  next
    assume "a = ''gt''"
    then show ?thesis
      by (intro exI [of _ "''JGT''"])
         (simp add: Cons main_translate_step_def main_commandType_def main_arg1_def py_index_def
           arithmetic_names_def main_writeArithmetic_text)
  next
    assume "a = ''lt''"
    then show ?thesis
      by (intro exI [of _ "''JLT''"])
         (simp add: Cons main_translate_step_def main_commandType_def main_arg1_def py_index_def
           arithmetic_names_def main_writeArithmetic_text)
  qed
qed

lemma compare_step_labels:
  assumes nt: "nl_terminated (file_text w)"
    and j: "j = ''JEQ'' \<or> j = ''JGT'' \<or> j = ''JLT''"
    and w': "w' = file_write
               (compare_asm (''TRUE_'' @ str_int (label_count w)) (''END_'' @ str_int (label_count w)) j)
               (w\<lparr>label_count := label_count w + 1\<rparr>)"
  shows "nl_terminated (file_text w')"
    "length (declared_labels (file_text w')) = length (declared_labels (file_text w)) + 2"
proof -
  from j have "j \<in> {''JEQ'', ''JGT'', ''JLT''}" by (simp only: insert_iff empty_iff simp_thms)
  note cf = compare_fragment [OF label_newline(1) label_newline(2) jump_names_newline [OF this],
        of "label_count w" "label_count w"]
  have ft: "file_text w' = file_text w @ compare_asm (''TRUE_'' @ str_int (label_count w)) (''END_'' @ str_int (label_count w)) j"
    by (subst w', simp add: file_text_file_write)
  show "nl_terminated (file_text w')"
    unfolding ft by (rule nl_terminated_append2 [OF nt cf(1)])
  show "length (declared_labels (file_text w')) = length (declared_labels (file_text w)) + 2"
    unfolding ft by (simp only: declared_labels_append [OF nt] cf(2)) simp
qed

lemma vmt_loop_comparisons:
  assumes "list_all (\<lambda>c. c \<noteq> [] \<and> (hd c = ''eq'' \<or> hd c = ''gt'' \<or> hd c = ''lt'')) cs"
    and "nl_terminated (file_text w)"
  shows "fst (vmt_translate_loop cs w) = None \<and>
         length (declared_labels (file_text (snd (vmt_translate_loop cs w))))
           = length (declared_labels (file_text w)) + 2 * length cs"
  using assms
proof (induction cs arbitrary: w)
  case Nil
  then show ?case by simp
next
  case (Cons c cs)
  from Cons.prems(1) have c: "c \<noteq> []" "hd c = ''eq'' \<or> hd c = ''gt'' \<or> hd c = ''lt''"
    and cs: "list_all (\<lambda>c. c \<noteq> [] \<and> (hd c = ''eq'' \<or> hd c = ''gt'' \<or> hd c = ''lt'')) cs"
    by simp_all
  from vmt_step_comparison [OF c, of w] obtain j w' where j: "j = ''JEQ'' \<or> j = ''JGT'' \<or> j = ''JLT''"
    and st: "vmt_translate_step c w = Inr w'"
    and w': "w' = file_write
               (compare_asm (''TRUE_'' @ str_int (label_count w)) (''END_'' @ str_int (label_count w)) j)
               (w\<lparr>label_count := label_count w + 1\<rparr>)"
    by (elim exE conjE) simp
  note sl = compare_step_labels [OF Cons.prems(2) j w']
  from Cons.IH [OF cs sl(1)] sl(2) st show ?case by simp
qed

lemma main_loop_comparisons:
  assumes "list_all (\<lambda>c. c \<noteq> [] \<and> (hd c = ''eq'' \<or> hd c = ''gt'' \<or> hd c = ''lt'')) cs"
    and "nl_terminated (file_text w)"
  shows "fst (main_translate_loop cs w) = None \<and>
         length (declared_labels (file_text (snd (main_translate_loop cs w))))
           = length (declared_labels (file_text w)) + 2 * length cs"
  using assms
proof (induction cs arbitrary: w)
  case Nil
  then show ?case by simp
next
  case (Cons c cs)
  from Cons.prems(1) have c: "c \<noteq> []" "hd c = ''eq'' \<or> hd c = ''gt'' \<or> hd c = ''lt''"
    and cs: "list_all (\<lambda>c. c \<noteq> [] \<and> (hd c = ''eq'' \<or> hd c = ''gt'' \<or> hd c = ''lt'')) cs"
    by simp_all
  from main_step_comparison [OF c, of w] obtain j w' where j: "j = ''JEQ'' \<or> j = ''JGT'' \<or> j = ''JLT''"
    and st: "main_translate_step c w = Inr w'"
    and w': "w' = file_write
               (compare_asm (''TRUE_'' @ str_int (label_count w)) (''END_'' @ str_int (label_count w)) j)
               (w\<lparr>label_count := label_count w + 1\<rparr>)"
    by (elim exE conjE) simp
  note sl = compare_step_labels [OF Cons.prems(2) j w']
  from Cons.IH [OF cs sl(1)] sl(2) st show ?case by simp
qed

lemma vmt_init_text: "nl_terminated (file_text vmt_CodeWriter_init)"
  "declared_labels (file_text vmt_CodeWriter_init) = []"
  by (simp_all add: vmt_CodeWriter_init_def nl_terminated_def declared_labels_def
      List.map_filter_def)

lemma main_init_text: "nl_terminated (file_text (main_CodeWriter_init path))"
  "declared_labels (file_text (main_CodeWriter_init path)) = [''RETURN_0'']"
  by (simp_all add: main_CodeWriter_init_eq bootstrap_facts)

lemma labels_invD:
  assumes "labels_inv w"
  shows "distinct (declared_labels (file_text w))"
    "l \<in> set (declared_labels (file_text w)) \<Longrightarrow>
       \<exists>n. 0 \<le> n \<and> (l = ''TRUE_'' @ str_int n \<or> l = ''END_'' @ str_int n
                      \<or> l = ''RETURN_'' @ str_int n)"
proof -
  from assms show "distinct (declared_labels (file_text w))" by (simp add: labels_inv_def)
  assume "l \<in> set (declared_labels (file_text w))"
  with assms have "l \<in> set (counter_labels (label_count w))"
    unfolding labels_inv_def by (elim conjE) (erule subsetD)
  then obtain j where "0 \<le> j"
    "l = ''TRUE_'' @ str_int j \<or> l = ''END_'' @ str_int j \<or> l = ''RETURN_'' @ str_int j"
    unfolding counter_labels_iff by (elim exE conjE)
  then have "0 \<le> j \<and> (l = ''TRUE_'' @ str_int j \<or> l = ''END_'' @ str_int j
                      \<or> l = ''RETURN_'' @ str_int j)" by (intro conjI)
  then show "\<exists>n. 0 \<le> n \<and> (l = ''TRUE_'' @ str_int n \<or> l = ''END_'' @ str_int n
                      \<or> l = ''RETURN_'' @ str_int n)" by (rule exI)
qed

lemma main_user_label_programs:
  "main_commandType [''label'', ''RETURN_0''] = Inr (Some C_LABEL) \<and>
   main_arg1 [''label'', ''RETURN_0''] = Inr ''RETURN_0'' \<and>
   fst (main_translate ''Prog.asm'' [[''label'', ''RETURN_0'']]) = None \<and>
   declared_labels (file_text (snd (main_translate ''Prog.asm'' [[''label'', ''RETURN_0'']])))
     = [''RETURN_0''] \<and>
   main_commandType [''function'', ''TRUE_1'', ''0''] = Inr (Some C_FUNCTION) \<and>
   main_arg1 [''function'', ''TRUE_1'', ''0''] = Inr ''TRUE_1'' \<and>
   fst (main_translate ''Prog.asm'' [[''function'', ''TRUE_1'', ''0''], [''eq'']]) = None \<and>
   declared_labels (file_text (snd (main_translate ''Prog.asm'' [[''function'', ''TRUE_1'', ''0''], [''eq'']])))
     = [''RETURN_0'', ''TRUE_1'', ''END_1'']"
proof -
  have ct: "main_commandType [''label'', ''RETURN_0''] = Inr (Some C_LABEL)"
    "main_commandType [''function'', ''TRUE_1'', ''0''] = Inr (Some C_FUNCTION)"
    by (simp_all add: main_commandType_def arithmetic_names_def)
  have a1: "main_arg1 [''label'', ''RETURN_0''] = Inr ''RETURN_0''"
    "main_arg1 [''function'', ''TRUE_1'', ''0''] = Inr ''TRUE_1''"
    by (simp_all add: main_arg1_def ct py_index_def)
  have s1: "main_translate_step [''label'', ''RETURN_0''] w = Inr w"
    "main_translate_step [''function'', ''TRUE_1'', ''0''] w = Inr w" for w
    by (simp_all add: main_translate_step_def ct)
  have s2: "main_translate_step [''eq''] w = Inr (file_write
     (compare_asm (''TRUE_'' @ str_int (label_count w)) (''END_'' @ str_int (label_count w)) ''JEQ'')
     (w\<lparr>label_count := label_count w + 1\<rparr>))" for w
    by (simp add: main_translate_step_def main_commandType_def main_arg1_def py_index_def
        arithmetic_names_def main_writeArithmetic_text)
  have t1: "main_translate ''Prog.asm'' [[''label'', ''RETURN_0'']]
              = (None, main_CodeWriter_init ''Prog.asm'')"
    by (simp add: main_translate_def s1)
  have t2: "main_translate ''Prog.asm'' [[''function'', ''TRUE_1'', ''0''], [''eq'']]
              = (None, file_write (compare_asm ''TRUE_1'' ''END_1'' ''JEQ'')
                   ((main_CodeWriter_init ''Prog.asm'')\<lparr>label_count := 2\<rparr>))"
    by (simp add: main_translate_def s1 s2 main_CodeWriter_init_eq str_int_small)
  have d2: "declared_labels (bootstrap_asm @ compare_asm ''TRUE_1'' ''END_1'' ''JEQ'')
              = [''RETURN_0'', ''TRUE_1'', ''END_1'']"
    by (simp add: declared_labels_append [OF bootstrap_facts(1)] bootstrap_facts(2) compare_fragment(2))
  have l2: "declared_labels (file_text (snd (main_translate ''Prog.asm'' [[''function'', ''TRUE_1'', ''0''], [''eq'']])))
     = [''RETURN_0'', ''TRUE_1'', ''END_1'']"
    unfolding t2 by (simp only: snd_conv file_text_file_write main_CodeWriter_init_eq) (simp add: d2)
  from ct a1 l2 show ?thesis
    by (simp add: t1 t2 main_init_text)
qed

lemma step_extends_text:
  assumes "step_extends w w'"
  shows "\<exists>t. file_text w' = file_text w @ t \<and> nl_terminated t
           \<and> ''// Bootstrap code'' \<notin> set (asm_lines t)"
proof -
  from assms consider "w' = w"
    | "plain_fragment (emitted w w')" "w' = file_write (emitted w w') w"
    | j where "j \<in> {''JEQ'', ''JGT'', ''JLT''}"
        "w' = file_write
               (compare_asm (''TRUE_'' @ str_int (label_count w)) (''END_'' @ str_int (label_count w)) j)
               (w\<lparr>label_count := label_count w + 1\<rparr>)"
    unfolding step_extends_def by blast
  then show ?thesis
  proof cases
    case 1
    then have "file_text w' = file_text w @ [] \<and> nl_terminated []
           \<and> ''// Bootstrap code'' \<notin> set (asm_lines [])"
      by (simp add: nl_terminated_def)
    then show ?thesis by (rule exI)
  next
    case 2
    have "file_text w' = file_text w @ emitted w w'"
      by (subst 2(2), simp add: file_text_file_write)
    with 2(1) have "file_text w' = file_text w @ emitted w w' \<and> nl_terminated (emitted w w')
           \<and> ''// Bootstrap code'' \<notin> set (asm_lines (emitted w w'))"
      by (simp add: plain_fragment_def)
    then show ?thesis by (rule exI)
  next
    case 3
    let ?t = "compare_asm (''TRUE_'' @ str_int (label_count w)) (''END_'' @ str_int (label_count w)) j"
    note cf = compare_fragment [OF label_newline(1) label_newline(2) jump_names_newline [OF 3(1)],
        of "label_count w" "label_count w"]
    have "file_text w' = file_text w @ ?t"
      by (subst 3(2), simp add: file_text_file_write)
    with cf(1,3) have "file_text w' = file_text w @ ?t \<and> nl_terminated ?t
           \<and> ''// Bootstrap code'' \<notin> set (asm_lines ?t)"
      by (intro conjI)
    then show ?thesis by (rule exI)
  qed
qed

lemma main_loop_text:
  "\<exists>rest. file_text (snd (main_translate_loop cs w)) = file_text w @ rest \<and> nl_terminated rest
           \<and> ''// Bootstrap code'' \<notin> set (asm_lines rest)"
proof (induction cs arbitrary: w)
  case Nil
  have "file_text (snd (main_translate_loop [] w)) = file_text w @ [] \<and> nl_terminated []
           \<and> ''// Bootstrap code'' \<notin> set (asm_lines [])"
    by (simp add: nl_terminated_def)
  then show ?case by (rule exI)
next
  case (Cons c cs)
  show ?case
  proof (cases "main_translate_step c w")
    case (Inl e)
    have "file_text (snd (main_translate_loop (c # cs) w)) = file_text w @ [] \<and> nl_terminated []
           \<and> ''// Bootstrap code'' \<notin> set (asm_lines [])"
      using Inl by (simp add: nl_terminated_def)
    then show ?thesis by (rule exI)
  next
    case (Inr w')
    from step_extends_text [OF main_translate_step_extends [OF Inr]]
    obtain t where t: "file_text w' = file_text w @ t" "nl_terminated t"
      "''// Bootstrap code'' \<notin> set (asm_lines t)"
      by (elim exE conjE)
    from Cons.IH [of w'] obtain r where r: "file_text (snd (main_translate_loop cs w')) = file_text w' @ r"
      "nl_terminated r" "''// Bootstrap code'' \<notin> set (asm_lines r)"
      by (elim exE conjE)
    from t r Inr
    have "file_text (snd (main_translate_loop (c # cs) w)) = file_text w @ (t @ r)
           \<and> nl_terminated (t @ r)
           \<and> ''// Bootstrap code'' \<notin> set (asm_lines (t @ r))"
      by (simp add: nl_terminated_append2 asm_lines_append)
    then show ?thesis by (rule exI)
  qed
qed

lemma parse_bootstrap:
  "parse_asm bootstrap_asm
     = Some ([Blank, A_instr (ANum 256), C_instr (Dest False True False) (Reg RA) None,
              A_instr (ASym ''SP''), C_instr (Dest False False True) (Reg RD) None]
             @ call_code ''Sys.init'' (ANum 0) ''RETURN_0'')"
  unfolding bootstrap_asm_def
  by (intro parse_asm_append_Some parse_call_0)
     (simp_all add: parse_simps nl_terminated_def)

lemma exec_bootstrap:
  assumes env: "predefined_ok env"
  shows "\<exists>s'. exec_steps env bootstrap_asm 4 s = Some s' \<and> ram s' 0 = 256 \<and> pc s' = pc s + 4"
    "\<exists>s'. exec_steps env bootstrap_asm 52 s = Some s' \<and> pc s' = pc s + 52"
    "\<exists>s'. exec_steps env bootstrap_asm 53 s = Some s' \<and> pc s' = unat (env ''Sys.init'')
          \<and> ram s' 0 = 261 \<and> ram s' 1 = 261 \<and> ram s' 2 = 256"
  by (simp_all add: exec_steps_def parse_bootstrap call_code_def code_of_def steps_numeral
      Let_def predefined_okD [OF env])

section \<open>Properties of the translate loop\<close>

lemmas translator_defs =
  vmt_translate_def main_translate_def vmt_translate_step_def main_translate_step_def
  vmt_commandType_def main_commandType_def vmt_arg1_def vmt_arg2_def main_arg1_def main_arg2_def
  py_index_def arithmetic_names_def py_int_def py_nat_def digit_val_def
  vmt_writePush_def vmt_writePop_def main_writePush_def main_writePop_def
  vmt_writeArithmetic_def main_writeArithmetic_def main_writeCall_def main_writeInit_def
  vmt_CodeWriter_init_def main_CodeWriter_init_def file_write_def SEGMENTS_def
  str_int_def str_nat.simps digit_char_def Let_def path_stem_def

lemma vmt_translate_loop_append:
  "vmt_translate_loop (pre @ cmds) w =
     (case vmt_translate_loop pre w of
        (None, w') \<Rightarrow> vmt_translate_loop cmds w'
      | (Some e, w') \<Rightarrow> (Some e, w'))"
  by (induction pre arbitrary: w) (auto split: sum.splits)

lemma main_translate_loop_append:
  "main_translate_loop (pre @ cmds) w =
     (case main_translate_loop pre w of
        (None, w') \<Rightarrow> main_translate_loop cmds w'
      | (Some e, w') \<Rightarrow> (Some e, w'))"
  by (induction pre arbitrary: w) (auto split: sum.splits)

subsection \<open>Commands the loop does not dispatch\<close>

text \<open>
  Claim C1 asks that every command of kind Label, Goto, IfGoto, Function, Call or Return is
  dispatched to an emitter that appends a non-empty fragment.  The code does not do this.
  At the input \<open>call Foo 0\<close> the parser of \<open>src/main.py\<close> recognises the command as
  \<open>C_CALL\<close>, yet the loop appends nothing: the output is that of the empty program.  The
  parser of \<open>src/VMTranslator.py\<close> raises \<open>ValueError\<close> on the same command.
\<close>

theorem main_translate_skips_call:
  "main_commandType [''call'', ''Foo'', ''0''] = Inr (Some C_CALL) \<and>
   main_translate ''Prog.asm'' [[''call'', ''Foo'', ''0'']] = main_translate ''Prog.asm'' [] \<and>
   vmt_translate [[''call'', ''Foo'', ''0'']] = (Some ValueError, vmt_CodeWriter_init)"
  by (simp add: translator_defs)

subsection \<open>Pop to the constant segment\<close>

lemma vmt_writePop_constant: "vmt_writePop ''constant'' i w = Inl ValueError"
  by (simp add: vmt_writePop_def)

lemma main_writePop_constant: "main_writePop ''constant'' i w = Inl UnboundLocalError"
  by (simp add: main_writePop_def SEGMENTS_def)

lemma vmt_step_pop_constant:
  "py_int tok = Some i \<Longrightarrow> vmt_translate_step [''pop'', ''constant'', tok] w = Inl ValueError"
  by (simp add: vmt_translate_step_def vmt_commandType_def vmt_arg1_def vmt_arg2_def py_index_def
      arithmetic_names_def vmt_writePop_constant)

lemma main_step_pop_constant:
  "py_int tok = Some i \<Longrightarrow>
   main_translate_step [''pop'', ''constant'', tok] w = Inl UnboundLocalError"
  by (simp add: main_translate_step_def main_commandType_def main_arg1_def main_arg2_def
      py_index_def arithmetic_names_def main_writePop_constant)

text \<open>
  Claim C6: for every index, \<open>pop constant index\<close> is fatal.  In both files \<open>writePop\<close>
  raises (the explicit \<open>ValueError\<close> in \<open>src/VMTranslator.py\<close>; in \<open>src/main.py\<close> the
  \<open>UnboundLocalError\<close> of the unassigned \<open>asm_code\<close>) without writing.  In a run, whatever
  precedes and follows the command, the loop stops at it: the result is the exception and
  the writer exactly as the preceding commands left it, so nothing was appended for the
  command and no later command was translated.
\<close>

theorem pop_constant_is_fatal:
  "vmt_writePop ''constant'' i w = Inl ValueError \<and>
   main_writePop ''constant'' i wm = Inl UnboundLocalError \<and>
   (py_int tok = Some i \<longrightarrow>
      (vmt_translate_loop pre w = (None, w') \<longrightarrow>
         vmt_translate_loop (pre @ [''pop'', ''constant'', tok] # post) w = (Some ValueError, w')) \<and>
      (main_translate_loop pre wm = (None, wm') \<longrightarrow>
         main_translate_loop (pre @ [''pop'', ''constant'', tok] # post) wm
           = (Some UnboundLocalError, wm')))"
  by (simp add: vmt_writePop_constant main_writePop_constant vmt_translate_loop_append
      main_translate_loop_append vmt_step_pop_constant main_step_pop_constant)

theorem pop_constant_is_fatal_witness:
  "vmt_translate [[''push'', ''constant'', ''7''], [''pop'', ''constant'', ''0''], [''add'']]
     = (Some ValueError, snd (vmt_translate [[''push'', ''constant'', ''7'']])) \<and>
   main_translate ''Prog.asm'' [[''push'', ''constant'', ''7''], [''pop'', ''constant'', ''0''], [''add'']]
     = (Some UnboundLocalError, snd (main_translate ''Prog.asm'' [[''push'', ''constant'', ''7'']]))"
proof -
  have tok: "py_int ''0'' = Some 0"
    by (simp add: py_int_def py_nat_def digit_val_def)
  have v: "vmt_translate_loop [[''push'', ''constant'', ''7'']] vmt_CodeWriter_init
             = (None, snd (vmt_translate [[''push'', ''constant'', ''7'']]))"
    by (simp add: translator_defs)
  have m: "main_translate_loop [[''push'', ''constant'', ''7'']] (main_CodeWriter_init ''Prog.asm'')
             = (None, snd (main_translate ''Prog.asm'' [[''push'', ''constant'', ''7'']]))"
    by (simp add: translator_defs)
  from pop_constant_is_fatal [of 0 vmt_CodeWriter_init "main_CodeWriter_init ''Prog.asm''" "''0''"
      "[[''push'', ''constant'', ''7'']]" "snd (vmt_translate [[''push'', ''constant'', ''7'']])"
      "[[''add'']]" "snd (main_translate ''Prog.asm'' [[''push'', ''constant'', ''7'']])"] tok v m
  show ?thesis
    by (simp add: vmt_translate_def main_translate_def)
qed

subsection \<open>The two arithmetic emitters agree\<close>

text \<open>
  Claim C10: started with the same label counter, \<open>writeArithmetic\<close> of \<open>src/main.py\<close>
  and of \<open>src/VMTranslator.py\<close> append the same text and leave the same counter, for
  each of the nine operators; for any other command string both raise \<open>ValueError\<close>.
\<close>

theorem writeArithmetic_agree:
  assumes "label_count wm = label_count wv"
  shows "(c \<in> arithmetic_names \<longrightarrow>
            (\<exists>wm' wv'.
               main_writeArithmetic c wm = Inr wm' \<and> vmt_writeArithmetic c wv = Inr wv' \<and>
               (\<exists>asm_code. file_text wm' = file_text wm @ asm_code \<and>
                           file_text wv' = file_text wv @ asm_code) \<and>
               label_count wm' = label_count wv'))
       \<and> (c \<notin> arithmetic_names \<longrightarrow>
            main_writeArithmetic c wm = Inl ValueError \<and> vmt_writeArithmetic c wv = Inl ValueError)"
  using assms
  by (auto simp: main_writeArithmetic_def vmt_writeArithmetic_def file_write_def
      arithmetic_names_def Let_def)

theorem writeArithmetic_agree_witness:
  "(\<exists>wm' wv'.
      main_writeArithmetic ''gt'' \<lparr>file_text = ''x'', label_count = 4, filename = ''Prog''\<rparr> = Inr wm' \<and>
      vmt_writeArithmetic ''gt'' \<lparr>file_text = ''yz'', label_count = 4\<rparr> = Inr wv' \<and>
      (\<exists>asm_code. file_text wm' = ''x'' @ asm_code \<and> file_text wv' = ''yz'' @ asm_code) \<and>
      label_count wm' = label_count wv') \<and>
   main_writeArithmetic ''mul'' \<lparr>file_text = ''x'', label_count = 4, filename = ''Prog''\<rparr> = Inl ValueError \<and>
   vmt_writeArithmetic ''mul'' \<lparr>file_text = ''yz'', label_count = 4\<rparr> = Inl ValueError"
proof -
  have eq: "label_count \<lparr>file_text = ''x'', label_count = 4, filename = ''Prog''\<rparr>
              = label_count \<lparr>file_text = ''yz'', label_count = 4\<rparr>"
    by simp
  have a: "''gt'' \<in> arithmetic_names" and b: "''mul'' \<notin> arithmetic_names"
    by (simp_all add: arithmetic_names_def)
  from writeArithmetic_agree [OF eq, of "''gt''"] a writeArithmetic_agree [OF eq, of "''mul''"] b
  show ?thesis by simp
qed

section \<open>Stack depth of the emitted fragments\<close>

text \<open>
  Claim C4 says that the fragment of every pop lowers the stack pointer (cell 0 of the data
  memory) by one and that of every push raises it by one.  As stated, for every command
  and every state, this fails for \<open>src/VMTranslator.py\<close>.  The fragment of \<open>pop local 0\<close>,
  run with \<open>LCL = 0\<close> and \<open>SP = 258\<close>, writes the popped value 300 into cell 0: the
  stack pointer ends at 300, not 257.  The fragment of \<open>push constant 32768\<close> holds the
  line \<open>@32768\<close>, which is no address instruction, so the fragment cannot be run at all.
  The fragment of \<open>push constant 7\<close>, run with \<open>SP = 0\<close> (nothing in this file sets the
  stack pointer), stores 7 into cell 0 and ends with \<open>SP = 8\<close>.
\<close>

theorem vmt_stack_depth_fails:
  "(\<exists>w' s'. vmt_writePop ''local'' 0 \<lparr>file_text = [], label_count = 0\<rparr> = Inr w' \<and>
      exec_asm (assembler_env (file_text w')) (file_text w') 12
        \<lparr>reg_A = 0, reg_D = 0, ram = (\<lambda>a. if a = 0 then 258 else if a = 1 then 0 else 300), pc = 0\<rparr>
        = Some s' \<and> ram s' 0 = 300)
   \<and> (\<exists>w'. vmt_writePush ''constant'' 32768 \<lparr>file_text = [], label_count = 0\<rparr> = Inr w' \<and>
      parse_asm (file_text w') = None \<and>
      (\<forall>env n s. exec_asm env (file_text w') n s = None))
   \<and> (\<exists>w' s'. vmt_writePush ''constant'' 7 \<lparr>file_text = [], label_count = 0\<rparr> = Inr w' \<and>
      exec_asm (assembler_env (file_text w')) (file_text w') 12
        \<lparr>reg_A = 0, reg_D = 0, ram = (\<lambda>a. 0), pc = 0\<rparr> = Some s' \<and> ram s' 0 = 8)"
proof (intro conjI)
  let ?w = "\<lparr>file_text = [], label_count = 0\<rparr>"
  let ?pop = "''@'' @ str_int 0 @ ''\<newline>D=A\<newline>'' @ ''@'' @ ''LCL'' @ ''\<newline>D=M+D\<newline>@R13\<newline>M=D\<newline>'' @ ''@SP\<newline>AM=M-1\<newline>D=M\<newline>@R13\<newline>A=M\<newline>M=D\<newline>''"
  let ?s = "\<lparr>reg_A = 0, reg_D = 0, ram = (\<lambda>a::16 word. if a = 0 then 258 else if a = 1 then 0 else 300 :: 16 word), pc = 0\<rparr>"
  have p: "parse_asm ?pop = Some
     [A_instr (ANum 0), C_instr (Dest False True False) (Reg RA) None,
      A_instr (ASym ''LCL''), C_instr (Dest False True False) (Add RM RD) None,
      A_instr (ASym ''R13''), C_instr (Dest False False True) (Reg RD) None,
      A_instr (ASym ''SP''), C_instr (Dest True False True) (Dec RM) None,
      C_instr (Dest False True False) (Reg RM) None,
      A_instr (ASym ''R13''), C_instr (Dest True False False) (Reg RM) None,
      C_instr (Dest False False True) (Reg RD) None]"
    by (simp add: parse_simps)
  have run: "\<exists>s'. exec_asm (assembler_env t) t 12 ?s = Some s' \<and> ram s' 0 = 300"
    if q: "parse_asm t = Some
     [A_instr (ANum 0), C_instr (Dest False True False) (Reg RA) None,
      A_instr (ASym ''LCL''), C_instr (Dest False True False) (Add RM RD) None,
      A_instr (ASym ''R13''), C_instr (Dest False False True) (Reg RD) None,
      A_instr (ASym ''SP''), C_instr (Dest True False True) (Dec RM) None,
      C_instr (Dest False True False) (Reg RM) None,
      A_instr (ASym ''R13''), C_instr (Dest True False False) (Reg RM) None,
      C_instr (Dest False False True) (Reg RD) None]" for t
  proof -
    have env: "predefined_ok (assembler_env t)"
      by (rule predefined_ok_assembler_env [OF q])
    show ?thesis
      by (simp add: exec_asm_def q code_of_def run_numeral predefined_okD [OF env])
  qed
  from run [OF p]
  show "\<exists>w' s'. vmt_writePop ''local'' 0 ?w = Inr w' \<and>
      exec_asm (assembler_env (file_text w')) (file_text w') 12 ?s = Some s' \<and> ram s' 0 = 300"
    by (simp only: vmt_writePop_text) (simp add: file_write_def)
next
  let ?w = "\<lparr>file_text = [], label_count = 0\<rparr>"
  have "parse_asm (''@'' @ str_int 32768 @ ''\<newline>D=A\<newline>'' @ ''@SP\<newline>A=M\<newline>M=D\<newline>@SP\<newline>M=M+1\<newline>'') = None"
    by (simp add: parse_asm_def asm_lines_append_line newline_notin_str_int parse_line_at
        str_int_32768 parse_A_32768)
  then show "\<exists>w'. vmt_writePush ''constant'' 32768 ?w = Inr w' \<and>
      parse_asm (file_text w') = None \<and> (\<forall>env n s. exec_asm env (file_text w') n s = None)"
    by (simp only: vmt_writePush_text) (simp add: file_write_def exec_asm_def)
next
  let ?w = "\<lparr>file_text = [], label_count = 0\<rparr>"
  let ?push = "''@'' @ str_int 7 @ ''\<newline>D=A\<newline>'' @ ''@SP\<newline>A=M\<newline>M=D\<newline>@SP\<newline>M=M+1\<newline>''"
  let ?s = "\<lparr>reg_A = 0, reg_D = 0, ram = (\<lambda>a::16 word. 0 :: 16 word), pc = 0\<rparr>"
  have p: "parse_asm ?push = Some
     [A_instr (ANum 7), C_instr (Dest False True False) (Reg RA) None,
      A_instr (ASym ''SP''), C_instr (Dest True False False) (Reg RM) None,
      C_instr (Dest False False True) (Reg RD) None,
      A_instr (ASym ''SP''), C_instr (Dest False False True) (Inc RM) None]"
    by (simp add: parse_simps)
  have run: "\<exists>s'. exec_asm (assembler_env t) t 12 ?s = Some s' \<and> ram s' 0 = 8"
    if q: "parse_asm t = Some
     [A_instr (ANum 7), C_instr (Dest False True False) (Reg RA) None,
      A_instr (ASym ''SP''), C_instr (Dest True False False) (Reg RM) None,
      C_instr (Dest False False True) (Reg RD) None,
      A_instr (ASym ''SP''), C_instr (Dest False False True) (Inc RM) None]" for t
  proof -
    have env: "predefined_ok (assembler_env t)"
      by (rule predefined_ok_assembler_env [OF q])
    show ?thesis
      by (simp add: exec_asm_def q code_of_def run_numeral predefined_okD [OF env])
  qed
  from run [OF p]
  show "\<exists>w' s'. vmt_writePush ''constant'' 7 ?w = Inr w' \<and>
      exec_asm (assembler_env (file_text w')) (file_text w') 12 ?s = Some s' \<and> ram s' 0 = 8"
    by (simp only: vmt_writePush_text) (simp add: file_write_def)
qed

text \<open>
  Claim C4, amended, for the emitters of \<open>src/VMTranslator.py\<close>.  Run from a state whose
  stack pointer is in the stack area (256 and above), under a symbol table that has the
  predefined symbols and gives the labels of the fragment their addresses, the fragment of
  a binary or comparison command runs to its end and leaves the stack pointer one lower;
  that of a unary command leaves it unchanged; that of a push leaves it one higher; that of
  a pop leaves it one lower.  The index of a push or pop is taken in the range of an
  address instruction (from 0 to 32767, counting the base 5 for \<open>temp\<close>), and for a pop the
  cell written is not the stack pointer itself.
\<close>

theorem vmt_stack_depth:
  assumes env: "predefined_ok env" and sp: "256 \<le> unat (ram s 0)" and k: "0 \<le> label_count w"
  shows
   "(command \<in> {''add'', ''sub'', ''and'', ''or'', ''eq'', ''gt'', ''lt''} \<longrightarrow>
       (\<exists>w'. vmt_writeArithmetic command w = Inr w' \<and>
          (symbols_agree env (pc s) (emitted w w') \<longrightarrow>
             (\<exists>s'. exec_asm env (emitted w w') 12 s = Some s' \<and> ram s' 0 = ram s 0 - 1))))
    \<and> (command \<in> {''neg'', ''not''} \<longrightarrow>
       (\<exists>w'. vmt_writeArithmetic command w = Inr w' \<and>
          (\<exists>s'. exec_asm env (emitted w w') 12 s = Some s' \<and> ram s' 0 = ram s 0)))
    \<and> (vmt_writePush segment index w = Inr w' \<and> 0 \<le> index
          \<and> (if segment = ''temp'' then 5 + index else index) < 32768 \<longrightarrow>
       (\<exists>s'. exec_asm env (emitted w w') 12 s = Some s' \<and> ram s' 0 = ram s 0 + 1))
    \<and> (vmt_writePop segment index w = Inr w' \<and> 0 \<le> index
          \<and> (if segment = ''temp'' then 5 + index else index) < 32768
          \<and> vmt_cell env s segment index \<noteq> Some 0 \<longrightarrow>
       (\<exists>s'. exec_asm env (emitted w w') 12 s = Some s' \<and> ram s' 0 = ram s 0 - 1))"
proof (intro conjI impI)
  assume "command \<in> {''add'', ''sub'', ''and'', ''or'', ''eq'', ''gt'', ''lt''}"
  then consider "command = ''add'' \<or> command = ''sub'' \<or> command = ''and'' \<or> command = ''or''"
    | "command = ''eq'' \<or> command = ''gt'' \<or> command = ''lt''"
    by (simp only: insert_iff empty_iff) fast
  then show "\<exists>w'. vmt_writeArithmetic command w = Inr w' \<and>
          (symbols_agree env (pc s) (emitted w w') \<longrightarrow>
             (\<exists>s'. exec_asm env (emitted w w') 12 s = Some s' \<and> ram s' 0 = ram s 0 - 1))"
  proof cases
    case 1
    from vmt_binary_exec [OF 1 env sp, of w] show ?thesis by (elim exE conjE) fast
  next
    case 2
    from vmt_compare_exec [OF 2 k sp, of env]
    obtain w' where w': "vmt_writeArithmetic command w = Inr w'"
      and ex: "symbols_agree env (pc s) (emitted w w') \<longrightarrow>
              (\<exists>s'. exec_asm env (emitted w w') 12 s = Some s' \<and> ram s' 0 = ram s 0 - 1
                 \<and> pc s' = pc s + 15
                 \<and> (\<forall>a. a \<noteq> 0 \<and> a \<noteq> ram s 0 - 2 \<longrightarrow> ram s' a = ram s a))"
      by (elim exE conjE)
    from w' ex show ?thesis by blast
  qed
next
  assume "command \<in> {''neg'', ''not''}"
  then have c: "command = ''neg'' \<or> command = ''not''" by (simp only: insert_iff empty_iff simp_thms)
  from vmt_unary_exec [OF c env sp, of w]
  show "\<exists>w'. vmt_writeArithmetic command w = Inr w' \<and>
          (\<exists>s'. exec_asm env (emitted w w') 12 s = Some s' \<and> ram s' 0 = ram s 0)"
    by (elim exE conjE) fast
next
  assume a: "vmt_writePush segment index w = Inr w' \<and> 0 \<le> index
          \<and> (if segment = ''temp'' then 5 + index else index) < 32768"
  note st = stack_top_distinct [OF sp]
  from a have "\<exists>s'. exec_asm env (emitted w w') 10 s = Some s'
           \<and> ram s' = (ram s)(ram s 0 := (case vmt_cell env s segment index of
                                              Some c \<Rightarrow> ram s c | None \<Rightarrow> word_of_int index),
                              0 := ram s 0 + 1)"
    by (intro vmt_push_exec env st(1)) simp_all
  then obtain s' where "exec_asm env (emitted w w') 10 s = Some s'" "ram s' 0 = ram s 0 + 1"
    by (elim exE conjE) simp
  then show "\<exists>s'. exec_asm env (emitted w w') 12 s = Some s' \<and> ram s' 0 = ram s 0 + 1"
    using exec_asm_fuel [of env "emitted w w'" 10 s s' 12] by (intro exI [of _ s']) simp
next
  assume a: "vmt_writePop segment index w = Inr w' \<and> 0 \<le> index
          \<and> (if segment = ''temp'' then 5 + index else index) < 32768
          \<and> vmt_cell env s segment index \<noteq> Some 0"
  then have "\<exists>s' c. vmt_cell env s segment index = Some c
           \<and> exec_asm env (emitted w w') 12 s = Some s'
           \<and> ram s' c = ram s (ram s 0 - 1)
           \<and> (c \<noteq> 0 \<longrightarrow> ram s' 0 = ram s 0 - 1)
           \<and> (\<forall>a. a \<noteq> 0 \<and> a \<noteq> 13 \<and> a \<noteq> c \<longrightarrow> ram s' a = ram s a)"
    by (intro vmt_pop_exec env sp) simp_all
  with a show "\<exists>s'. exec_asm env (emitted w w') 12 s = Some s' \<and> ram s' 0 = ram s 0 - 1"
    by (elim exE conjE) simp
qed

theorem vmt_stack_depth_witness:
  "(\<exists>w'. vmt_writeArithmetic ''lt'' \<lparr>file_text = [], label_count = 0\<rparr> = Inr w' \<and>
      (\<exists>s'. exec_asm (assembler_env (compare_asm ''TRUE_0'' ''END_0'' ''JLT'')) (file_text w') 12
              \<lparr>reg_A = 0, reg_D = 0, ram = (\<lambda>a. if a = 0 then 258 else 300), pc = 0\<rparr> = Some s'
          \<and> ram s' 0 = 257))
   \<and> (\<exists>w'. vmt_writeArithmetic ''neg'' \<lparr>file_text = [], label_count = 0\<rparr> = Inr w' \<and>
      (\<exists>s'. exec_asm (assembler_env (compare_asm ''TRUE_0'' ''END_0'' ''JLT'')) (file_text w') 12
              \<lparr>reg_A = 0, reg_D = 0, ram = (\<lambda>a. if a = 0 then 258 else 300), pc = 0\<rparr> = Some s'
          \<and> ram s' 0 = 258))
   \<and> (\<exists>w' s'. vmt_writePush ''constant'' 7 \<lparr>file_text = [], label_count = 0\<rparr> = Inr w' \<and>
        exec_asm (assembler_env (compare_asm ''TRUE_0'' ''END_0'' ''JLT'')) (file_text w') 12
              \<lparr>reg_A = 0, reg_D = 0, ram = (\<lambda>a. if a = 0 then 258 else 300), pc = 0\<rparr> = Some s'
          \<and> ram s' 0 = 259)
   \<and> (\<exists>w' s'. vmt_writePop ''local'' 2 \<lparr>file_text = [], label_count = 0\<rparr> = Inr w' \<and>
        exec_asm (assembler_env (compare_asm ''TRUE_0'' ''END_0'' ''JLT'')) (file_text w') 12
              \<lparr>reg_A = 0, reg_D = 0, ram = (\<lambda>a. if a = 0 then 258 else 300), pc = 0\<rparr> = Some s'
          \<and> ram s' 0 = 257)"
proof -
  let ?env = "assembler_env (compare_asm ''TRUE_0'' ''END_0'' ''JLT'')"
  let ?s = "\<lparr>reg_A = 0, reg_D = 0, ram = (\<lambda>a::16 word. if a = 0 then 258 else 300 :: 16 word), pc = 0\<rparr>"
  let ?w = "\<lparr>file_text = [], label_count = 0\<rparr>"
  let ?push = "file_write (''@'' @ str_int 7 @ ''\<newline>D=A\<newline>'' @ ''@SP\<newline>A=M\<newline>M=D\<newline>@SP\<newline>M=M+1\<newline>'') ?w"
  let ?pop = "file_write (''@'' @ str_int 2 @ ''\<newline>D=A\<newline>'' @ ''@'' @ ''LCL'' @ ''\<newline>D=M+D\<newline>@R13\<newline>M=D\<newline>'' @ ''@SP\<newline>AM=M-1\<newline>D=M\<newline>@R13\<newline>A=M\<newline>M=D\<newline>'') ?w"
  have env: "predefined_ok ?env"
    by (rule predefined_ok_assembler_env [OF parse_compare_0])
  have sp: "256 \<le> unat (ram ?s 0)" and k: "0 \<le> label_count ?w"
    by simp_all
  have lt: "vmt_writeArithmetic ''lt'' ?w
              = Inr (file_write (compare_asm ''TRUE_0'' ''END_0'' ''JLT'') (?w\<lparr>label_count := 1\<rparr>))"
    by (simp add: vmt_writeArithmetic_text str_int_small)
  have ag: "symbols_agree ?env (pc ?s)
              (emitted ?w (file_write (compare_asm ''TRUE_0'' ''END_0'' ''JLT'') (?w\<lparr>label_count := 1\<rparr>)))"
    by (simp add: symbols_agree_def env assembler_env_compare_0 emitted_def file_write_def
        text_labels_compare [OF valid_symbol_labels_0(1,2) parse_C_known(23)])
  have push: "vmt_writePush ''constant'' 7 ?w = Inr ?push"
    by (simp only: vmt_writePush_text)
  have pop: "vmt_writePop ''local'' 2 ?w = Inr ?pop"
    by (simp only: vmt_writePop_text)
  have cell: "vmt_cell ?env ?s ''local'' 2 \<noteq> Some 0"
    by (simp add: vmt_cell_simps)
  have m1: "''lt'' \<in> {''add'', ''sub'', ''and'', ''or'', ''eq'', ''gt'', ''lt''}"
    and m2: "''neg'' \<in> {''neg'', ''not''}"
    by simp_all
  from vmt_stack_depth [OF env sp k, of "''lt''" "''constant''" 7 ?push, THEN conjunct1, rule_format, OF m1]
  have 1: "\<exists>s'. exec_asm ?env (compare_asm ''TRUE_0'' ''END_0'' ''JLT'') 12 ?s = Some s' \<and> ram s' 0 = 257"
    using ag by (simp add: lt emitted_def file_write_def)
  from vmt_stack_depth [OF env sp k, of "''neg''" "''local''" 2 ?pop, THEN conjunct2, THEN conjunct1,
      rule_format, OF m2]
  have 2: "\<exists>w'. vmt_writeArithmetic ''neg'' ?w = Inr w' \<and>
             (\<exists>s'. exec_asm ?env (emitted ?w w') 12 ?s = Some s' \<and> ram s' 0 = 258)"
    by simp
  from vmt_stack_depth [OF env sp k, of "''lt''" "''constant''" 7 ?push, THEN conjunct2, THEN conjunct2,
      THEN conjunct1] push
  have 3: "\<exists>s'. exec_asm ?env (emitted ?w ?push) 12 ?s = Some s' \<and> ram s' 0 = 259"
    by simp
  from vmt_stack_depth [OF env sp k, of "''neg''" "''local''" 2 ?pop, THEN conjunct2, THEN conjunct2,
      THEN conjunct2] pop cell
  have 4: "\<exists>s'. exec_asm ?env (emitted ?w ?pop) 12 ?s = Some s' \<and> ram s' 0 = 257"
    by simp
  from 1 have a1: "\<exists>w'. vmt_writeArithmetic ''lt'' ?w = Inr w' \<and>
      (\<exists>s'. exec_asm ?env (file_text w') 12 ?s = Some s' \<and> ram s' 0 = 257)"
    by (simp add: lt file_write_def)
  from 2 have a2: "\<exists>w'. vmt_writeArithmetic ''neg'' ?w = Inr w' \<and>
      (\<exists>s'. exec_asm ?env (file_text w') 12 ?s = Some s' \<and> ram s' 0 = 258)"
    by (simp add: emitted_def)
  from 3 have a3: "\<exists>w' s'. vmt_writePush ''constant'' 7 ?w = Inr w' \<and>
      exec_asm ?env (file_text w') 12 ?s = Some s' \<and> ram s' 0 = 259"
    by (simp add: push emitted_def file_write_def)
  from 4 have a4: "\<exists>w' s'. vmt_writePop ''local'' 2 ?w = Inr w' \<and>
      exec_asm ?env (file_text w') 12 ?s = Some s' \<and> ram s' 0 = 257"
    by (simp add: pop emitted_def file_write_def)
  from a1 a2 a3 a4 show ?thesis by (intro conjI)
qed

section \<open>The cells that segment accesses address\<close>

text \<open>
  Claim C7 says that, for every index, \<open>temp\<close>, \<open>pointer\<close> and \<open>static\<close> are addressed as a
  fixed base (5, 3, 16) plus the index.  It names both files, and it fails for
  \<open>src/VMTranslator.py\<close>.  There \<open>push pointer 2\<close> pushes the content of \<open>THAT\<close> (cell 4,
  holding 11 below), not that of cell \<open>3 + 2\<close> (holding 22); and \<open>push static 5\<close> reads the
  assembler variable \<open>Static.5\<close>, which the assembler puts at its first free cell, 16, not
  at cell \<open>16 + 5\<close>.
\<close>

theorem vmt_pointer_static_not_fixed_base:
  "(\<exists>w' s'. vmt_writePush ''pointer'' 2 \<lparr>file_text = [], label_count = 0\<rparr> = Inr w' \<and>
      exec_asm (assembler_env (file_text w')) (file_text w') 12
        \<lparr>reg_A = 0, reg_D = 0,
         ram = (\<lambda>a. if a = 0 then 256 else if a = 4 then 11 else if a = 5 then 22 else 0), pc = 0\<rparr>
        = Some s' \<and> ram s' 256 = 11)
   \<and> (\<exists>w' s'. vmt_writePush ''static'' 5 \<lparr>file_text = [], label_count = 0\<rparr> = Inr w' \<and>
      exec_asm (assembler_env (file_text w')) (file_text w') 12
        \<lparr>reg_A = 0, reg_D = 0,
         ram = (\<lambda>a. if a = 0 then 256 else if a = 16 then 11 else if a = 21 then 22 else 0), pc = 0\<rparr>
        = Some s' \<and> ram s' 256 = 11)"
proof (intro conjI)
  let ?w = "\<lparr>file_text = [], label_count = 0\<rparr>"
  let ?s = "\<lparr>reg_A = 0, reg_D = 0,
         ram = (\<lambda>a::16 word. if a = 0 then 256 else if a = 4 then 11 else if a = 5 then 22 else 0 :: 16 word), pc = 0\<rparr>"
  have p: "parse_asm (''@'' @ ''THAT'' @ ''\<newline>D=M\<newline>'' @ ''@SP\<newline>A=M\<newline>M=D\<newline>@SP\<newline>M=M+1\<newline>'') = Some
     [A_instr (ASym ''THAT''), C_instr (Dest False True False) (Reg RM) None,
      A_instr (ASym ''SP''), C_instr (Dest True False False) (Reg RM) None,
      C_instr (Dest False False True) (Reg RD) None,
      A_instr (ASym ''SP''), C_instr (Dest False False True) (Inc RM) None]"
    by (simp add: parse_simps)
  have run: "\<exists>s'. exec_asm (assembler_env t) t 12 ?s = Some s' \<and> ram s' 256 = 11"
    if q: "parse_asm t = Some
     [A_instr (ASym ''THAT''), C_instr (Dest False True False) (Reg RM) None,
      A_instr (ASym ''SP''), C_instr (Dest True False False) (Reg RM) None,
      C_instr (Dest False False True) (Reg RD) None,
      A_instr (ASym ''SP''), C_instr (Dest False False True) (Inc RM) None]" for t
  proof -
    have env: "predefined_ok (assembler_env t)"
      by (rule predefined_ok_assembler_env [OF q])
    show ?thesis
      by (simp add: exec_asm_def q code_of_def run_numeral predefined_okD [OF env])
  qed
  from run [OF p]
  show "\<exists>w' s'. vmt_writePush ''pointer'' 2 ?w = Inr w' \<and>
      exec_asm (assembler_env (file_text w')) (file_text w') 12 ?s = Some s' \<and> ram s' 256 = 11"
    by (simp only: vmt_writePush_text) (simp add: file_write_def)
next
  let ?w = "\<lparr>file_text = [], label_count = 0\<rparr>"
  let ?s = "\<lparr>reg_A = 0, reg_D = 0,
         ram = (\<lambda>a::16 word. if a = 0 then 256 else if a = 16 then 11 else if a = 21 then 22 else 0 :: 16 word), pc = 0\<rparr>"
  have vs: "valid_symbol ''Static.5''"
    by (simp add: valid_symbol_Cons symbol_chars_iff digit_val_def)
  have p: "parse_asm (''@'' @ (''Static.'' @ str_int 5) @ ''\<newline>D=M\<newline>'' @ ''@SP\<newline>A=M\<newline>M=D\<newline>@SP\<newline>M=M+1\<newline>'') = Some
     [A_instr (ASym ''Static.5''), C_instr (Dest False True False) (Reg RM) None,
      A_instr (ASym ''SP''), C_instr (Dest True False False) (Reg RM) None,
      C_instr (Dest False False True) (Reg RD) None,
      A_instr (ASym ''SP''), C_instr (Dest False False True) (Inc RM) None]"
    using vs by (simp add: parse_simps str_int_more)
  have run: "\<exists>s'. exec_asm (assembler_env t) t 12 ?s = Some s' \<and> ram s' 256 = 11"
    if q: "parse_asm t = Some
     [A_instr (ASym ''Static.5''), C_instr (Dest False True False) (Reg RM) None,
      A_instr (ASym ''SP''), C_instr (Dest True False False) (Reg RM) None,
      C_instr (Dest False False True) (Reg RD) None,
      A_instr (ASym ''SP''), C_instr (Dest False False True) (Inc RM) None]" for t
  proof -
    have env: "predefined_ok (assembler_env t)"
      by (rule predefined_ok_assembler_env [OF q])
    have st: "assembler_env t ''Static.5'' = 16"
      by (simp add: assembler_env_text [OF q] symbol_table_def predefined_symbols_def)
    show ?thesis
      by (simp add: exec_asm_def q code_of_def run_numeral predefined_okD [OF env] st)
  qed
  from run [OF p]
  show "\<exists>w' s'. vmt_writePush ''static'' 5 ?w = Inr w' \<and>
      exec_asm (assembler_env (file_text w')) (file_text w') 12 ?s = Some s' \<and> ram s' 256 = 11"
    by (simp only: vmt_writePush_text) (simp add: file_write_def)
qed

text \<open>
  Claim C7, amended.  From a state whose stack pointer is in the stack area, for an index
  from 0 on that fits an address instruction: a push of \<open>src/main.py\<close> pushes the content
  of the cell \<open>claimed_cell\<close> gives (base 5, 3 or 16 plus the index, read directly, for
  \<open>temp\<close>, \<open>pointer\<close>, \<open>static\<close>; the content of the base register \<open>LCL\<close>, \<open>ARG\<close>,
  \<open>THIS\<close>, \<open>THAT\<close> plus the index for \<open>local\<close>, \<open>argument\<close>, \<open>this\<close>, \<open>that\<close>), and a pop
  stores the top of the stack into that cell.  The push and pop of \<open>src/VMTranslator.py\<close>
  do so for the cell \<open>vmt_cell\<close> gives, which is the same cell except for \<open>static\<close> and
  for \<open>pointer\<close> with an index other than 0 and 1.
\<close>

theorem segment_addressing:
  assumes env: "predefined_ok env" and sp: "256 \<le> unat (ram s 0)" and i: "0 \<le> index"
  shows
   "(main_writePush segment index wm = Inr wm' \<and> segment \<noteq> ''constant''
        \<and> main_bound segment index < 32768 \<longrightarrow>
       (\<exists>c s'. claimed_cell s segment index = Some c
              \<and> exec_asm env (emitted wm wm') 12 s = Some s' \<and> ram s' (ram s 0) = ram s c))
    \<and> (main_writePop segment index wm = Inr wm' \<and> main_bound segment index < 32768 \<longrightarrow>
       (\<exists>c s'. claimed_cell s segment index = Some c
              \<and> exec_asm env (emitted wm wm') 12 s = Some s' \<and> ram s' c = ram s (ram s 0 - 1)))
    \<and> (vmt_writePush segment index wv = Inr wv' \<and> segment \<noteq> ''constant''
        \<and> (if segment = ''temp'' then 5 + index else index) < 32768 \<longrightarrow>
       (\<exists>c s'. vmt_cell env s segment index = Some c
              \<and> exec_asm env (emitted wv wv') 12 s = Some s' \<and> ram s' (ram s 0) = ram s c))
    \<and> (vmt_writePop segment index wv = Inr wv'
        \<and> (if segment = ''temp'' then 5 + index else index) < 32768 \<longrightarrow>
       (\<exists>c s'. vmt_cell env s segment index = Some c
              \<and> exec_asm env (emitted wv wv') 12 s = Some s' \<and> ram s' c = ram s (ram s 0 - 1)))
    \<and> (segment \<noteq> ''static'' \<and> (segment = ''pointer'' \<longrightarrow> index = 0 \<or> index = 1) \<longrightarrow>
       vmt_cell env s segment index = claimed_cell s segment index)"
proof (intro conjI impI)
  note st = stack_top_distinct [OF sp]
  assume a: "main_writePush segment index wm = Inr wm' \<and> segment \<noteq> ''constant''
        \<and> main_bound segment index < 32768"
  then have w: "main_writePush segment index wm = Inr wm'" and b: "main_bound segment index < 32768"
    and nc: "segment \<noteq> ''constant''" by simp_all
  from main_push_exec [OF w i b env st(1), of ] obtain s' where
    e: "exec_asm env (emitted wm wm') 10 s = Some s'"
    and r: "ram s' = (ram s)(ram s 0 := (case claimed_cell s segment index of
                                              Some c \<Rightarrow> ram s c | None \<Rightarrow> word_of_int index),
                              0 := ram s 0 + 1)"
    by (elim exE conjE)
  from main_writePush_segments [OF w] nc obtain c where c: "claimed_cell s segment index = Some c"
    by (elim disjE) (simp_all add: claimed_cell_simps)
  from r c st(1) have "ram s' (ram s 0) = ram s c" by simp
  with exec_asm_fuel [OF e, of 12] c
  show "\<exists>c s'. claimed_cell s segment index = Some c
              \<and> exec_asm env (emitted wm wm') 12 s = Some s' \<and> ram s' (ram s 0) = ram s c"
    by simp
next
  assume a: "main_writePop segment index wm = Inr wm' \<and> main_bound segment index < 32768"
  then have w: "main_writePop segment index wm = Inr wm'" and b: "main_bound segment index < 32768"
    by simp_all
  from main_pop_exec [OF w i b env sp]
  show "\<exists>c s'. claimed_cell s segment index = Some c
              \<and> exec_asm env (emitted wm wm') 12 s = Some s' \<and> ram s' c = ram s (ram s 0 - 1)"
    by (elim exE conjE) fast
next
  note st = stack_top_distinct [OF sp]
  assume a: "vmt_writePush segment index wv = Inr wv' \<and> segment \<noteq> ''constant''
        \<and> (if segment = ''temp'' then 5 + index else index) < 32768"
  then have w: "vmt_writePush segment index wv = Inr wv'"
    and b: "(if segment = ''temp'' then 5 + index else index) < 32768"
    and nc: "segment \<noteq> ''constant''" by simp_all
  from vmt_push_exec [OF w i b env st(1)] obtain s' where
    e: "exec_asm env (emitted wv wv') 10 s = Some s'"
    and r: "ram s' = (ram s)(ram s 0 := (case vmt_cell env s segment index of
                                              Some c \<Rightarrow> ram s c | None \<Rightarrow> word_of_int index),
                              0 := ram s 0 + 1)"
    by (elim exE conjE)
  from vmt_writePush_segments [OF w] nc obtain c where c: "vmt_cell env s segment index = Some c"
    by (elim disjE) (simp_all add: vmt_cell_simps)
  from r c st(1) have "ram s' (ram s 0) = ram s c" by simp
  with exec_asm_fuel [OF e, of 12] c
  show "\<exists>c s'. vmt_cell env s segment index = Some c
              \<and> exec_asm env (emitted wv wv') 12 s = Some s' \<and> ram s' (ram s 0) = ram s c"
    by simp
next
  assume a: "vmt_writePop segment index wv = Inr wv'
        \<and> (if segment = ''temp'' then 5 + index else index) < 32768"
  then have w: "vmt_writePop segment index wv = Inr wv'"
    and b: "(if segment = ''temp'' then 5 + index else index) < 32768"
    by simp_all
  from vmt_pop_exec [OF w i b env sp]
  show "\<exists>c s'. vmt_cell env s segment index = Some c
              \<and> exec_asm env (emitted wv wv') 12 s = Some s' \<and> ram s' c = ram s (ram s 0 - 1)"
    by (elim exE conjE) fast
next
  assume "segment \<noteq> ''static'' \<and> (segment = ''pointer'' \<longrightarrow> index = 0 \<or> index = 1)"
  then show "vmt_cell env s segment index = claimed_cell s segment index"
    by (auto simp add: vmt_cell_def claimed_cell_simps)
qed

theorem segment_addressing_witness:
  "(\<exists>w' s'. main_writePush ''pointer'' 1 \<lparr>file_text = [], label_count = 0, filename = ''Prog''\<rparr> = Inr w' \<and>
      exec_asm (assembler_env []) (file_text w') 12
        \<lparr>reg_A = 0, reg_D = 0,
         ram = (\<lambda>a. if a = 0 then 258 else if a = 3 then 1000 else if a = 4 then 2000 else 7), pc = 0\<rparr>
        = Some s' \<and> ram s' 258 = 2000)
   \<and> (\<exists>w' s'. main_writePop ''temp'' 2 \<lparr>file_text = [], label_count = 0, filename = ''Prog''\<rparr> = Inr w' \<and>
      exec_asm (assembler_env []) (file_text w') 12
        \<lparr>reg_A = 0, reg_D = 0,
         ram = (\<lambda>a. if a = 0 then 258 else if a = 3 then 1000 else if a = 4 then 2000 else 7), pc = 0\<rparr>
        = Some s' \<and> ram s' 7 = 7)
   \<and> (\<exists>w' s'. vmt_writePush ''that'' 3 \<lparr>file_text = [], label_count = 0\<rparr> = Inr w' \<and>
      exec_asm (assembler_env []) (file_text w') 12
        \<lparr>reg_A = 0, reg_D = 0,
         ram = (\<lambda>a. if a = 0 then 258 else if a = 3 then 1000 else if a = 4 then 2000 else 7), pc = 0\<rparr>
        = Some s' \<and> ram s' 258 = 7)
   \<and> (\<exists>w' s'. vmt_writePop ''this'' 2 \<lparr>file_text = [], label_count = 0\<rparr> = Inr w' \<and>
      exec_asm (assembler_env []) (file_text w') 12
        \<lparr>reg_A = 0, reg_D = 0,
         ram = (\<lambda>a. if a = 0 then 258 else if a = 3 then 1000 else if a = 4 then 2000 else 7), pc = 0\<rparr>
        = Some s' \<and> ram s' 1002 = 7)
   \<and> vmt_cell (assembler_env [])
        \<lparr>reg_A = 0, reg_D = 0,
         ram = (\<lambda>a. if a = 0 then 258 else if a = 3 then 1000 else if a = 4 then 2000 else 7), pc = 0\<rparr>
        ''pointer'' 1 = Some 4"
proof -
  let ?env = "assembler_env []"
  let ?s = "\<lparr>reg_A = 0, reg_D = 0,
         ram = (\<lambda>a::16 word. if a = 0 then 258 else if a = 3 then 1000 else if a = 4 then 2000 else 7 :: 16 word), pc = 0\<rparr>"
  let ?wm = "\<lparr>file_text = [], label_count = 0, filename = ''Prog''\<rparr>"
  let ?wv = "\<lparr>file_text = [], label_count = 0\<rparr>"
  let ?t1 = "''@'' @ str_int (3 + 1) @ ''\<newline>D=M\<newline>'' @ ''@SP\<newline>A=M\<newline>M=D\<newline>@SP\<newline>M=M+1\<newline>''"
  let ?t2 = "''@SP\<newline>AM=M-1\<newline>D=M\<newline>'' @ ''@'' @ str_int (5 + 2) @ ''\<newline>M=D\<newline>''"
  let ?t3 = "''@'' @ ''THAT'' @ ''\<newline>D=M\<newline>@'' @ str_int 3 @ ''\<newline>A=D+A\<newline>D=M\<newline>'' @ ''@SP\<newline>A=M\<newline>M=D\<newline>@SP\<newline>M=M+1\<newline>''"
  let ?t4 = "''@'' @ str_int 2 @ ''\<newline>D=A\<newline>'' @ ''@'' @ ''THIS'' @ ''\<newline>D=M+D\<newline>@R13\<newline>M=D\<newline>'' @ ''@SP\<newline>AM=M-1\<newline>D=M\<newline>@R13\<newline>A=M\<newline>M=D\<newline>''"
  have env: "predefined_ok ?env"
    by (rule predefined_ok_assembler_env [OF parse_asm_Nil])
  have sp: "256 \<le> unat (ram ?s 0)" by simp
  have w1: "main_writePush ''pointer'' 1 ?wm = Inr (file_write ?t1 ?wm)"
    by (simp only: main_writePush_text)
  have w2: "main_writePop ''temp'' 2 ?wm = Inr (file_write ?t2 ?wm)"
    by (simp only: main_writePop_text)
  have w3: "vmt_writePush ''that'' 3 ?wv = Inr (file_write ?t3 ?wv)"
    by (simp only: vmt_writePush_text)
  have w4: "vmt_writePop ''this'' 2 ?wv = Inr (file_write ?t4 ?wv)"
    by (simp only: vmt_writePop_text)
  have em: "emitted ?wm (file_write t ?wm) = t" "emitted ?wv (file_write t ?wv) = t" for t
    by (simp_all add: emitted_def file_write_def)
  have ft: "file_text (file_write t ?wm) = t" "file_text (file_write t ?wv) = t" for t
    by (simp_all add: file_write_def)
  from segment_addressing [OF env sp, of 1 "''pointer''" ?wm "file_write ?t1 ?wm" ?wv ?wv,
      THEN conjunct1] w1
  have 1: "\<exists>s'. exec_asm ?env ?t1 12 ?s = Some s' \<and> ram s' 258 = 2000"
    by (simp add: em main_bound_simps claimed_cell_simps)
  from segment_addressing [OF env sp, of 2 "''temp''" ?wm "file_write ?t2 ?wm" ?wv ?wv,
      THEN conjunct2, THEN conjunct1] w2
  have 2: "\<exists>s'. exec_asm ?env ?t2 12 ?s = Some s' \<and> ram s' 7 = 7"
    by (simp add: em main_bound_simps claimed_cell_simps)
  from segment_addressing [OF env sp, of 3 "''that''" ?wm ?wm ?wv "file_write ?t3 ?wv",
      THEN conjunct2, THEN conjunct2, THEN conjunct1] w3
  have 3: "\<exists>s'. exec_asm ?env ?t3 12 ?s = Some s' \<and> ram s' 258 = 7"
    by (simp add: em vmt_cell_simps)
  from segment_addressing [OF env sp, of 2 "''this''" ?wm ?wm ?wv "file_write ?t4 ?wv",
      THEN conjunct2, THEN conjunct2, THEN conjunct2, THEN conjunct1] w4
  have 4: "\<exists>s'. exec_asm ?env ?t4 12 ?s = Some s' \<and> ram s' 1002 = 7"
    by (simp add: em vmt_cell_simps)
  have 5: "vmt_cell ?env ?s ''pointer'' 1 = Some 4"
    by (simp add: vmt_cell_simps)
  from 1 have a1: "\<exists>w' s'. main_writePush ''pointer'' 1 ?wm = Inr w' \<and>
      exec_asm ?env (file_text w') 12 ?s = Some s' \<and> ram s' 258 = 2000"
    by (simp add: w1 ft)
  from 2 have a2: "\<exists>w' s'. main_writePop ''temp'' 2 ?wm = Inr w' \<and>
      exec_asm ?env (file_text w') 12 ?s = Some s' \<and> ram s' 7 = 7"
    by (simp add: w2 ft)
  from 3 have a3: "\<exists>w' s'. vmt_writePush ''that'' 3 ?wv = Inr w' \<and>
      exec_asm ?env (file_text w') 12 ?s = Some s' \<and> ram s' 258 = 7"
    by (simp add: w3 ft)
  from 4 have a4: "\<exists>w' s'. vmt_writePop ''this'' 2 ?wv = Inr w' \<and>
      exec_asm ?env (file_text w') 12 ?s = Some s' \<and> ram s' 1002 = 7"
    by (simp add: w4 ft)
  from a1 a2 a3 a4 5 show ?thesis by (intro conjI)
qed

section \<open>Pointer indices other than 0 and 1\<close>




section \<open>The call fragment\<close>

text \<open>
  Claim C2 speaks of every call emission \<open>writeCall(name, nArgs)\<close>.  As stated it fails:
  \<open>src/main.py\<close> prints any argument count as it is, and for \<open>nArgs = 32768\<close> the fragment
  holds the line \<open>@32768\<close>, which is no address instruction.  The fragment is then no
  assembly program, and nothing of what the claim describes is executed.
\<close>

theorem main_writeCall_32768_no_code:
  "parse_asm (file_text (main_writeCall ''f'' 32768
      \<lparr>file_text = [], label_count = 0, filename = ''Prog''\<rparr>)) = None \<and>
   (\<forall>env n s. exec_steps env (file_text (main_writeCall ''f'' 32768
      \<lparr>file_text = [], label_count = 0, filename = ''Prog''\<rparr>)) n s = None)"
proof -
  have "parse_asm (file_text (main_writeCall ''f'' 32768
      \<lparr>file_text = [], label_count = 0, filename = ''Prog''\<rparr>)) = None"
    unfolding main_writeCall_text call_asm_def
    apply (simp only: file_write_def append_assoc)
    apply (simp add: parse_asm_def asm_lines_append_line newline_notin_str_int str_int_small
        parse_line_comment parse_line_at parse_A_symbol valid_symbol_labels_0 parse_C_known
        valid_symbol_known push_D_asm_def str_int_32768 parse_A_32768)
    done
  then show ?thesis by (simp add: exec_steps_def)
qed

text \<open>
  Claim C2, amended, for \<open>writeCall\<close> of \<open>src/main.py\<close>.  Let the function name be a symbol
  of the assembly language, the argument count lie between 0 and 32767, the stack pointer
  leave room for five cells above the cells 0 to 4, and the symbol table have the
  predefined symbols and the address of the fragment's label.  Then the fragment runs 48
  instructions in a row, after which five cells have been pushed, and the 49th is the jump:
  the five cells hold the address of the return label, then the caller's \<open>LCL\<close>, \<open>ARG\<close>,
  \<open>THIS\<close>, \<open>THAT\<close>; \<open>ARG\<close> is the new stack pointer minus \<open>nArgs + 5\<close>; \<open>LCL\<close> is the new
  stack pointer; control is at the address of the function name.  The one label of the
  fragment, \<open>RETURN_\<close> with the value of the label counter, stands at offset 49, right
  after the jump, and the counter has been advanced.
\<close>

theorem main_writeCall_frame:
  assumes name: "valid_symbol function_name" and n: "0 \<le> num_args" "num_args < 32768"
    and k: "0 \<le> label_count w"
    and env: "symbols_agree env (pc s) (emitted w (main_writeCall function_name num_args w))"
    and sp: "5 \<le> unat (ram s 0)" "unat (ram s 0) + 5 < 65536"
  shows "\<exists>s'. exec_steps env (emitted w (main_writeCall function_name num_args w)) 49 s = Some s'
      \<and> unat (ram s' (ram s 0)) = pc s + 49
      \<and> ram s' (ram s 0 + 1) = ram s 1 \<and> ram s' (ram s 0 + 2) = ram s 2
      \<and> ram s' (ram s 0 + 3) = ram s 3 \<and> ram s' (ram s 0 + 4) = ram s 4
      \<and> ram s' 0 = ram s 0 + 5
      \<and> ram s' 2 = ram s 0 + 5 - (word_of_int num_args + 5)
      \<and> ram s' 1 = ram s 0 + 5
      \<and> pc s' = unat (env function_name)
      \<and> (\<exists>s''. exec_steps env (emitted w (main_writeCall function_name num_args w)) 48 s = Some s''
             \<and> pc s'' = pc s + 48 \<and> ram s'' 0 = ram s 0 + 5)
      \<and> text_labels (emitted w (main_writeCall function_name num_args w))
           = [(''RETURN_'' @ str_int (label_count w), 49)]
      \<and> label_count (main_writeCall function_name num_args w) = label_count w + 1"
proof -
  let ?rl = "''RETURN_'' @ str_int (label_count w)"
  let ?t = "call_asm function_name (str_int num_args) ?rl"
  have em: "emitted w (main_writeCall function_name num_args w) = ?t"
    by (simp only: main_writeCall_text emitted_file_write_count)
  have vr: "valid_symbol ?rl" by (rule valid_symbol_labels(3) [OF k])
  have pn: "parse_A (str_int num_args) = Some (A_instr (ANum (word_of_int num_args)))"
    using n by (simp add: parse_A_number)
  have nl: "CHR ''\<newline>'' \<notin> set (str_int num_args)" by (rule newline_notin_str_int)
  have tl: "text_labels ?t = [(?rl, 49)]"
    by (rule text_labels_call [OF name vr pn nl])
  from env have ag: "symbols_agree env (pc s) ?t" by (simp only: em)
  then have pe: "predefined_ok env" by (rule symbols_agreeD)
  from ag have rl: "unat (env ?rl) = pc s + 49"
    by (simp only: symbols_agree_def tl) simp
  from exec_call [OF name vr pn nl pe refl sp]
  obtain s' where e: "exec_steps env ?t 49 s = Some s'"
    and r: "ram s' (ram s 0) = env ?rl" "ram s' (ram s 0 + 1) = ram s 1"
      "ram s' (ram s 0 + 2) = ram s 2" "ram s' (ram s 0 + 3) = ram s 3"
      "ram s' (ram s 0 + 4) = ram s 4" "ram s' 0 = ram s 0 + 5"
      "ram s' 2 = ram s 0 + 5 - (operand_val env (ANum (word_of_int num_args)) + 5)"
      "ram s' 1 = ram s 0 + 5" "pc s' = unat (env function_name)"
    by (elim exE conjE)
  from exec_call_straight [OF name vr pn nl pe refl sp]
  obtain s'' where e': "exec_steps env ?t 48 s = Some s''" "ram s'' 0 = ram s 0 + 5"
      "pc s'' = pc s + 48"
    by (elim exE conjE)
  have lc: "label_count (main_writeCall function_name num_args w) = label_count w + 1"
    by (simp add: main_writeCall_text file_write_def)
  from e r rl e' tl lc show ?thesis
    by (simp only: em) simp
qed

theorem main_writeCall_frame_witness:
  "\<exists>s'. exec_steps (assembler_env (call_asm ''Sys.init'' ''0'' ''RETURN_0''))
           (file_text (main_writeCall ''Sys.init'' 0 \<lparr>file_text = [], label_count = 0, filename = ''Prog''\<rparr>))
           49
           \<lparr>reg_A = 0, reg_D = 0,
            ram = (\<lambda>a. if a = 0 then 256 else if a = 1 then 300 else if a = 2 then 400
                        else if a = 3 then 3000 else if a = 4 then 4000 else 0), pc = 0\<rparr> = Some s'
      \<and> ram s' 256 = 49 \<and> ram s' 257 = 300 \<and> ram s' 258 = 400 \<and> ram s' 259 = 3000
      \<and> ram s' 260 = 4000 \<and> ram s' 0 = 261 \<and> ram s' 2 = 256 \<and> ram s' 1 = 261 \<and> pc s' = 16"
proof -
  let ?t = "call_asm ''Sys.init'' ''0'' ''RETURN_0''"
  let ?env = "assembler_env ?t"
  let ?w = "\<lparr>file_text = [], label_count = 0, filename = ''Prog''\<rparr>"
  let ?s = "\<lparr>reg_A = 0, reg_D = 0,
            ram = (\<lambda>a::16 word. if a = 0 then 256 else if a = 1 then 300 else if a = 2 then 400
                        else if a = 3 then 3000 else if a = 4 then 4000 else 0 :: 16 word), pc = 0\<rparr>"
  have em: "emitted ?w (main_writeCall ''Sys.init'' 0 ?w) = ?t"
    and ft: "file_text (main_writeCall ''Sys.init'' 0 ?w) = ?t"
    by (simp_all add: main_writeCall_text str_int_small file_write_def emitted_def)
  have name: "valid_symbol ''Sys.init''" by (rule valid_symbol_known)
  have n: "(0::int) \<le> 0" "(0::int) < 32768" and k: "0 \<le> label_count ?w" by simp_all
  have pe: "predefined_ok ?env"
    by (rule predefined_ok_assembler_env [OF parse_call_0])
  have tl: "text_labels ?t = [(''RETURN_0'', 49)]"
    by (simp add: text_labels_def parse_call_0 call_code_def)
  have env: "symbols_agree ?env (pc ?s) (emitted ?w (main_writeCall ''Sys.init'' 0 ?w))"
    by (simp add: em symbols_agree_def pe tl assembler_env_call_0)
  have sp: "5 \<le> unat (ram ?s 0)" "unat (ram ?s 0) + 5 < 65536" by simp_all
  from main_writeCall_frame [OF name n k env sp]
  obtain s' where e: "exec_steps ?env (emitted ?w (main_writeCall ''Sys.init'' 0 ?w)) 49 ?s = Some s'"
    and r: "unat (ram s' (ram ?s 0)) = pc ?s + 49"
      "ram s' (ram ?s 0 + 1) = ram ?s 1" "ram s' (ram ?s 0 + 2) = ram ?s 2"
      "ram s' (ram ?s 0 + 3) = ram ?s 3" "ram s' (ram ?s 0 + 4) = ram ?s 4"
      "ram s' 0 = ram ?s 0 + 5"
      "ram s' 2 = ram ?s 0 + 5 - (word_of_int 0 + 5)"
      "ram s' 1 = ram ?s 0 + 5" "pc s' = unat (?env ''Sys.init'')"
    by (elim exE conjE)
  from r(1) have "unat (ram s' 256) = unat (49 :: 16 word)" by simp
  then have r1: "ram s' 256 = 49" by (simp only: word_unat_eq_iff)
  from e r(2-) r1 show ?thesis
    by (simp add: em ft assembler_env_call_0)
qed

section \<open>The labels of the comparisons\<close>

text \<open>
  Claim C5: the labels of the comparisons of one output are pairwise distinct.  For every
  list of commands, in the output of \<open>src/VMTranslator.py\<close> and in that of \<open>src/main.py\<close>
  no label is declared twice.  When every command is a comparison (\<open>eq\<close>, \<open>gt\<close>, \<open>lt\<close>), the
  run of \<open>N\<close> commands does not raise and declares \<open>2N\<close> labels, one \<open>TRUE_\<close> and one
  \<open>END_\<close> label per comparison; the output of \<open>src/main.py\<close> has one more, the return label
  of the bootstrap code, made from the same counter.
\<close>

theorem comparison_labels_distinct:
  "distinct (declared_labels (file_text (snd (vmt_translate commands)))) \<and>
   distinct (declared_labels (file_text (snd (main_translate path commands)))) \<and>
   (list_all (\<lambda>c. c \<noteq> [] \<and> (hd c = ''eq'' \<or> hd c = ''gt'' \<or> hd c = ''lt'')) commands \<longrightarrow>
      fst (vmt_translate commands) = None \<and>
      length (declared_labels (file_text (snd (vmt_translate commands)))) = 2 * length commands \<and>
      fst (main_translate path commands) = None \<and>
      length (declared_labels (file_text (snd (main_translate path commands))))
        = 2 * length commands + 1)"
proof (intro conjI impI)
  show "distinct (declared_labels (file_text (snd (vmt_translate commands))))"
    unfolding vmt_translate_def
    by (rule labels_invD(1) [OF vmt_loop_labels_inv [OF labels_inv_vmt_init]])
  show "distinct (declared_labels (file_text (snd (main_translate path commands))))"
    unfolding main_translate_def
    by (rule labels_invD(1) [OF main_loop_labels_inv [OF labels_inv_main_init]])
next
  assume a: "list_all (\<lambda>c. c \<noteq> [] \<and> (hd c = ''eq'' \<or> hd c = ''gt'' \<or> hd c = ''lt'')) commands"
  note v = vmt_loop_comparisons [OF a vmt_init_text(1)]
  note m = main_loop_comparisons [OF a main_init_text(1), of path]
  from v show "fst (vmt_translate commands) = None"
    by (simp add: vmt_translate_def)
  from v show "length (declared_labels (file_text (snd (vmt_translate commands)))) = 2 * length commands"
    by (simp add: vmt_translate_def vmt_init_text(2))
  from m show "fst (main_translate path commands) = None"
    by (simp add: main_translate_def)
  from m show "length (declared_labels (file_text (snd (main_translate path commands))))
        = 2 * length commands + 1"
    by (simp add: main_translate_def main_init_text(2))
qed

theorem comparison_labels_distinct_witness:
  "distinct (declared_labels (file_text (snd (vmt_translate [[''eq''], [''gt''], [''eq'']])))) \<and>
   distinct (declared_labels (file_text (snd (main_translate ''Prog.asm'' [[''eq''], [''gt''], [''eq'']])))) \<and>
   length (declared_labels (file_text (snd (vmt_translate [[''eq''], [''gt''], [''eq'']])))) = 6 \<and>
   length (declared_labels (file_text (snd (main_translate ''Prog.asm'' [[''eq''], [''gt''], [''eq'']])))) = 7"
proof -
  have a: "list_all (\<lambda>c. c \<noteq> [] \<and> (hd c = ''eq'' \<or> hd c = ''gt'' \<or> hd c = ''lt''))
             [[''eq''], [''gt''], [''eq'']]"
    by simp
  note T = comparison_labels_distinct [of "[[''eq''], [''gt''], [''eq'']]" "''Prog.asm''"]
  from T [THEN conjunct2, THEN conjunct2, rule_format, OF a]
  have "length (declared_labels (file_text (snd (vmt_translate [[''eq''], [''gt''], [''eq'']])))) = 6"
    and "length (declared_labels (file_text (snd (main_translate ''Prog.asm'' [[''eq''], [''gt''], [''eq'']])))) = 7"
    by simp_all
  with T [THEN conjunct1] T [THEN conjunct2, THEN conjunct1] show ?thesis
    by (intro conjI)
qed

section \<open>The names of the generated labels\<close>

text \<open>
  Claim C8 says that the generated labels come from a namespace that no identifier of the
  translated program can produce.  There is no such namespace.  \<open>src/main.py\<close> accepts the
  commands \<open>label RETURN_0\<close> and \<open>function TRUE_1 0\<close>, whose identifiers are \<open>RETURN_0\<close>
  and \<open>TRUE_1\<close>, and the outputs for these programs declare the generated labels
  \<open>RETURN_0\<close> and \<open>TRUE_1\<close>.
\<close>

theorem generated_label_is_user_identifier:
  "main_commandType [''label'', ''RETURN_0''] = Inr (Some C_LABEL) \<and>
   main_arg1 [''label'', ''RETURN_0''] = Inr ''RETURN_0'' \<and>
   fst (main_translate ''Prog.asm'' [[''label'', ''RETURN_0'']]) = None \<and>
   declared_labels (file_text (snd (main_translate ''Prog.asm'' [[''label'', ''RETURN_0'']])))
     = [''RETURN_0''] \<and>
   main_commandType [''function'', ''TRUE_1'', ''0''] = Inr (Some C_FUNCTION) \<and>
   main_arg1 [''function'', ''TRUE_1'', ''0''] = Inr ''TRUE_1'' \<and>
   fst (main_translate ''Prog.asm'' [[''function'', ''TRUE_1'', ''0''], [''eq'']]) = None \<and>
   declared_labels (file_text (snd (main_translate ''Prog.asm'' [[''function'', ''TRUE_1'', ''0''], [''eq'']])))
     = [''RETURN_0'', ''TRUE_1'', ''END_1'']"
  by (rule main_user_label_programs)

text \<open>
  Claim C8, amended.  Whatever the commands, every label declared in the output of either
  file is \<open>TRUE_\<close>, \<open>END_\<close> or \<open>RETURN_\<close> followed by a value of the label counter, a
  number from 0 on.  So an identifier of the program that is not of this form differs from
  every generated label; the others are not protected.
\<close>

theorem generated_labels_form:
  "(\<forall>l \<in> set (declared_labels (file_text (snd (vmt_translate commands)))).
      \<exists>n. 0 \<le> n \<and> (l = ''TRUE_'' @ str_int n \<or> l = ''END_'' @ str_int n
                     \<or> l = ''RETURN_'' @ str_int n)) \<and>
   (\<forall>l \<in> set (declared_labels (file_text (snd (main_translate path commands)))).
      \<exists>n. 0 \<le> n \<and> (l = ''TRUE_'' @ str_int n \<or> l = ''END_'' @ str_int n
                     \<or> l = ''RETURN_'' @ str_int n))"
proof (intro conjI ballI)
  fix l assume "l \<in> set (declared_labels (file_text (snd (vmt_translate commands))))"
  then show "\<exists>n. 0 \<le> n \<and> (l = ''TRUE_'' @ str_int n \<or> l = ''END_'' @ str_int n
                     \<or> l = ''RETURN_'' @ str_int n)"
    unfolding vmt_translate_def
    by (rule labels_invD(2) [OF vmt_loop_labels_inv [OF labels_inv_vmt_init]])
next
  fix l assume "l \<in> set (declared_labels (file_text (snd (main_translate path commands))))"
  then show "\<exists>n. 0 \<le> n \<and> (l = ''TRUE_'' @ str_int n \<or> l = ''END_'' @ str_int n
                     \<or> l = ''RETURN_'' @ str_int n)"
    unfolding main_translate_def
    by (rule labels_invD(2) [OF main_loop_labels_inv [OF labels_inv_main_init]])
qed

theorem generated_labels_form_witness:
  "''END_1'' \<in> set (declared_labels (file_text (snd (main_translate ''Prog.asm'' [[''function'', ''TRUE_1'', ''0''], [''eq'']])))) \<and>
   (\<exists>n. 0 \<le> n \<and> (''END_1'' = ''TRUE_'' @ str_int n \<or> ''END_1'' = ''END_'' @ str_int n
                     \<or> ''END_1'' = ''RETURN_'' @ str_int n))"
proof -
  have m: "''END_1'' \<in> set (declared_labels (file_text (snd (main_translate ''Prog.asm'' [[''function'', ''TRUE_1'', ''0''], [''eq'']]))))"
    using main_user_label_programs by simp
  from generated_labels_form [THEN conjunct2, THEN bspec, OF m] m show ?thesis
    by (intro conjI)
qed

section \<open>The bootstrap code\<close>

text \<open>
  Claim C3 says that every translation run starts its output with the bootstrap code.  It
  names both files, and \<open>src/VMTranslator.py\<close> has none: its writer starts with the empty
  text, the output for the empty program is empty, and the output for \<open>push constant 7\<close>
  is the fragment of that command alone, whose first instruction is \<open>@7\<close>.
\<close>

theorem vmt_emits_no_bootstrap:
  "vmt_CodeWriter_init = \<lparr>file_text = [], label_count = 0\<rparr> \<and>
   vmt_translate [] = (None, \<lparr>file_text = [], label_count = 0\<rparr>) \<and>
   vmt_translate [[''push'', ''constant'', ''7'']]
     = (None, \<lparr>file_text = ''@7\<newline>D=A\<newline>@SP\<newline>A=M\<newline>M=D\<newline>@SP\<newline>M=M+1\<newline>'',
               label_count = 0\<rparr>)"
  by (simp add: vmt_translate_def vmt_translate_step_def vmt_commandType_def vmt_arg1_def
      vmt_arg2_def py_index_def arithmetic_names_def py_int_def py_nat_def digit_val_def
      vmt_writePush_text vmt_CodeWriter_init_def file_write_def str_int_small)

text \<open>
  Claim C3, amended, for \<open>src/main.py\<close>.  The writer is constructed with the text
  \<open>bootstrap_asm\<close>, which depends on neither the path nor the commands, and the output of
  every run starts with it; its first lines are the comment and the four instructions
  that set the stack pointer.  The comment line that opens it occurs exactly once in the
  output.  Run under a symbol table with the predefined symbols, from any state, its first
  four instructions leave 256 in the stack pointer; the first 52 instructions are run in a
  row, and the 53rd is the jump to \<open>Sys.init\<close>, taken with the five cells of the frame
  pushed, \<open>LCL\<close> at the new stack pointer 261 and \<open>ARG\<close> at 256.
\<close>

theorem main_bootstrap_prologue:
  assumes env: "predefined_ok env"
  shows "file_text (main_CodeWriter_init path) = bootstrap_asm \<and>
    (\<exists>rest. file_text (snd (main_translate path commands)) = bootstrap_asm @ rest) \<and>
    take 5 (asm_lines (file_text (snd (main_translate path commands))))
      = [''// Bootstrap code'', ''@256'', ''D=A'', ''@SP'', ''M=D''] \<and>
    count_list (asm_lines (file_text (snd (main_translate path commands)))) ''// Bootstrap code'' = 1 \<and>
    (\<exists>s'. exec_steps env bootstrap_asm 4 s = Some s' \<and> ram s' 0 = 256 \<and> pc s' = pc s + 4) \<and>
    (\<exists>s'. exec_steps env bootstrap_asm 52 s = Some s' \<and> pc s' = pc s + 52) \<and>
    (\<exists>s'. exec_steps env bootstrap_asm 53 s = Some s' \<and> pc s' = unat (env ''Sys.init'')
          \<and> ram s' 0 = 261 \<and> ram s' 1 = 261 \<and> ram s' 2 = 256)"
proof -
  have i: "file_text (main_CodeWriter_init path) = bootstrap_asm"
    by (simp add: main_CodeWriter_init_eq)
  from main_loop_text [of commands "main_CodeWriter_init path"]
  obtain rest where r: "file_text (snd (main_translate path commands)) = bootstrap_asm @ rest"
    "nl_terminated rest" "''// Bootstrap code'' \<notin> set (asm_lines rest)"
    unfolding main_translate_def i by (elim exE conjE)
  have al: "asm_lines (bootstrap_asm @ rest) = asm_lines bootstrap_asm @ asm_lines rest"
    by (rule asm_lines_append [OF bootstrap_facts(1)])
  from r(3) have c0: "count_list (asm_lines rest) ''// Bootstrap code'' = 0"
    by (simp only: count_list_0_iff simp_thms)
  have c: "count_list (asm_lines (file_text (snd (main_translate path commands)))) ''// Bootstrap code'' = 1"
    unfolding r(1) al by (simp add: bootstrap_facts(3) c0)
  have t: "take 5 (asm_lines (file_text (snd (main_translate path commands))))
      = [''// Bootstrap code'', ''@256'', ''D=A'', ''@SP'', ''M=D'']"
    unfolding r(1) al bootstrap_lines by simp
  from r(1) have p: "\<exists>rest. file_text (snd (main_translate path commands)) = bootstrap_asm @ rest"
    by (rule exI)
  from i p t c exec_bootstrap [OF env, of s] show ?thesis
    by (intro conjI)
qed

theorem main_bootstrap_prologue_witness:
  "count_list (asm_lines (file_text (snd (main_translate ''Prog.asm'' [[''push'', ''constant'', ''256'']]))))
     ''// Bootstrap code'' = 1 \<and>
   (\<exists>s'. exec_steps (assembler_env bootstrap_asm) bootstrap_asm 4
            \<lparr>reg_A = 0, reg_D = 0, ram = (\<lambda>a. 0), pc = 0\<rparr> = Some s' \<and> ram s' 0 = 256 \<and> pc s' = 4) \<and>
   (\<exists>s'. exec_steps (assembler_env bootstrap_asm) bootstrap_asm 53
            \<lparr>reg_A = 0, reg_D = 0, ram = (\<lambda>a. 0), pc = 0\<rparr> = Some s'
          \<and> pc s' = unat (assembler_env bootstrap_asm ''Sys.init'')
          \<and> ram s' 0 = 261 \<and> ram s' 1 = 261 \<and> ram s' 2 = 256)"
proof -
  have env: "predefined_ok (assembler_env bootstrap_asm)"
    by (rule predefined_ok_assembler_env [OF parse_bootstrap])
  note T = main_bootstrap_prologue [OF env, of "''Prog.asm''" "[[''push'', ''constant'', ''256'']]"
      "\<lparr>reg_A = 0, reg_D = 0, ram = (\<lambda>a. 0), pc = 0\<rparr>"]
  from T [THEN conjunct2, THEN conjunct2, THEN conjunct2, THEN conjunct1]
    T [THEN conjunct2, THEN conjunct2, THEN conjunct2, THEN conjunct2, THEN conjunct1]
    T [THEN conjunct2, THEN conjunct2, THEN conjunct2, THEN conjunct2, THEN conjunct2, THEN conjunct2]
  show ?thesis by simp
qed

end
